theory Spec2Isabelle
  imports Main
begin

section \<open>The day-record store (lib/db.ts)\<close>

text \<open>
  Dates are read off a clock as milliseconds; identifiers are the strings that
  \<open>crypto.randomUUID()\<close> returns. A day record is stored under its \<open>date\<close> (the key
  path of the object store and the key of the fallback map), so the map key stands for
  that field. The search index and the \<open>dayDataChanged\<close> event are separate services
  whose failures db.ts catches; they are left out.
\<close>

record Note =
  note_id :: string
  note_content :: string
  note_createdAt :: int
  note_updatedAt :: int

record ChecklistItem =
  item_id :: string
  item_text :: string
  item_completed :: bool
  item_order :: int
  item_createdAt :: int
  item_updatedAt :: int
  item_originalDate :: "string option"

record DayData =
  day_notes :: "Note list"
  day_checklist :: "ChecklistItem list"
  day_createdAt :: int
  day_updatedAt :: int

text \<open>
  The module state of db.ts (\<open>dbInstance\<close>, \<open>isIndexedDBAvailable\<close>, \<open>fallbackStorage\<close>)
  together with what it talks to: the contents of the \<open>dayData\<close> object store, whether
  \<open>openDB\<close>, \<open>get\<close> and \<open>put\<close> succeed, the clock, and the source of UUIDs (the
  \<open>uuidsDrawn\<close>-th call returns \<open>uuidSource uuidsDrawn\<close>).
\<close>

record world =
  isIndexedDBAvailable :: bool
  dbInstance :: bool
  fallbackStorage :: "string \<rightharpoonup> DayData"
  idbDayData :: "string \<rightharpoonup> DayData"
  idbOpens :: bool
  idbGets :: bool
  idbPuts :: bool
  clock :: int
  uuidSource :: "nat \<Rightarrow> string"
  uuidsDrawn :: nat

definition randomUUID :: "world \<Rightarrow> string \<times> world" where
  "randomUUID w = (uuidSource w (uuidsDrawn w), w\<lparr>uuidsDrawn := Suc (uuidsDrawn w)\<rparr>)"

definition initDB :: "world \<Rightarrow> world" where
  "initDB w = (if idbOpens w then w\<lparr>dbInstance := True\<rparr>
               else w\<lparr>isIndexedDBAvailable := False\<rparr>)"

text \<open>\<open>checklist.map(order ?? index).sort((a, b) => a.order - b.order)\<close>: every item of the
  model has its order, and the sort is stable.\<close>

definition sortChecklist :: "ChecklistItem list \<Rightarrow> ChecklistItem list" where
  "sortChecklist items = sort_key item_order items"

text \<open>Reading the fallback map hands out the stored object itself, so the sorted
  checklist assigned to it is stored as well.\<close>

definition readFallback :: "string \<Rightarrow> world \<Rightarrow> DayData option \<times> world" where
  "readFallback date w =
     (case fallbackStorage w date of
        None \<Rightarrow> (None, w)
      | Some d \<Rightarrow>
          (let d' = d\<lparr>day_checklist := sortChecklist (day_checklist d)\<rparr>
           in (Some d', w\<lparr>fallbackStorage := (fallbackStorage w)(date \<mapsto> d')\<rparr>)))"

definition getDayData :: "string \<Rightarrow> world \<Rightarrow> DayData option \<times> world" where
  "getDayData date w =
     (if \<not> isIndexedDBAvailable w then readFallback date w
      else
        (let w1 = (if \<not> dbInstance w then initDB w else w) in
         if \<not> dbInstance w1 then (None, w1)
         else if idbGets w1 then
           (map_option (\<lambda>d. d\<lparr>day_checklist := sortChecklist (day_checklist d)\<rparr>) (idbDayData w1 date), w1)
         else readFallback date w1))"

definition saveDayData :: "string \<Rightarrow> DayData \<Rightarrow> world \<Rightarrow> world" where
  "saveDayData date dayData w =
     (let d = dayData\<lparr>day_updatedAt := clock w\<rparr> in
      if \<not> isIndexedDBAvailable w then w\<lparr>fallbackStorage := (fallbackStorage w)(date \<mapsto> d)\<rparr>
      else
        (let w1 = (if \<not> dbInstance w then initDB w else w) in
         if \<not> dbInstance w1 then w1\<lparr>fallbackStorage := (fallbackStorage w1)(date \<mapsto> d)\<rparr>
         else if idbPuts w1 then w1\<lparr>idbDayData := (idbDayData w1)(date \<mapsto> d)\<rparr>
         else w1\<lparr>fallbackStorage := (fallbackStorage w1)(date \<mapsto> d)\<rparr>))"

definition createEmptyDayData :: "string \<Rightarrow> world \<Rightarrow> DayData \<times> world" where
  "createEmptyDayData date w =
     (let dayData = \<lparr>day_notes = [], day_checklist = [], day_createdAt = clock w, day_updatedAt = clock w\<rparr>
      in (dayData, saveDayData date dayData w))"

definition getOrCreate :: "string \<Rightarrow> world \<Rightarrow> DayData \<times> world" where
  "getOrCreate date w =
     (case getDayData date w of
        (Some dayData, w1) \<Rightarrow> (dayData, w1)
      | (None, w1) \<Rightarrow> createEmptyDayData date w1)"

definition addNote :: "string \<Rightarrow> string \<Rightarrow> world \<Rightarrow> Note \<times> world" where
  "addNote date content w =
     (case getOrCreate date w of
        (dayData, w1) \<Rightarrow>
          (case randomUUID w1 of
             (u, w2) \<Rightarrow>
               (let note = \<lparr>note_id = u, note_content = content,
                             note_createdAt = clock w2, note_updatedAt = clock w2\<rparr>
                in (note, saveDayData date (dayData\<lparr>day_notes := day_notes dayData @ [note]\<rparr>) w2))))"

text \<open>\<open>find\<close> returns the first entry with the id; the assignment changes that entry.\<close>

fun updateFirst :: "('a \<Rightarrow> bool) \<Rightarrow> ('a \<Rightarrow> 'a) \<Rightarrow> 'a list \<Rightarrow> 'a list" where
  "updateFirst p f [] = []"
| "updateFirst p f (x # xs) = (if p x then f x # xs else x # updateFirst p f xs)"

definition updateNote :: "string \<Rightarrow> string \<Rightarrow> string \<Rightarrow> world \<Rightarrow> world" where
  "updateNote date noteId content w =
     (case getDayData date w of
        (None, w1) \<Rightarrow> w1
      | (Some dayData, w1) \<Rightarrow>
          (case find (\<lambda>n. note_id n = noteId) (day_notes dayData) of
             None \<Rightarrow> w1
           | Some note \<Rightarrow>
               saveDayData date
                 (dayData\<lparr>day_notes := updateFirst (\<lambda>n. note_id n = noteId)
                    (\<lambda>n. n\<lparr>note_content := content, note_updatedAt := clock w1\<rparr>) (day_notes dayData)\<rparr>)
                 w1))"

definition deleteNote :: "string \<Rightarrow> string \<Rightarrow> world \<Rightarrow> world" where
  "deleteNote date noteId w =
     (case getDayData date w of
        (None, w1) \<Rightarrow> w1
      | (Some dayData, w1) \<Rightarrow>
          saveDayData date (dayData\<lparr>day_notes := filter (\<lambda>n. note_id n \<noteq> noteId) (day_notes dayData)\<rparr>) w1)"

definition maxOrder :: "ChecklistItem list \<Rightarrow> int" where
  "maxOrder items = (if items = [] then - 1 else Max (set (map item_order items)))"

definition addChecklistItem :: "string \<Rightarrow> string \<Rightarrow> world \<Rightarrow> ChecklistItem \<times> world" where
  "addChecklistItem date txt w =
     (case getOrCreate date w of
        (dayData, w1) \<Rightarrow>
          (case randomUUID w1 of
             (u, w2) \<Rightarrow>
               (let item = \<lparr>item_id = u, item_text = txt, item_completed = False,
                             item_order = maxOrder (day_checklist dayData) + 1,
                             item_createdAt = clock w2, item_updatedAt = clock w2,
                             item_originalDate = Some date\<rparr>
                in (item,
                    saveDayData date
                      (dayData\<lparr>day_checklist := sortChecklist (day_checklist dayData @ [item])\<rparr>) w2))))"

text \<open>The \<open>updates\<close> argument of \<open>updateChecklistItem\<close>: each of \<open>text\<close> and
  \<open>completed\<close> is given or not.\<close>

record ItemUpdates =
  upd_text :: "string option"
  upd_completed :: "bool option"

definition assignUpdates :: "ItemUpdates \<Rightarrow> ChecklistItem \<Rightarrow> ChecklistItem" where
  "assignUpdates u item =
     item\<lparr>item_text := (case upd_text u of None \<Rightarrow> item_text item | Some t \<Rightarrow> t),
          item_completed := (case upd_completed u of None \<Rightarrow> item_completed item | Some b \<Rightarrow> b)\<rparr>"

definition updateChecklistItem :: "string \<Rightarrow> string \<Rightarrow> ItemUpdates \<Rightarrow> world \<Rightarrow> world" where
  "updateChecklistItem date itemId updates w =
     (case getDayData date w of
        (None, w1) \<Rightarrow> w1
      | (Some dayData, w1) \<Rightarrow>
          (case find (\<lambda>i. item_id i = itemId) (day_checklist dayData) of
             None \<Rightarrow> w1
           | Some item \<Rightarrow>
               saveDayData date
                 (dayData\<lparr>day_checklist := updateFirst (\<lambda>i. item_id i = itemId)
                    (\<lambda>i. (assignUpdates updates i)\<lparr>item_updatedAt := clock w1\<rparr>) (day_checklist dayData)\<rparr>)
                 w1))"

text \<open>
  \<open>new Map(checklist.map(item => [item.id, item]))\<close>: of two items with one id the later
  one stays. \<open>forEach\<close> then writes the index into the item object it finds, so an id
  listed twice ends with its last index in both places.
\<close>

definition itemMap :: "ChecklistItem list \<Rightarrow> string \<rightharpoonup> ChecklistItem" where
  "itemMap items = map_of (rev (map (\<lambda>i. (item_id i, i)) items))"

fun finalIndex :: "string \<Rightarrow> string list \<Rightarrow> nat \<Rightarrow> nat \<Rightarrow> nat" where
  "finalIndex x [] k cur = cur"
| "finalIndex x (y # ys) k cur = finalIndex x ys (Suc k) (if y = x then k else cur)"

fun reorderLoop :: "(string \<rightharpoonup> ChecklistItem) \<Rightarrow> int \<Rightarrow> string list \<Rightarrow> nat \<Rightarrow> ChecklistItem list" where
  "reorderLoop m t [] index = []"
| "reorderLoop m t (x # xs) index =
     (case m x of
        None \<Rightarrow> reorderLoop m t xs (Suc index)
      | Some item \<Rightarrow>
          item\<lparr>item_order := int (finalIndex x xs (Suc index) index), item_updatedAt := t\<rparr>
            # reorderLoop m t xs (Suc index))"

definition reorderChecklistItems :: "string \<Rightarrow> string list \<Rightarrow> world \<Rightarrow> world" where
  "reorderChecklistItems date itemIds w =
     (case getDayData date w of
        (None, w1) \<Rightarrow> w1
      | (Some dayData, w1) \<Rightarrow>
          saveDayData date
            (dayData\<lparr>day_checklist := reorderLoop (itemMap (day_checklist dayData)) (clock w1) itemIds 0\<rparr>) w1)"

definition deleteChecklistItem :: "string \<Rightarrow> string \<Rightarrow> world \<Rightarrow> world" where
  "deleteChecklistItem date itemId w =
     (case getDayData date w of
        (None, w1) \<Rightarrow> w1
      | (Some dayData, w1) \<Rightarrow>
          saveDayData date
            (dayData\<lparr>day_checklist := filter (\<lambda>i. item_id i \<noteq> itemId) (day_checklist dayData)\<rparr>) w1)"


section \<open>Thrown values (lib/undoRedo.ts)\<close>

text \<open>
  What a \<open>throw\<close> can carry: the three error classes of undoRedo.ts (the message given
  to the constructor, and the cause), any other \<open>Error\<close> (\<open>JsError\<close>: a TypeError, a
  RangeError, a failed request), and a thrown value that is no \<open>Error\<close> at all.
\<close>

datatype exn =
    UndoRedoError string
  | PersistenceError string exn
  | CommandExecutionError string exn
  | JsError string
  | NonError string

fun instanceofError :: "exn \<Rightarrow> bool" where
  "instanceofError (NonError _) = False"
| "instanceofError _ = True"

text \<open>\<open>error.message\<close>; the classes prefix the message they are given. It is read only
  where \<open>error instanceof Error\<close> holds.\<close>

fun message :: "exn \<Rightarrow> string" where
  "message (UndoRedoError m) = m"
| "message (PersistenceError m _) = ''Persistence failed: '' @ m"
| "message (CommandExecutionError m _) = ''Command execution failed: '' @ m"
| "message (JsError m) = m"
| "message (NonError m) = []"

section \<open>The command catalog (lib/commands.ts)\<close>

text \<open>
  \<open>BaseCommand\<close>: id, date key and timestamp; \<open>None\<close> is an Invalid Date, whose
  \<open>getTime()\<close> is NaN. The \<open>type\<close> field is the constant each class passes to the base
  constructor. The optional callbacks into the user interface are left out, as they are
  after \<open>fromSerialized\<close>.
\<close>

record Base =
  base_id :: string
  base_dateKey :: string
  base_timestamp :: "int option"

datatype command =
    AddNoteCommand Base "string option" string
  | EditNoteCommand Base string string string
  | DeleteNoteCommand Base string "Note option"
  | AddChecklistItemCommand Base "string option" string
  | EditChecklistItemCommand Base string string string
  | ToggleChecklistItemCommand Base string
  | DeleteChecklistItemCommand Base string "ChecklistItem option"
  | ReorderChecklistCommand Base "string list" "string list"
  | BatchCommand Base "command list" string

text \<open>
  The fields after the base are, in the order written: \<open>noteId content\<close> (add-note),
  \<open>noteId oldContent newContent\<close> (edit-note), \<open>noteId deletedNote\<close> (delete-note),
  \<open>itemId text\<close> (add-checklist-item), \<open>itemId oldText newText\<close> (edit-checklist-item),
  \<open>itemId\<close> (toggle-checklist-item), \<open>itemId deletedItem\<close> (delete-checklist-item),
  \<open>newOrder oldOrder\<close> (reorder-checklist), \<open>commands description\<close> (batch).
\<close>

fun command_base :: "command \<Rightarrow> Base" where
  "command_base (AddNoteCommand b _ _) = b"
| "command_base (EditNoteCommand b _ _ _) = b"
| "command_base (DeleteNoteCommand b _ _) = b"
| "command_base (AddChecklistItemCommand b _ _) = b"
| "command_base (EditChecklistItemCommand b _ _ _) = b"
| "command_base (ToggleChecklistItemCommand b _) = b"
| "command_base (DeleteChecklistItemCommand b _ _) = b"
| "command_base (ReorderChecklistCommand b _ _) = b"
| "command_base (BatchCommand b _ _) = b"

fun command_type :: "command \<Rightarrow> string" where
  "command_type (AddNoteCommand _ _ _) = ''add-note''"
| "command_type (EditNoteCommand _ _ _ _) = ''edit-note''"
| "command_type (DeleteNoteCommand _ _ _) = ''delete-note''"
| "command_type (AddChecklistItemCommand _ _ _) = ''add-checklist-item''"
| "command_type (EditChecklistItemCommand _ _ _ _) = ''edit-checklist-item''"
| "command_type (ToggleChecklistItemCommand _ _) = ''toggle-checklist-item''"
| "command_type (DeleteChecklistItemCommand _ _ _) = ''delete-checklist-item''"
| "command_type (ReorderChecklistCommand _ _ _) = ''reorder-checklist''"
| "command_type (BatchCommand _ _ _) = ''batch''"

definition findNote :: "string \<Rightarrow> DayData option \<Rightarrow> Note option" where
  "findNote noteId dayData =
     (case dayData of None \<Rightarrow> None | Some d \<Rightarrow> find (\<lambda>n. note_id n = noteId) (day_notes d))"

definition findItem :: "string \<Rightarrow> DayData option \<Rightarrow> ChecklistItem option" where
  "findItem itemId dayData =
     (case dayData of None \<Rightarrow> None | Some d \<Rightarrow> find (\<lambda>i. item_id i = itemId) (day_checklist d))"

definition toggleItem :: "string \<Rightarrow> string \<Rightarrow> world \<Rightarrow> world" where
  "toggleItem date itemId w =
     (case getDayData date w of
        (dayData, w1) \<Rightarrow>
          (case findItem itemId dayData of
             None \<Rightarrow> w1
           | Some item \<Rightarrow>
               updateChecklistItem date itemId
                 \<lparr>upd_text = None, upd_completed = Some (\<not> item_completed item)\<rparr> w1))"

text \<open>\<open>execute()\<close>: the command after the call (add, delete and reorder commands store
  what they captured in themselves) and the world after it. No call into db.ts throws:
  it catches every failure of IndexedDB itself.\<close>

fun command_execute :: "command \<Rightarrow> world \<Rightarrow> command \<times> world"
  and executeEach :: "command list \<Rightarrow> world \<Rightarrow> command list \<times> world" where
  "command_execute (AddNoteCommand b noteId content) w =
     (case addNote (base_dateKey b) content w of
        (note, w1) \<Rightarrow> (AddNoteCommand b (Some (note_id note)) content, w1))"
| "command_execute (EditNoteCommand b noteId oldContent newContent) w =
     (EditNoteCommand b noteId oldContent newContent, updateNote (base_dateKey b) noteId newContent w)"
| "command_execute (DeleteNoteCommand b noteId deletedNote) w =
     (case getDayData (base_dateKey b) w of
        (dayData, w1) \<Rightarrow>
          (DeleteNoteCommand b noteId (findNote noteId dayData), deleteNote (base_dateKey b) noteId w1))"
| "command_execute (AddChecklistItemCommand b itemId txt) w =
     (case addChecklistItem (base_dateKey b) txt w of
        (item, w1) \<Rightarrow> (AddChecklistItemCommand b (Some (item_id item)) txt, w1))"
| "command_execute (EditChecklistItemCommand b itemId oldText newText) w =
     (EditChecklistItemCommand b itemId oldText newText,
      updateChecklistItem (base_dateKey b) itemId \<lparr>upd_text = Some newText, upd_completed = None\<rparr> w)"
| "command_execute (ToggleChecklistItemCommand b itemId) w =
     (ToggleChecklistItemCommand b itemId, toggleItem (base_dateKey b) itemId w)"
| "command_execute (DeleteChecklistItemCommand b itemId deletedItem) w =
     (case getDayData (base_dateKey b) w of
        (dayData, w1) \<Rightarrow>
          (DeleteChecklistItemCommand b itemId (findItem itemId dayData),
           deleteChecklistItem (base_dateKey b) itemId w1))"
| "command_execute (ReorderChecklistCommand b newOrder oldOrder) w =
     (case getDayData (base_dateKey b) w of
        (dayData, w1) \<Rightarrow>
          (ReorderChecklistCommand b newOrder
             (case dayData of
                None \<Rightarrow> oldOrder
              | Some d \<Rightarrow> map item_id (sortChecklist (day_checklist d))),
           reorderChecklistItems (base_dateKey b) newOrder w1))"
| "command_execute (BatchCommand b commands description) w =
     (case executeEach commands w of
        (commands', w1) \<Rightarrow> (BatchCommand b commands' description, w1))"
| "executeEach [] w = ([], w)"
| "executeEach (c # cs) w =
     (case command_execute c w of
        (c', w1) \<Rightarrow> (case executeEach cs w1 of (cs', w2) \<Rightarrow> (c' # cs', w2)))"

text \<open>\<open>undo()\<close>: no command of the catalog changes itself here. \<open>if (this.noteId)\<close> is
  false for \<open>null\<close> and for the empty string. A batch undoes its commands last to
  first.\<close>

fun command_undo :: "command \<Rightarrow> world \<Rightarrow> world"
  and undoEach :: "command list \<Rightarrow> world \<Rightarrow> world" where
  "command_undo (AddNoteCommand b noteId content) w =
     (case noteId of
        None \<Rightarrow> w
      | Some n \<Rightarrow> if n = [] then w else deleteNote (base_dateKey b) n w)"
| "command_undo (EditNoteCommand b noteId oldContent newContent) w =
     updateNote (base_dateKey b) noteId oldContent w"
| "command_undo (DeleteNoteCommand b noteId deletedNote) w =
     (case deletedNote of
        None \<Rightarrow> w
      | Some n \<Rightarrow> snd (addNote (base_dateKey b) (note_content n) w))"
| "command_undo (AddChecklistItemCommand b itemId txt) w =
     (case itemId of
        None \<Rightarrow> w
      | Some i \<Rightarrow> if i = [] then w else deleteChecklistItem (base_dateKey b) i w)"
| "command_undo (EditChecklistItemCommand b itemId oldText newText) w =
     updateChecklistItem (base_dateKey b) itemId \<lparr>upd_text = Some oldText, upd_completed = None\<rparr> w"
| "command_undo (ToggleChecklistItemCommand b itemId) w = toggleItem (base_dateKey b) itemId w"
| "command_undo (DeleteChecklistItemCommand b itemId deletedItem) w =
     (case deletedItem of
        None \<Rightarrow> w
      | Some d \<Rightarrow>
          (case addChecklistItem (base_dateKey b) (item_text d) w of
             (item, w1) \<Rightarrow>
               if item_completed d then
                 updateChecklistItem (base_dateKey b) (item_id item)
                   \<lparr>upd_text = None, upd_completed = Some True\<rparr> w1
               else w1))"
| "command_undo (ReorderChecklistCommand b newOrder oldOrder) w =
     (if length oldOrder > 0 then reorderChecklistItems (base_dateKey b) oldOrder w else w)"
| "command_undo (BatchCommand b commands description) w = undoEach commands w"
| "undoEach [] w = w"
| "undoEach (c # cs) w = command_undo c (undoEach cs w)"

text \<open>\<open>(a.getTime() - b.getTime()) < limit\<close>, false when either side is NaN.\<close>

definition elapsedBelow :: "int option \<Rightarrow> int option \<Rightarrow> int \<Rightarrow> bool" where
  "elapsedBelow a b limit = (case a of None \<Rightarrow> False | Some x \<Rightarrow> (case b of None \<Rightarrow> False | Some y \<Rightarrow> x - y < limit))"

text \<open>
  \<open>this.merge(other)\<close>, first argument \<open>this\<close>. The merged command is built by the
  class constructor, which draws a new id; its timestamp is then set to \<open>other\<close>'s.
  \<open>BaseCommand.merge\<close> returns \<open>null\<close>.
\<close>

definition command_merge :: "command \<Rightarrow> command \<Rightarrow> world \<Rightarrow> command option \<times> world" where
  "command_merge this other w =
     (case this of
        EditNoteCommand b noteId oldContent newContent \<Rightarrow>
          (case other of
             EditNoteCommand ob onoteId ooldContent onewContent \<Rightarrow>
               if onoteId = noteId \<and> command_type other = command_type this
                  \<and> elapsedBelow (base_timestamp ob) (base_timestamp b) 2000
               then
                 (case randomUUID w of
                    (u, w1) \<Rightarrow>
                      (Some (EditNoteCommand
                               \<lparr>base_id = u, base_dateKey = base_dateKey b, base_timestamp = base_timestamp ob\<rparr>
                               noteId oldContent onewContent), w1))
               else (None, w)
           | _ \<Rightarrow> (None, w))
      | EditChecklistItemCommand b itemId oldText newText \<Rightarrow>
          (case other of
             EditChecklistItemCommand ob oitemId ooldText onewText \<Rightarrow>
               if oitemId = itemId \<and> command_type other = command_type this
                  \<and> elapsedBelow (base_timestamp ob) (base_timestamp b) 1500
               then
                 (case randomUUID w of
                    (u, w1) \<Rightarrow>
                      (Some (EditChecklistItemCommand
                               \<lparr>base_id = u, base_dateKey = base_dateKey b, base_timestamp = base_timestamp ob\<rparr>
                               itemId oldText onewText), w1))
               else (None, w)
           | _ \<Rightarrow> (None, w))
      | ReorderChecklistCommand b newOrder oldOrder \<Rightarrow>
          (case other of
             ReorderChecklistCommand ob onewOrder ooldOrder \<Rightarrow>
               if command_type other = command_type this
                  \<and> elapsedBelow (base_timestamp ob) (base_timestamp b) 500
               then
                 (case randomUUID w of
                    (u, w1) \<Rightarrow>
                      (Some (ReorderChecklistCommand
                               \<lparr>base_id = u, base_dateKey = base_dateKey b, base_timestamp = base_timestamp ob\<rparr>
                               onewOrder oldOrder), w1))
               else (None, w)
           | _ \<Rightarrow> (None, w))
      | _ \<Rightarrow> (None, w))"


text \<open>
  \<open>SerializableCommand\<close>. The \<open>type\<close> tag and the \<open>data\<close> object are one tagged payload:
  an entry carries the fields that the \<open>serialize()\<close> of its type writes, and
  \<open>OtherData t\<close> is an entry of a type \<open>t\<close> that is none of the nine. The timestamp is the
  instant its ISO string denotes, \<open>None\<close> when \<open>new Date(string)\<close> is an Invalid Date.
\<close>

datatype serial = Serial string string "int option" payload
  and payload =
    AddNoteData string "string option"
  | EditNoteData string string string
  | DeleteNoteData string "Note option"
  | AddChecklistItemData string "string option"
  | EditChecklistItemData string string string
  | ToggleChecklistItemData string
  | DeleteChecklistItemData string "ChecklistItem option"
  | ReorderChecklistData "string list" "string list"
  | BatchData "serial list" string
  | OtherData string

text \<open>\<open>timestamp.toISOString()\<close> throws a RangeError on an Invalid Date; the object
  literal evaluates it before \<open>data\<close>.\<close>

definition stamp :: "Base \<Rightarrow> exn + payload \<Rightarrow> exn + serial" where
  "stamp b d =
     (case base_timestamp b of
        None \<Rightarrow> Inl (JsError ''RangeError: Invalid time value'')
      | Some t \<Rightarrow>
          (case d of
             Inl e \<Rightarrow> Inl e
           | Inr p \<Rightarrow> Inr (Serial (base_id b) (base_dateKey b) (Some t) p)))"

fun command_serialize :: "command \<Rightarrow> exn + serial"
  and serializeEach :: "command list \<Rightarrow> exn + serial list" where
  "command_serialize (AddNoteCommand b noteId content) = stamp b (Inr (AddNoteData content noteId))"
| "command_serialize (EditNoteCommand b noteId oldContent newContent) =
     stamp b (Inr (EditNoteData noteId oldContent newContent))"
| "command_serialize (DeleteNoteCommand b noteId deletedNote) =
     stamp b (Inr (DeleteNoteData noteId deletedNote))"
| "command_serialize (AddChecklistItemCommand b itemId txt) =
     stamp b (Inr (AddChecklistItemData txt itemId))"
| "command_serialize (EditChecklistItemCommand b itemId oldText newText) =
     stamp b (Inr (EditChecklistItemData itemId oldText newText))"
| "command_serialize (ToggleChecklistItemCommand b itemId) = stamp b (Inr (ToggleChecklistItemData itemId))"
| "command_serialize (DeleteChecklistItemCommand b itemId deletedItem) =
     stamp b (Inr (DeleteChecklistItemData itemId deletedItem))"
| "command_serialize (ReorderChecklistCommand b newOrder oldOrder) =
     stamp b (Inr (ReorderChecklistData newOrder oldOrder))"
| "command_serialize (BatchCommand b commands description) =
     stamp b (case serializeEach commands of
                Inl e \<Rightarrow> Inl e
              | Inr ss \<Rightarrow> Inr (BatchData ss description))"
| "serializeEach [] = Inr []"
| "serializeEach (c # cs) =
     (case command_serialize c of
        Inl e \<Rightarrow> Inl e
      | Inr x \<Rightarrow> (case serializeEach cs of Inl e \<Rightarrow> Inl e | Inr xs \<Rightarrow> Inr (x # xs)))"

text \<open>\<open>deserializeCommand\<close>: the \<open>fromSerialized\<close> of the entry's type, \<open>null\<close> for an
  unknown type. A batch keeps the commands of its list that deserialize.\<close>

fun deserializeCommand :: "serial \<Rightarrow> command option"
  and deserializeEach :: "serial list \<Rightarrow> command list" where
  "deserializeCommand (Serial i d t (AddNoteData content noteId)) =
     Some (AddNoteCommand \<lparr>base_id = i, base_dateKey = d, base_timestamp = t\<rparr> noteId content)"
| "deserializeCommand (Serial i d t (EditNoteData noteId oldContent newContent)) =
     Some (EditNoteCommand \<lparr>base_id = i, base_dateKey = d, base_timestamp = t\<rparr> noteId oldContent newContent)"
| "deserializeCommand (Serial i d t (DeleteNoteData noteId deletedNote)) =
     Some (DeleteNoteCommand \<lparr>base_id = i, base_dateKey = d, base_timestamp = t\<rparr> noteId deletedNote)"
| "deserializeCommand (Serial i d t (AddChecklistItemData txt itemId)) =
     Some (AddChecklistItemCommand \<lparr>base_id = i, base_dateKey = d, base_timestamp = t\<rparr> itemId txt)"
| "deserializeCommand (Serial i d t (EditChecklistItemData itemId oldText newText)) =
     Some (EditChecklistItemCommand \<lparr>base_id = i, base_dateKey = d, base_timestamp = t\<rparr> itemId oldText newText)"
| "deserializeCommand (Serial i d t (ToggleChecklistItemData itemId)) =
     Some (ToggleChecklistItemCommand \<lparr>base_id = i, base_dateKey = d, base_timestamp = t\<rparr> itemId)"
| "deserializeCommand (Serial i d t (DeleteChecklistItemData itemId deletedItem)) =
     Some (DeleteChecklistItemCommand \<lparr>base_id = i, base_dateKey = d, base_timestamp = t\<rparr> itemId deletedItem)"
| "deserializeCommand (Serial i d t (ReorderChecklistData newOrder oldOrder)) =
     Some (ReorderChecklistCommand \<lparr>base_id = i, base_dateKey = d, base_timestamp = t\<rparr> newOrder oldOrder)"
| "deserializeCommand (Serial i d t (BatchData ss description)) =
     Some (BatchCommand \<lparr>base_id = i, base_dateKey = d, base_timestamp = t\<rparr> (deserializeEach ss) description)"
| "deserializeCommand (Serial i d t (OtherData ty)) = None"
| "deserializeEach [] = []"
| "deserializeEach (x # xs) =
     (case deserializeCommand x of
        None \<Rightarrow> deserializeEach xs
      | Some c \<Rightarrow> c # deserializeEach xs)"


section \<open>The history manager (lib/undoRedo.ts)\<close>

text \<open>
  The \<open>Command\<close> interface, for command objects of a type \<open>'c\<close> acting on a world
  \<open>'w\<close> and serialized as \<open>'s\<close>. A call of \<open>execute()\<close> or \<open>undo()\<close> returns or throws,
  and leaves the command object and the world as the triple says. \<open>timestamp.getTime()\<close>
  is \<open>None\<close> for NaN. \<open>merge\<close> is \<open>command.merge(other)\<close>, \<open>None\<close> for \<open>null\<close> (a command
  without the optional method is one that always answers so); \<open>serialize\<close> is
  \<open>cmd.serialize?.()\<close>, \<open>Inr None\<close> without the method. \<open>deserialize\<close> is the
  \<open>deserializeCommand\<close> the module imports.
\<close>

record ('c, 's, 'w) Command =
  i_type :: "'c \<Rightarrow> string"
  i_dateKey :: "'c \<Rightarrow> string"
  i_getTime :: "'c \<Rightarrow> int option"
  i_execute :: "'c \<Rightarrow> 'w \<Rightarrow> (exn + unit) \<times> 'c \<times> 'w"
  i_undo :: "'c \<Rightarrow> 'w \<Rightarrow> (exn + unit) \<times> 'c \<times> 'w"
  i_merge :: "'c \<Rightarrow> 'c \<Rightarrow> 'w \<Rightarrow> 'c option \<times> 'w"
  i_serialize :: "'c \<Rightarrow> exn + 's option"
  i_deserialize :: "'s \<Rightarrow> 'c option"

text \<open>The catalog as an implementation of the interface.\<close>

definition catalog :: "(command, serial, world) Command" where
  "catalog =
     \<lparr>i_type = command_type,
      i_dateKey = (\<lambda>c. base_dateKey (command_base c)),
      i_getTime = (\<lambda>c. base_timestamp (command_base c)),
      i_execute = (\<lambda>c w. case command_execute c w of (c', w') \<Rightarrow> (Inr (), c', w')),
      i_undo = (\<lambda>c w. (Inr (), c, command_undo c w)),
      i_merge = command_merge,
      i_serialize = (\<lambda>c. case command_serialize c of Inl e \<Rightarrow> Inl e | Inr x \<Rightarrow> Inr (Some x)),
      i_deserialize = deserializeCommand\<rparr>"

record 's HistoryState =
  h_undoStack :: "'s list"
  h_redoStack :: "'s list"
  h_dateKey :: string
  h_maxHistorySize :: int
  h_lastModified :: int

record UndoRedoConfig =
  cfg_maxHistorySize :: int
  enablePersistence :: bool
  mergeTimeWindow :: int
  enableOptimisticUpdates :: bool

definition defaultConfig :: UndoRedoConfig where
  "defaultConfig =
     \<lparr>cfg_maxHistorySize = 100, enablePersistence = True, mergeTimeWindow = 1000,
      enableOptimisticUpdates = True\<rparr>"

text \<open>
  The module state (\<open>historyDbInstance\<close>, \<open>isHistoryDBAvailable\<close>,
  \<open>fallbackHistoryStorage\<close>) and the durable database it talks to: the contents of its
  \<open>history\<close> object store, whether \<open>openDB\<close>, \<open>get\<close> and \<open>put\<close> succeed, how many such
  requests were issued so far, and the clock read for \<open>lastModified\<close>.
\<close>

record 's HistoryStore =
  historyDbInstance :: bool
  isHistoryDBAvailable :: bool
  fallbackHistoryStorage :: "string \<rightharpoonup> 's HistoryState"
  durableHistory :: "string \<rightharpoonup> 's HistoryState"
  durableOpens :: bool
  durableGets :: bool
  durablePuts :: bool
  durableRequests :: nat
  historyClock :: int

text \<open>
  A manager instance. A stack is the array, oldest entry first; a slot holds a command
  or \<open>undefined\<close> (\<open>None\<close>), which \<open>push(pop()!)\<close> on an empty array puts there. The
  listeners only observe: \<open>notified\<close> counts the calls of \<open>notifyListeners\<close>.
\<close>

record 'c HistoryManager =
  undoStack :: "'c option list"
  redoStack :: "'c option list"
  currentDateKey :: string
  maxHistorySize :: int
  isExecuting :: bool
  notified :: nat

record ('c, 's, 'w) Session =
  manager :: "'c HistoryManager"
  store :: "'s HistoryStore"
  env :: 'w

definition initHistoryDB :: "'s HistoryStore \<Rightarrow> 's HistoryStore" where
  "initHistoryDB h =
     (let h1 = h\<lparr>durableRequests := Suc (durableRequests h)\<rparr> in
      if durableOpens h1 then h1\<lparr>historyDbInstance := True\<rparr>
      else h1\<lparr>isHistoryDBAvailable := False\<rparr>)"

definition getPersistedHistory :: "string \<Rightarrow> 's HistoryStore \<Rightarrow> 's HistoryState option \<times> 's HistoryStore" where
  "getPersistedHistory dateKey h =
     (if \<not> isHistoryDBAvailable h then (fallbackHistoryStorage h dateKey, h)
      else
        (let h1 = (if \<not> historyDbInstance h then initHistoryDB h else h) in
         if \<not> historyDbInstance h1 then (None, h1)
         else
           (let h2 = h1\<lparr>durableRequests := Suc (durableRequests h1)\<rparr> in
            if durableGets h2 then (durableHistory h2 dateKey, h2)
            else (fallbackHistoryStorage h2 dateKey, h2))))"

text \<open>\<open>stack.map(cmd => cmd.serialize?.()).filter(Boolean)\<close>: reading \<open>serialize\<close> off an
  \<open>undefined\<close> slot is a TypeError.\<close>

fun serializeStack :: "('c \<Rightarrow> exn + 's option) \<Rightarrow> 'c option list \<Rightarrow> exn + 's list" where
  "serializeStack ser [] = Inr []"
| "serializeStack ser (None # cs) = Inl (JsError ''TypeError: cmd is undefined'')"
| "serializeStack ser (Some c # cs) =
     (case ser c of
        Inl e \<Rightarrow> Inl e
      | Inr x \<Rightarrow>
          (case serializeStack ser cs of
             Inl e \<Rightarrow> Inl e
           | Inr xs \<Rightarrow> Inr (case x of None \<Rightarrow> xs | Some y \<Rightarrow> y # xs)))"

definition historyState ::
  "('c, 's, 'w) Command \<Rightarrow> 'c HistoryManager \<Rightarrow> 's HistoryStore \<Rightarrow> exn + 's HistoryState" where
  "historyState ops m h =
     (case serializeStack (i_serialize ops) (undoStack m) of
        Inl e \<Rightarrow> Inl e
      | Inr us \<Rightarrow>
          (case serializeStack (i_serialize ops) (redoStack m) of
             Inl e \<Rightarrow> Inl e
           | Inr rs \<Rightarrow>
               Inr \<lparr>h_undoStack = us, h_redoStack = rs, h_dateKey = currentDateKey m,
                    h_maxHistorySize = maxHistorySize m, h_lastModified = historyClock h\<rparr>))"

text \<open>The \<open>try\<close> block of \<open>saveHistory\<close>.\<close>

definition saveAttempt ::
  "('c, 's, 'w) Command \<Rightarrow> 'c HistoryManager \<Rightarrow> 's HistoryStore \<Rightarrow> (exn + unit) \<times> 's HistoryStore" where
  "saveAttempt ops m h =
     (case historyState ops m h of
        Inl e \<Rightarrow> (Inl e, h)
      | Inr st \<Rightarrow>
          if \<not> isHistoryDBAvailable h then
            (Inr (), h\<lparr>fallbackHistoryStorage := (fallbackHistoryStorage h)(currentDateKey m \<mapsto> st)\<rparr>)
          else
            (let h1 = (if \<not> historyDbInstance h then initHistoryDB h else h) in
             if historyDbInstance h1 then
               (let h2 = h1\<lparr>durableRequests := Suc (durableRequests h1)\<rparr> in
                if durablePuts h2 then
                  (Inr (), h2\<lparr>durableHistory := (durableHistory h2)(currentDateKey m \<mapsto> st)\<rparr>)
                else (Inl (JsError ''put failed''), h2))
             else (Inr (), h1)))"

definition saveHistory ::
  "('c, 's, 'w) Command \<Rightarrow> UndoRedoConfig \<Rightarrow> 'c HistoryManager \<Rightarrow> 's HistoryStore
     \<Rightarrow> (exn + unit) \<times> 's HistoryStore" where
  "saveHistory ops cfg m h =
     (if \<not> enablePersistence cfg then (Inr (), h)
      else
        (case saveAttempt ops m h of
           (Inr u, h1) \<Rightarrow> (Inr (), h1)
         | (Inl e, h1) \<Rightarrow>
             (case historyState ops m h1 of
                Inl e2 \<Rightarrow> (Inl e2, h1)
              | Inr st \<Rightarrow>
                  (Inr (), h1\<lparr>fallbackHistoryStorage :=
                                (fallbackHistoryStorage h1)(currentDateKey m \<mapsto> st)\<rparr>))))"

text \<open>\<open>stack.map(cmdData => deserializeCommand(cmdData)).filter(Boolean)\<close>.\<close>

definition deserializeStack :: "('s \<Rightarrow> 'c option) \<Rightarrow> 's list \<Rightarrow> 'c option list" where
  "deserializeStack de xs = map Some (List.map_filter de xs)"

definition loadHistory ::
  "('c, 's, 'w) Command \<Rightarrow> UndoRedoConfig \<Rightarrow> ('c, 's, 'w) Session \<Rightarrow> ('c, 's, 'w) Session" where
  "loadHistory ops cfg S =
     (if \<not> enablePersistence cfg then S\<lparr>manager := (manager S)\<lparr>undoStack := [], redoStack := []\<rparr>\<rparr>
      else
        (case getPersistedHistory (currentDateKey (manager S)) (store S) of
           (Some savedState, h1) \<Rightarrow>
             S\<lparr>manager := (manager S)\<lparr>undoStack := deserializeStack (i_deserialize ops) (h_undoStack savedState),
                                      redoStack := deserializeStack (i_deserialize ops) (h_redoStack savedState)\<rparr>,
               store := h1\<rparr>
         | (None, h1) \<Rightarrow>
             S\<lparr>manager := (manager S)\<lparr>undoStack := [], redoStack := []\<rparr>, store := h1\<rparr>))"

text \<open>\<open>new HistoryManager(dateKey, maxHistorySize)\<close>, with the load it starts taken to
  its end.\<close>

definition newHistoryManager ::
  "('c, 's, 'w) Command \<Rightarrow> UndoRedoConfig \<Rightarrow> string \<Rightarrow> int \<Rightarrow> 's HistoryStore \<Rightarrow> 'w \<Rightarrow> ('c, 's, 'w) Session" where
  "newHistoryManager ops cfg dateKey maxSize h w =
     loadHistory ops cfg
       \<lparr>manager = \<lparr>undoStack = [], redoStack = [], currentDateKey = dateKey, maxHistorySize = maxSize,
                   isExecuting = False, notified = 0\<rparr>,
        store = h, env = w\<rparr>"

definition notifyListeners :: "'c HistoryManager \<Rightarrow> 'c HistoryManager" where
  "notifyListeners m = m\<lparr>notified := Suc (notified m)\<rparr>"

text \<open>\<open>stack[stack.length - 1]\<close>, and the assignment to that slot.\<close>

definition lastSlot :: "'a option list \<Rightarrow> 'a option" where
  "lastSlot st = (if st = [] then None else last st)"

definition replaceTop :: "'a option list \<Rightarrow> 'a option \<Rightarrow> 'a option list" where
  "replaceTop st x = (if st = [] then [] else butlast st @ [x])"

text \<open>A method call on the object in a slot; on \<open>undefined\<close> it is a TypeError. The
  object stays where it is and changes as the method changes it.\<close>

definition invoke ::
  "('c \<Rightarrow> 'w \<Rightarrow> (exn + unit) \<times> 'c \<times> 'w) \<Rightarrow> 'c option \<Rightarrow> 'w \<Rightarrow> (exn + unit) \<times> 'c option \<times> 'w" where
  "invoke f slot w =
     (case slot of
        None \<Rightarrow> (Inl (JsError ''TypeError: command is undefined''), None, w)
      | Some c \<Rightarrow> (case f c w of (r, c', w') \<Rightarrow> (r, Some c', w')))"

definition canMergeCommands :: "('c, 's, 'w) Command \<Rightarrow> UndoRedoConfig \<Rightarrow> 'c \<Rightarrow> 'c \<Rightarrow> bool" where
  "canMergeCommands ops cfg lst current =
     (i_type ops lst = i_type ops current \<and> i_dateKey ops lst = i_dateKey ops current
      \<and> elapsedBelow (i_getTime ops current) (i_getTime ops lst) (mergeTimeWindow cfg))"

text \<open>\<open>push\<close>, \<open>redoStack = []\<close>, and the one \<open>shift()\<close> when the array is longer than
  \<open>maxHistorySize\<close>.\<close>

definition pushTrimmed :: "int \<Rightarrow> 'a list \<Rightarrow> 'a \<Rightarrow> 'a list" where
  "pushTrimmed maxSize st x = (if int (length (st @ [x])) > maxSize then tl (st @ [x]) else st @ [x])"

text \<open>
  The body of \<open>executeCommand\<close>'s \<open>try\<close>, in its two branches. Each returns what the
  body returned or threw, the value of \<open>optimisticUpdateApplied\<close> at that moment, and
  the session.
\<close>

definition mergeBranch ::
  "('c, 's, 'w) Command \<Rightarrow> UndoRedoConfig \<Rightarrow> 'c \<Rightarrow> ('c, 's, 'w) Session
     \<Rightarrow> (exn + unit) \<times> bool \<times> ('c, 's, 'w) Session" where
  "mergeBranch ops cfg mergedCommand S =
     (case i_execute ops mergedCommand (env S) of
        (r, c1, w1) \<Rightarrow>
          (let m1 = (manager S)\<lparr>undoStack := replaceTop (undoStack (manager S)) (Some c1)\<rparr> in
           if enableOptimisticUpdates cfg then
             (case r of
                Inl e \<Rightarrow> (Inl e, False, S\<lparr>env := w1\<rparr>)
              | Inr u \<Rightarrow>
                  (case saveHistory ops cfg m1 (store S) of
                     (Inl e, h1) \<Rightarrow> (Inl e, True, \<lparr>manager = m1, store = h1, env = w1\<rparr>)
                   | (Inr u', h1) \<Rightarrow>
                       (Inr (), True, \<lparr>manager = notifyListeners m1, store = h1, env = w1\<rparr>)))
           else
             (case r of
                Inl e \<Rightarrow> (Inl e, False, \<lparr>manager = m1, store = store S, env = w1\<rparr>)
              | Inr u \<Rightarrow>
                  (case saveHistory ops cfg m1 (store S) of
                     (Inl e, h1) \<Rightarrow> (Inl e, False, \<lparr>manager = m1, store = h1, env = w1\<rparr>)
                   | (Inr u', h1) \<Rightarrow>
                       (Inr (), False, \<lparr>manager = notifyListeners m1, store = h1, env = w1\<rparr>)))))"

definition pushBranch ::
  "('c, 's, 'w) Command \<Rightarrow> UndoRedoConfig \<Rightarrow> 'c \<Rightarrow> ('c, 's, 'w) Session
     \<Rightarrow> (exn + unit) \<times> bool \<times> ('c, 's, 'w) Session" where
  "pushBranch ops cfg command S =
     (case i_execute ops command (env S) of
        (r, c1, w1) \<Rightarrow>
          (let m = manager S;
               m1 = m\<lparr>undoStack := pushTrimmed (maxHistorySize m) (undoStack m) (Some c1), redoStack := []\<rparr>
           in
           if enableOptimisticUpdates cfg then
             (case r of
                Inl e \<Rightarrow> (Inl e, False, S\<lparr>env := w1\<rparr>)
              | Inr u \<Rightarrow>
                  (case saveHistory ops cfg m1 (store S) of
                     (Inr u', h1) \<Rightarrow>
                       (Inr (), True, \<lparr>manager = notifyListeners m1, store = h1, env = w1\<rparr>)
                   | (Inl persistError, h1) \<Rightarrow>
                       (case i_undo ops c1 w1 of
                          (Inr u', c2, w2) \<Rightarrow>
                            (Inl (PersistenceError ''Failed to persist command'' persistError), True,
                             \<lparr>manager = notifyListeners (m1\<lparr>undoStack := butlast (undoStack m1)\<rparr>),
                              store = h1, env = w2\<rparr>)
                        | (Inl rollbackError, c2, w2) \<Rightarrow>
                            (Inl (PersistenceError ''Failed to persist command'' persistError), True,
                             \<lparr>manager = m1\<lparr>undoStack := replaceTop (undoStack m1) (Some c2)\<rparr>,
                              store = h1, env = w2\<rparr>))))
           else
             (case r of
                Inl e \<Rightarrow> (Inl e, False, \<lparr>manager = m1, store = store S, env = w1\<rparr>)
              | Inr u \<Rightarrow>
                  (case saveHistory ops cfg m1 (store S) of
                     (Inr u', h1) \<Rightarrow>
                       (Inr (), False, \<lparr>manager = notifyListeners m1, store = h1, env = w1\<rparr>)
                   | (Inl persistError, h1) \<Rightarrow>
                       (Inl (PersistenceError ''Failed to persist command'' persistError), False,
                        \<lparr>manager = m1, store = h1, env = w1\<rparr>)))))"

text \<open>
  The merge attempt at the head of the \<open>try\<close>: \<open>command.merge(lastCommand)\<close> when the
  undo stack has a last command that \<open>canMergeCommands\<close> accepts, no merged command
  otherwise; with it the world after the attempt.
\<close>

definition mergeAttempt ::
  "('c, 's, 'w) Command \<Rightarrow> UndoRedoConfig \<Rightarrow> 'c \<Rightarrow> ('c, 's, 'w) Session \<Rightarrow> 'c option \<times> 'w" where
  "mergeAttempt ops cfg command S =
     (case lastSlot (undoStack (manager S)) of
        None \<Rightarrow> (None, env S)
      | Some lastCommand \<Rightarrow>
          if canMergeCommands ops cfg lastCommand command
          then i_merge ops command lastCommand (env S)
          else (None, env S))"

definition executeBody ::
  "('c, 's, 'w) Command \<Rightarrow> UndoRedoConfig \<Rightarrow> 'c \<Rightarrow> ('c, 's, 'w) Session
     \<Rightarrow> (exn + unit) \<times> bool \<times> ('c, 's, 'w) Session" where
  "executeBody ops cfg command S =
     (case mergeAttempt ops cfg command S of
        (Some mergedCommand, w1) \<Rightarrow> mergeBranch ops cfg mergedCommand (S\<lparr>env := w1\<rparr>)
      | (None, w1) \<Rightarrow> pushBranch ops cfg command (S\<lparr>env := w1\<rparr>))"

text \<open>\<open>executeCommand\<close>: the guard, the \<open>try\<close> body, the outer \<open>catch\<close> (which wraps an
  \<open>Error\<close> thrown before \<open>optimisticUpdateApplied\<close> was set) and \<open>finally\<close>.\<close>

definition executeCommand ::
  "('c, 's, 'w) Command \<Rightarrow> UndoRedoConfig \<Rightarrow> 'c \<Rightarrow> ('c, 's, 'w) Session
     \<Rightarrow> (exn + unit) \<times> ('c, 's, 'w) Session" where
  "executeCommand ops cfg command S =
     (if isExecuting (manager S) then
        (Inl (UndoRedoError ''Cannot execute command while another command is executing''), S)
      else
        (case executeBody ops cfg command (S\<lparr>manager := (manager S)\<lparr>isExecuting := True\<rparr>\<rparr>) of
           (r, optimisticUpdateApplied, S1) \<Rightarrow>
             ((case r of
                 Inr u \<Rightarrow> Inr ()
               | Inl e \<Rightarrow>
                   if \<not> optimisticUpdateApplied \<and> instanceofError e
                   then Inl (CommandExecutionError (message e) e)
                   else Inl e),
              S1\<lparr>manager := (manager S1)\<lparr>isExecuting := False\<rparr>\<rparr>)))"


text \<open>
  The body of \<open>undo()\<close>'s \<open>try\<close> with its \<open>catch\<close>: \<open>command\<close> is the popped slot.
  When \<open>command.undo()\<close> throws before \<open>optimisticUndoApplied\<close> is set, the \<open>catch\<close>
  pushes \<open>redoStack.pop()\<close> onto the undo stack, whatever the redo stack holds. When
  \<open>saveHistory\<close> throws, the inner \<open>catch\<close> re-executes the command and moves it back,
  and the \<open>PersistenceError\<close> it throws is caught by the outer \<open>catch\<close>.
\<close>

definition undoBody ::
  "('c, 's, 'w) Command \<Rightarrow> UndoRedoConfig \<Rightarrow> ('c, 's, 'w) Session \<Rightarrow> (exn + bool) \<times> ('c, 's, 'w) Session" where
  "undoBody ops cfg S =
     (let m = manager S;
          command = lastSlot (undoStack m);
          m0 = m\<lparr>undoStack := butlast (undoStack m)\<rparr>
      in
      case invoke (i_undo ops) command (env S) of
        (r, command1, w1) \<Rightarrow>
          if enableOptimisticUpdates cfg then
            (case r of
               Inl e \<Rightarrow>
                 (Inl (CommandExecutionError ''Undo failed'' e),
                  \<lparr>manager = m0\<lparr>undoStack := undoStack m0 @ [lastSlot (redoStack m0)],
                                 redoStack := butlast (redoStack m0)\<rparr>,
                   store = store S, env = w1\<rparr>)
             | Inr u \<Rightarrow>
                 (let m1 = m0\<lparr>redoStack := redoStack m0 @ [command1]\<rparr> in
                  case saveHistory ops cfg m1 (store S) of
                    (Inr u', h1) \<Rightarrow> (Inr True, \<lparr>manager = notifyListeners m1, store = h1, env = w1\<rparr>)
                  | (Inl persistError, h1) \<Rightarrow>
                      (case invoke (i_execute ops) command1 w1 of
                         (Inr u', command2, w2) \<Rightarrow>
                           (Inl (CommandExecutionError ''Undo failed''
                                   (PersistenceError ''Failed to persist undo'' persistError)),
                            \<lparr>manager = notifyListeners (m0\<lparr>undoStack := undoStack m0 @ [command2]\<rparr>),
                             store = h1, env = w2\<rparr>)
                       | (Inl rollbackError, command2, w2) \<Rightarrow>
                           (Inl (CommandExecutionError ''Undo failed''
                                   (PersistenceError ''Failed to persist undo'' persistError)),
                            \<lparr>manager = m0\<lparr>redoStack := redoStack m0 @ [command2]\<rparr>,
                             store = h1, env = w2\<rparr>))))
          else
            (case r of
               Inl e \<Rightarrow>
                 (Inl (CommandExecutionError ''Undo failed'' e),
                  \<lparr>manager = m0\<lparr>undoStack := undoStack m0 @ [command1]\<rparr>, store = store S, env = w1\<rparr>)
             | Inr u \<Rightarrow>
                 (let m1 = m0\<lparr>redoStack := redoStack m0 @ [command1]\<rparr> in
                  case saveHistory ops cfg m1 (store S) of
                    (Inr u', h1) \<Rightarrow> (Inr True, \<lparr>manager = notifyListeners m1, store = h1, env = w1\<rparr>)
                  | (Inl persistError, h1) \<Rightarrow>
                      (Inl (CommandExecutionError ''Undo failed''
                              (PersistenceError ''Failed to persist undo'' persistError)),
                       \<lparr>manager = m0\<lparr>undoStack := undoStack m0 @ [command1]\<rparr>, store = h1, env = w1\<rparr>))))"

definition undo ::
  "('c, 's, 'w) Command \<Rightarrow> UndoRedoConfig \<Rightarrow> ('c, 's, 'w) Session \<Rightarrow> (exn + bool) \<times> ('c, 's, 'w) Session" where
  "undo ops cfg S =
     (if length (undoStack (manager S)) = 0 \<or> isExecuting (manager S) then (Inr False, S)
      else
        (case undoBody ops cfg (S\<lparr>manager := (manager S)\<lparr>isExecuting := True\<rparr>\<rparr>) of
           (r, S1) \<Rightarrow> (r, S1\<lparr>manager := (manager S1)\<lparr>isExecuting := False\<rparr>\<rparr>)))"

text \<open>\<open>redo()\<close>, the same with the stacks and the two methods exchanged.\<close>

definition redoBody ::
  "('c, 's, 'w) Command \<Rightarrow> UndoRedoConfig \<Rightarrow> ('c, 's, 'w) Session \<Rightarrow> (exn + bool) \<times> ('c, 's, 'w) Session" where
  "redoBody ops cfg S =
     (let m = manager S;
          command = lastSlot (redoStack m);
          m0 = m\<lparr>redoStack := butlast (redoStack m)\<rparr>
      in
      case invoke (i_execute ops) command (env S) of
        (r, command1, w1) \<Rightarrow>
          if enableOptimisticUpdates cfg then
            (case r of
               Inl e \<Rightarrow>
                 (Inl (CommandExecutionError ''Redo failed'' e),
                  \<lparr>manager = m0\<lparr>redoStack := redoStack m0 @ [lastSlot (undoStack m0)],
                                 undoStack := butlast (undoStack m0)\<rparr>,
                   store = store S, env = w1\<rparr>)
             | Inr u \<Rightarrow>
                 (let m1 = m0\<lparr>undoStack := undoStack m0 @ [command1]\<rparr> in
                  case saveHistory ops cfg m1 (store S) of
                    (Inr u', h1) \<Rightarrow> (Inr True, \<lparr>manager = notifyListeners m1, store = h1, env = w1\<rparr>)
                  | (Inl persistError, h1) \<Rightarrow>
                      (case invoke (i_undo ops) command1 w1 of
                         (Inr u', command2, w2) \<Rightarrow>
                           (Inl (CommandExecutionError ''Redo failed''
                                   (PersistenceError ''Failed to persist redo'' persistError)),
                            \<lparr>manager = notifyListeners (m0\<lparr>redoStack := redoStack m0 @ [command2]\<rparr>),
                             store = h1, env = w2\<rparr>)
                       | (Inl rollbackError, command2, w2) \<Rightarrow>
                           (Inl (CommandExecutionError ''Redo failed''
                                   (PersistenceError ''Failed to persist redo'' persistError)),
                            \<lparr>manager = m0\<lparr>undoStack := undoStack m0 @ [command2]\<rparr>,
                             store = h1, env = w2\<rparr>))))
          else
            (case r of
               Inl e \<Rightarrow>
                 (Inl (CommandExecutionError ''Redo failed'' e),
                  \<lparr>manager = m0\<lparr>redoStack := redoStack m0 @ [command1]\<rparr>, store = store S, env = w1\<rparr>)
             | Inr u \<Rightarrow>
                 (let m1 = m0\<lparr>undoStack := undoStack m0 @ [command1]\<rparr> in
                  case saveHistory ops cfg m1 (store S) of
                    (Inr u', h1) \<Rightarrow> (Inr True, \<lparr>manager = notifyListeners m1, store = h1, env = w1\<rparr>)
                  | (Inl persistError, h1) \<Rightarrow>
                      (Inl (CommandExecutionError ''Redo failed''
                              (PersistenceError ''Failed to persist redo'' persistError)),
                       \<lparr>manager = m0\<lparr>redoStack := redoStack m0 @ [command1]\<rparr>, store = h1, env = w1\<rparr>))))"

definition redo ::
  "('c, 's, 'w) Command \<Rightarrow> UndoRedoConfig \<Rightarrow> ('c, 's, 'w) Session \<Rightarrow> (exn + bool) \<times> ('c, 's, 'w) Session" where
  "redo ops cfg S =
     (if length (redoStack (manager S)) = 0 \<or> isExecuting (manager S) then (Inr False, S)
      else
        (case redoBody ops cfg (S\<lparr>manager := (manager S)\<lparr>isExecuting := True\<rparr>\<rparr>) of
           (r, S1) \<Rightarrow> (r, S1\<lparr>manager := (manager S1)\<lparr>isExecuting := False\<rparr>\<rparr>)))"

definition canUndo :: "'c HistoryManager \<Rightarrow> bool" where
  "canUndo m = (length (undoStack m) > 0 \<and> \<not> isExecuting m)"

definition canRedo :: "'c HistoryManager \<Rightarrow> bool" where
  "canRedo m = (length (redoStack m) > 0 \<and> \<not> isExecuting m)"

definition getStackSizes :: "'c HistoryManager \<Rightarrow> nat \<times> nat" where
  "getStackSizes m = (length (undoStack m), length (redoStack m))"

text \<open>\<open>switchDate\<close> and \<open>clearHistory\<close> call \<open>saveHistory\<close> outside any \<open>try\<close>: what it
  throws leaves the method at that point.\<close>

definition switchDate ::
  "('c, 's, 'w) Command \<Rightarrow> UndoRedoConfig \<Rightarrow> string \<Rightarrow> ('c, 's, 'w) Session \<Rightarrow> (exn + unit) \<times> ('c, 's, 'w) Session" where
  "switchDate ops cfg dateKey S =
     (if currentDateKey (manager S) = dateKey then (Inr (), S)
      else
        (case saveHistory ops cfg (manager S) (store S) of
           (Inl e, h1) \<Rightarrow> (Inl e, S\<lparr>store := h1\<rparr>)
         | (Inr u, h1) \<Rightarrow>
             (let S1 = loadHistory ops cfg
                         (S\<lparr>manager := (manager S)\<lparr>undoStack := [], redoStack := [],
                                                   currentDateKey := dateKey\<rparr>,
                            store := h1\<rparr>)
              in (Inr (), S1\<lparr>manager := notifyListeners (manager S1)\<rparr>))))"

definition clearHistory ::
  "('c, 's, 'w) Command \<Rightarrow> UndoRedoConfig \<Rightarrow> ('c, 's, 'w) Session \<Rightarrow> (exn + unit) \<times> ('c, 's, 'w) Session" where
  "clearHistory ops cfg S =
     (let m1 = (manager S)\<lparr>undoStack := [], redoStack := []\<rparr> in
      case saveHistory ops cfg m1 (store S) of
        (Inl e, h1) \<Rightarrow> (Inl e, S\<lparr>manager := m1, store := h1\<rparr>)
      | (Inr u, h1) \<Rightarrow> (Inr (), S\<lparr>manager := notifyListeners m1, store := h1\<rparr>))"

section \<open>Observations, conditions and sample data\<close>

text \<open>
  The day store works: either IndexedDB is in use, open, and its \<open>get\<close> and \<open>put\<close>
  succeed, or the module has fallen back to the in-memory map. \<open>readDay\<close> is what
  \<open>getDayData\<close> returns for a date and \<open>afterRead\<close> the world it leaves.
\<close>

definition store_ok :: "world \<Rightarrow> bool" where
  "store_ok w = (if isIndexedDBAvailable w then dbInstance w \<and> idbGets w \<and> idbPuts w else True)"

definition readDay :: "world \<Rightarrow> string \<Rightarrow> DayData option" where
  "readDay w date = fst (getDayData date w)"

definition afterRead :: "string \<Rightarrow> world \<Rightarrow> world" where
  "afterRead date w = snd (getDayData date w)"

text \<open>
  The notes and the checklist of a date as \<open>getDayData\<close> returns them (none when there
  is no record).
\<close>

definition notesOf :: "world \<Rightarrow> string \<Rightarrow> Note list" where
  "notesOf w date = (case readDay w date of None \<Rightarrow> [] | Some d \<Rightarrow> day_notes d)"

definition itemsOf :: "world \<Rightarrow> string \<Rightarrow> ChecklistItem list" where
  "itemsOf w date = (case readDay w date of None \<Rightarrow> [] | Some d \<Rightarrow> day_checklist d)"

text \<open>
  The view of a day, which a batch without delete commands restores on every date: of
  a note its id, content and creation date; of a checklist item its id, text, completed
  flag, creation date and original date; the two lists in their order. What a view
  leaves out is \<open>updatedAt\<close>, which every mutation sets, and the \<open>order\<close> number, which a
  reorder assigns anew.
\<close>

definition noteView :: "Note \<Rightarrow> string \<times> string \<times> int" where
  "noteView n = (note_id n, note_content n, note_createdAt n)"

definition itemView :: "ChecklistItem \<Rightarrow> string \<times> string \<times> bool \<times> int \<times> string option" where
  "itemView i = (item_id i, item_text i, item_completed i, item_createdAt i, item_originalDate i)"

definition dayView ::
  "world \<Rightarrow> string \<Rightarrow> (string \<times> string \<times> int) list \<times> (string \<times> string \<times> bool \<times> int \<times> string option) list" where
  "dayView w date = (map noteView (notesOf w date), map itemView (itemsOf w date))"

fun isDelete :: "command \<Rightarrow> bool" where
  "isDelete (DeleteNoteCommand _ _ _) = True"
| "isDelete (DeleteChecklistItemCommand _ _ _) = True"
| "isDelete _ = False"

fun isBatch :: "command \<Rightarrow> bool" where
  "isBatch (BatchCommand _ _ _) = True"
| "isBatch _ = False"

text \<open>
  The UUID the next call of \<open>crypto.randomUUID()\<close> returns, and the condition under which
  a command fits the record it is run on: the ids of the day are distinct where the command
  filters by id, the next UUID is not in use where the command adds an entry, an edit
  command's old text is the stored text, and a reorder names every item once. A batch
  fits when it holds no delete command and each of its commands fits the record that the
  commands before it have left.
\<close>

definition nextUUID :: "world \<Rightarrow> string" where
  "nextUUID w = uuidSource w (uuidsDrawn w)"

fun restorable :: "command \<Rightarrow> world \<Rightarrow> bool"
  and restorableEach :: "command list \<Rightarrow> world \<Rightarrow> bool" where
  "restorable (AddNoteCommand b noteId content) w =
     (nextUUID w \<noteq> [] \<and> nextUUID w \<notin> set (map note_id (notesOf w (base_dateKey b))))"
| "restorable (EditNoteCommand b noteId oldContent newContent) w =
     (case find (\<lambda>n. note_id n = noteId) (notesOf w (base_dateKey b)) of
        None \<Rightarrow> True | Some n \<Rightarrow> note_content n = oldContent)"
| "restorable (DeleteNoteCommand b noteId deletedNote) w = distinct (map note_id (notesOf w (base_dateKey b)))"
| "restorable (AddChecklistItemCommand b itemId txt) w =
     (nextUUID w \<noteq> [] \<and> nextUUID w \<notin> set (map item_id (itemsOf w (base_dateKey b))))"
| "restorable (EditChecklistItemCommand b itemId oldText newText) w =
     (case find (\<lambda>i. item_id i = itemId) (itemsOf w (base_dateKey b)) of
        None \<Rightarrow> True | Some i \<Rightarrow> item_text i = oldText)"
| "restorable (ToggleChecklistItemCommand b itemId) w = True"
| "restorable (DeleteChecklistItemCommand b itemId deletedItem) w =
     (distinct (map item_id (itemsOf w (base_dateKey b)))
      \<and> nextUUID w \<notin> set (map item_id (itemsOf w (base_dateKey b))))"
| "restorable (ReorderChecklistCommand b newOrder oldOrder) w =
     (distinct (map item_id (itemsOf w (base_dateKey b))) \<and> distinct newOrder
      \<and> set (map item_id (itemsOf w (base_dateKey b))) \<subseteq> set newOrder)"
| "restorable (BatchCommand b commands description) w = restorableEach commands w"
| "restorableEach [] w = True"
| "restorableEach (c # cs) w =
     (\<not> isDelete c \<and> restorable c w \<and> restorableEach cs (snd (command_execute c w)))"

text \<open>
  What \<open>execute()\<close> followed at once by \<open>undo()\<close> leaves of the notes and of the checklist
  of the command's date. An edit or a toggle leaves its target with a new \<open>updatedAt\<close>; a
  reorder leaves every item with a new \<open>updatedAt\<close> and its position as \<open>order\<close>; a delete
  leaves the other entries as they were and, after them, the deleted entry as
  \<open>addNote\<close> or \<open>addChecklistItem\<close> makes it anew: a new id, new dates, the next \<open>order\<close>
  number, the same content and completed flag. The add commands leave both lists as
  they were.
\<close>

definition touchedNote :: "int \<Rightarrow> Note \<Rightarrow> Note" where
  "touchedNote t n = n\<lparr>note_updatedAt := t\<rparr>"

definition touchedItem :: "int \<Rightarrow> ChecklistItem \<Rightarrow> ChecklistItem" where
  "touchedItem t i = i\<lparr>item_updatedAt := t\<rparr>"

definition renumbered :: "int \<Rightarrow> ChecklistItem list \<Rightarrow> ChecklistItem list" where
  "renumbered t items = map (\<lambda>(k, i). i\<lparr>item_order := int k, item_updatedAt := t\<rparr>) (enumerate 0 items)"

definition readdedNote :: "world \<Rightarrow> Note \<Rightarrow> Note" where
  "readdedNote w n =
     \<lparr>note_id = nextUUID w, note_content = note_content n, note_createdAt = clock w, note_updatedAt = clock w\<rparr>"

definition readdedItem :: "world \<Rightarrow> string \<Rightarrow> ChecklistItem list \<Rightarrow> ChecklistItem \<Rightarrow> ChecklistItem" where
  "readdedItem w date others i =
     \<lparr>item_id = nextUUID w, item_text = item_text i, item_completed = item_completed i,
      item_order = maxOrder others + 1, item_createdAt = clock w, item_updatedAt = clock w,
      item_originalDate = Some date\<rparr>"

fun expectedNotes :: "command \<Rightarrow> world \<Rightarrow> Note list" where
  "expectedNotes (EditNoteCommand b noteId oldContent newContent) w =
     updateFirst (\<lambda>n. note_id n = noteId) (touchedNote (clock w)) (notesOf w (base_dateKey b))"
| "expectedNotes (DeleteNoteCommand b noteId deletedNote) w =
     (let xs = notesOf w (base_dateKey b) in
      filter (\<lambda>n. note_id n \<noteq> noteId) xs
        @ (case find (\<lambda>n. note_id n = noteId) xs of None \<Rightarrow> [] | Some n \<Rightarrow> [readdedNote w n]))"
| "expectedNotes c w = notesOf w (base_dateKey (command_base c))"

fun expectedItems :: "command \<Rightarrow> world \<Rightarrow> ChecklistItem list" where
  "expectedItems (EditChecklistItemCommand b itemId oldText newText) w =
     updateFirst (\<lambda>i. item_id i = itemId) (touchedItem (clock w)) (itemsOf w (base_dateKey b))"
| "expectedItems (ToggleChecklistItemCommand b itemId) w =
     updateFirst (\<lambda>i. item_id i = itemId) (touchedItem (clock w)) (itemsOf w (base_dateKey b))"
| "expectedItems (DeleteChecklistItemCommand b itemId deletedItem) w =
     (let xs = itemsOf w (base_dateKey b);
          others = filter (\<lambda>i. item_id i \<noteq> itemId) xs
      in others @ (case find (\<lambda>i. item_id i = itemId) xs of
                     None \<Rightarrow> [] | Some i \<Rightarrow> [readdedItem w (base_dateKey b) others i]))"
| "expectedItems (ReorderChecklistCommand b newOrder oldOrder) w =
     renumbered (clock w) (itemsOf w (base_dateKey b))"
| "expectedItems c w = itemsOf w (base_dateKey (command_base c))"

text \<open>
  \<open>execute()\<close> followed at once by \<open>undo()\<close> of the executed command, and what holds of
  the world \<open>w2\<close> it leaves, compared with the world \<open>w\<close> before. For a command that is not
  a batch: the notes and the checklist of its date are the expected ones, entry by entry
  and field by field, and every other date reads as before. For a batch, whose commands
  may be of several dates: every date has the view it had.
\<close>

definition roundTrip :: "command \<Rightarrow> world \<Rightarrow> world" where
  "roundTrip c w = (case command_execute c w of (c1, w1) \<Rightarrow> command_undo c1 w1)"

definition restoredBy :: "command \<Rightarrow> world \<Rightarrow> world \<Rightarrow> bool" where
  "restoredBy c w w2 =
     (if isBatch c then (\<forall>d. dayView w2 d = dayView w d)
      else
        (let d = base_dateKey (command_base c) in
         notesOf w2 d = expectedNotes c w \<and> itemsOf w2 d = expectedItems c w
         \<and> (\<forall>d'. d' = d \<or> (notesOf w2 d' = notesOf w d' \<and> itemsOf w2 d' = itemsOf w d'))))"

text \<open>
  Two worlds in which every date has the same view, and the commands whose \<open>undo()\<close>
  takes worlds with the same views to worlds with the same views: those without a
  delete command in them.
\<close>

definition sameViews :: "world \<Rightarrow> world \<Rightarrow> bool" where
  "sameViews w w' = (\<forall>d. dayView w' d = dayView w d)"

fun deleteFree :: "command \<Rightarrow> bool"
  and deleteFreeEach :: "command list \<Rightarrow> bool" where
  "deleteFree (DeleteNoteCommand b noteId deletedNote) = False"
| "deleteFree (DeleteChecklistItemCommand b itemId deletedItem) = False"
| "deleteFree (BatchCommand b commands description) = deleteFreeEach commands"
| "deleteFree (AddNoteCommand b noteId content) = True"
| "deleteFree (EditNoteCommand b noteId oldContent newContent) = True"
| "deleteFree (AddChecklistItemCommand b itemId txt) = True"
| "deleteFree (EditChecklistItemCommand b itemId oldText newText) = True"
| "deleteFree (ToggleChecklistItemCommand b itemId) = True"
| "deleteFree (ReorderChecklistCommand b newOrder oldOrder) = True"
| "deleteFreeEach [] = True"
| "deleteFreeEach (c # cs) = (deleteFree c \<and> deleteFreeEach cs)"

text \<open>
  A sample day: one note and two checklist items stored in IndexedDB under
  \<open>2024-05-01\<close>, the clock at 5, and UUIDs \<open>uuid-\<close>, \<open>uuid-x\<close>, \<open>uuid-xx\<close>, ...
\<close>

definition sampleDay :: DayData where
  "sampleDay =
     \<lparr>day_notes = [\<lparr>note_id = ''n1'', note_content = ''a'', note_createdAt = 1, note_updatedAt = 1\<rparr>],
      day_checklist =
        [\<lparr>item_id = ''A'', item_text = ''Buy milk'', item_completed = True, item_order = 0,
          item_createdAt = 1, item_updatedAt = 1, item_originalDate = None\<rparr>,
         \<lparr>item_id = ''B'', item_text = ''Call home'', item_completed = False, item_order = 1,
          item_createdAt = 2, item_updatedAt = 2, item_originalDate = None\<rparr>],
      day_createdAt = 1, day_updatedAt = 2\<rparr>"

definition sampleWorld :: world where
  "sampleWorld =
     \<lparr>isIndexedDBAvailable = True, dbInstance = True, fallbackStorage = Map.empty,
      idbDayData = [''2024-05-01'' \<mapsto> sampleDay],
      idbOpens = True, idbGets = True, idbPuts = True, clock = 5,
      uuidSource = (\<lambda>n. ''uuid-'' @ replicate n (CHR ''x'')), uuidsDrawn = 0\<rparr>"

definition sampleBase :: "int \<Rightarrow> Base" where
  "sampleBase t = \<lparr>base_id = ''c'', base_dateKey = ''2024-05-01'', base_timestamp = Some t\<rparr>"

text \<open>
  On the sample day: a batch that edits the note and toggles item \<open>A\<close>, and the deletion
  of item \<open>A\<close>, which comes back last as \<open>uuid-\<close>.
\<close>

definition sampleBatch :: command where
  "sampleBatch =
     BatchCommand (sampleBase 0)
       [EditNoteCommand (sampleBase 0) ''n1'' ''a'' ''ab'', ToggleChecklistItemCommand (sampleBase 0) ''A'']
       ''edit and toggle''"

text \<open>
  The records of the two stores are the same in \<open>w\<close> and \<open>w'\<close>: the object store holds
  the same, and so does the in-memory map up to the sorting of a checklist that a read
  writes back.
\<close>

definition sortedDay :: "DayData \<Rightarrow> DayData" where
  "sortedDay d = d\<lparr>day_checklist := sortChecklist (day_checklist d)\<rparr>"

definition sameRecords :: "world \<Rightarrow> world \<Rightarrow> bool" where
  "sameRecords w w' =
     (idbDayData w' = idbDayData w
      \<and> (\<forall>d. map_option sortedDay (fallbackStorage w' d) = map_option sortedDay (fallbackStorage w d)))"

text \<open>
  The manager after the steps of the three operations that change the stacks:
  \<open>push\<close>, clearing the redo stack and trimming (\<open>pushed\<close>); replacing the last entry by
  the merged command (\<open>merged\<close>); \<open>pop\<close> from the undo stack and \<open>push\<close> on the redo stack
  (\<open>undone\<close>).
\<close>

definition pushed :: "('c, 's, 'w) Command \<Rightarrow> 'c \<Rightarrow> 'w \<Rightarrow> 'c HistoryManager \<Rightarrow> 'c HistoryManager" where
  "pushed ops c w0 m =
     m\<lparr>undoStack := pushTrimmed (maxHistorySize m) (undoStack m) (Some (fst (snd (i_execute ops c w0)))),
       redoStack := []\<rparr>"

definition merged :: "'c \<Rightarrow> 'c HistoryManager \<Rightarrow> 'c HistoryManager" where
  "merged c1 m = m\<lparr>undoStack := replaceTop (undoStack m) (Some c1)\<rparr>"

definition undone :: "'c option \<Rightarrow> 'c HistoryManager \<Rightarrow> 'c HistoryManager" where
  "undone slot m = m\<lparr>undoStack := butlast (undoStack m), redoStack := redoStack m @ [slot]\<rparr>"

text \<open>
  Between two states of the history store, the durable database was not asked
  anything and holds what it held, and the store is in fallback mode.
\<close>

definition durableUntouched :: "'s HistoryStore \<Rightarrow> 's HistoryStore \<Rightarrow> bool" where
  "durableUntouched h h' =
     (\<not> isHistoryDBAvailable h' \<and> historyDbInstance h' = historyDbInstance h
      \<and> durableHistory h' = durableHistory h \<and> durableRequests h' = durableRequests h)"

text \<open>
  A stack slot that \<open>saveHistory\<close> can serialize: a command whose \<open>serialize()\<close> returns.
\<close>

definition serializes :: "command option \<Rightarrow> bool" where
  "serializes slot = (case slot of None \<Rightarrow> False | Some c \<Rightarrow> (case command_serialize c of Inl e \<Rightarrow> False | Inr x \<Rightarrow> True))"

text \<open>
  The two commands that edit a text: what they edit (type, date and id), the text they
  replace, the text they write, and the text of their target in the day store.
\<close>

fun editTarget :: "command \<Rightarrow> (string \<times> string \<times> string) option" where
  "editTarget (EditNoteCommand b noteId oldContent newContent) = Some (''edit-note'', base_dateKey b, noteId)"
| "editTarget (EditChecklistItemCommand b itemId oldText newText) = Some (''edit-checklist-item'', base_dateKey b, itemId)"
| "editTarget _ = None"

fun editOldText :: "command \<Rightarrow> string" where
  "editOldText (EditNoteCommand b noteId oldContent newContent) = oldContent"
| "editOldText (EditChecklistItemCommand b itemId oldText newText) = oldText"
| "editOldText _ = []"

fun targetText :: "command \<Rightarrow> world \<Rightarrow> string option" where
  "targetText (EditNoteCommand b noteId oldContent newContent) w =
     map_option note_content (find (\<lambda>n. note_id n = noteId) (notesOf w (base_dateKey b)))"
| "targetText (EditChecklistItemCommand b itemId oldText newText) w =
     map_option item_text (find (\<lambda>i. item_id i = itemId) (itemsOf w (base_dateKey b)))"
| "targetText _ w = None"

fun editNewText :: "command \<Rightarrow> string" where
  "editNewText (EditNoteCommand b noteId oldContent newContent) = newContent"
| "editNewText (EditChecklistItemCommand b itemId oldText newText) = newText"
| "editNewText _ = []"

text \<open>
  A history store with a working durable database, a manager of capacity 100 with empty
  stacks, and the session of both over the sample day.
\<close>

definition sampleStore :: "serial HistoryStore" where
  "sampleStore =
     \<lparr>historyDbInstance = True, isHistoryDBAvailable = True, fallbackHistoryStorage = Map.empty,
      durableHistory = Map.empty, durableOpens = True, durableGets = True, durablePuts = True,
      durableRequests = 0, historyClock = 5\<rparr>"

definition sampleManager :: "command HistoryManager" where
  "sampleManager =
     \<lparr>undoStack = [], redoStack = [], currentDateKey = ''2024-05-01'', maxHistorySize = 100,
      isExecuting = False, notified = 0\<rparr>"

definition sampleSession :: "(command, serial, world) Session" where
  "sampleSession = \<lparr>manager = sampleManager, store = sampleStore, env = sampleWorld\<rparr>"

text \<open>
  The session after \<open>executeCommand\<close> and after \<open>undo\<close>, whatever they returned; an edit of
  the sample note.
\<close>

definition afterExecute ::
  "('c, 's, 'w) Command \<Rightarrow> UndoRedoConfig \<Rightarrow> 'c \<Rightarrow> ('c, 's, 'w) Session \<Rightarrow> ('c, 's, 'w) Session" where
  "afterExecute ops cfg c S = snd (executeCommand ops cfg c S)"

definition afterUndo ::
  "('c, 's, 'w) Command \<Rightarrow> UndoRedoConfig \<Rightarrow> ('c, 's, 'w) Session \<Rightarrow> ('c, 's, 'w) Session" where
  "afterUndo ops cfg S = snd (undo ops cfg S)"

definition editNote :: "int \<Rightarrow> string \<Rightarrow> string \<Rightarrow> command" where
  "editNote t old new = EditNoteCommand (sampleBase t) ''n1'' old new"

text \<open>
  A toggle of the sample item \<open>A\<close>; the catalog with an \<open>undo()\<close> that throws; a session
  with one command on the undo stack.
\<close>

definition toggleA :: command where
  "toggleA = ToggleChecklistItemCommand (sampleBase 0) ''A''"

definition failingUndo :: "(command, serial, world) Command" where
  "failingUndo = catalog\<lparr>i_undo := (\<lambda>c w. (Inl (JsError ''store unavailable''), c, w))\<rparr>"

definition oneDone :: "(command, serial, world) Session" where
  "oneDone = sampleSession\<lparr>manager := sampleManager\<lparr>undoStack := [Some toggleA]\<rparr>\<rparr>"

text \<open>
  A persisted history of three commands, and a manager of capacity 2 created over it.
\<close>

definition threeSaved :: "serial HistoryState" where
  "threeSaved =
     \<lparr>h_undoStack = [Serial ''c1'' ''2024-05-01'' (Some 0) (ToggleChecklistItemData ''A''),
                     Serial ''c2'' ''2024-05-01'' (Some 10) (ToggleChecklistItemData ''B''),
                     Serial ''c3'' ''2024-05-01'' (Some 20) (ToggleChecklistItemData ''A'')],
      h_redoStack = [], h_dateKey = ''2024-05-01'', h_maxHistorySize = 100, h_lastModified = 1\<rparr>"

definition reopened :: "(command, serial, world) Session" where
  "reopened = newHistoryManager catalog defaultConfig ''2024-05-01'' 2
                (sampleStore\<lparr>durableHistory := [''2024-05-01'' \<mapsto> threeSaved]\<rparr>) sampleWorld"

text \<open>
  The sample session over a durable store whose \<open>put\<close> is rejected.
\<close>

definition rejectingPut :: "(command, serial, world) Session" where
  "rejectingPut = sampleSession\<lparr>store := sampleStore\<lparr>durablePuts := False\<rparr>\<rparr>"

text \<open>
  A command whose timestamp is an invalid date, and a session with it on the undo stack.
\<close>

definition undatedToggle :: command where
  "undatedToggle =
     ToggleChecklistItemCommand \<lparr>base_id = ''t'', base_dateKey = ''2024-05-01'', base_timestamp = None\<rparr> ''A''"

definition staleSession :: "(command, serial, world) Session" where
  "staleSession = sampleSession\<lparr>manager := sampleManager\<lparr>undoStack := [Some undatedToggle]\<rparr>\<rparr>"

text \<open>
  The sample session in the middle of an operation, one command on the undo stack.
\<close>

definition busySession :: "(command, serial, world) Session" where
  "busySession = sampleSession\<lparr>manager := sampleManager\<lparr>undoStack := [Some toggleA], isExecuting := True\<rparr>\<rparr>"

text \<open>
  A history store whose \<open>openDB\<close> fails, and the session after the one attempt to open it.
\<close>

definition failedOpen :: "serial HistoryStore" where
  "failedOpen = sampleStore\<lparr>historyDbInstance := False, durableOpens := False\<rparr>"

definition fallbackSession :: "(command, serial, world) Session" where
  "fallbackSession = sampleSession\<lparr>store := initHistoryDB failedOpen\<rparr>"

text \<open>
  Adding a checklist item to the sample day.
\<close>

definition addBread :: command where
  "addBread = AddChecklistItemCommand (sampleBase 0) None ''Buy bread''"

text \<open>
  Two sessions on the sample day whose undo stack starts with a command that does not
  serialize: one with a toggle of item \<open>A\<close> above it, one with an edit of the note.
\<close>

definition staleToggled :: "(command, serial, world) Session" where
  "staleToggled = sampleSession\<lparr>manager := sampleManager\<lparr>undoStack := [Some undatedToggle, Some toggleA]\<rparr>\<rparr>"

definition staleEdited :: "(command, serial, world) Session" where
  "staleEdited =
     sampleSession\<lparr>manager := sampleManager\<lparr>undoStack := [Some undatedToggle, Some (editNote 0 ''b'' ''a'')]\<rparr>\<rparr>"

section \<open>The day store under its operations\<close>

lemma getDayData_split: "getDayData d w = (readDay w d, afterRead d w)"
  by (simp add: readDay_def afterRead_def)

lemma sortChecklist_idem: "sortChecklist (sortChecklist xs) = sortChecklist xs"
  by (simp add: sortChecklist_def sort_key_id_if_sorted)

lemma afterRead_ok: "store_ok w \<Longrightarrow> store_ok (afterRead d w)"
  by (auto simp: store_ok_def afterRead_def getDayData_def readFallback_def Let_def split: option.splits if_splits)

lemma afterRead_clock: "clock (afterRead d w) = clock w"
  by (auto simp: afterRead_def getDayData_def readFallback_def initDB_def Let_def split: option.splits if_splits)

lemma afterRead_uuid: "uuidSource (afterRead d w) = uuidSource w" "uuidsDrawn (afterRead d w) = uuidsDrawn w"
  by (auto simp: afterRead_def getDayData_def readFallback_def initDB_def Let_def split: option.splits if_splits)

lemma readDay_afterRead: "store_ok w \<Longrightarrow> readDay (afterRead d w) d' = readDay w d'"
  by (auto simp: store_ok_def readDay_def afterRead_def getDayData_def readFallback_def Let_def sortChecklist_idem split: option.splits if_splits)

lemma saveDayData_ok: "store_ok w \<Longrightarrow> store_ok (saveDayData d dd w)"
  by (auto simp: store_ok_def saveDayData_def Let_def split: if_splits)

lemma saveDayData_clock: "clock (saveDayData d dd w) = clock w"
  by (auto simp: saveDayData_def initDB_def Let_def split: if_splits)

lemma saveDayData_uuid: "uuidSource (saveDayData d dd w) = uuidSource w" "uuidsDrawn (saveDayData d dd w) = uuidsDrawn w"
  by (auto simp: saveDayData_def initDB_def Let_def split: if_splits)

lemma readDay_saveDayData:
  "store_ok w \<Longrightarrow> readDay (saveDayData d dd w) d' =
     (if d' = d then Some (dd\<lparr>day_checklist := sortChecklist (day_checklist dd), day_updatedAt := clock w\<rparr>)
      else readDay w d')"
  by (auto simp: store_ok_def readDay_def saveDayData_def getDayData_def readFallback_def Let_def split: option.splits if_splits)

lemma readDay_sorted: "readDay w d = Some dd \<Longrightarrow> sortChecklist (day_checklist dd) = day_checklist dd"
  by (auto simp: readDay_def getDayData_def readFallback_def Let_def sortChecklist_idem split: option.splits if_splits)

lemma itemsOf_sorted: "sorted (map item_order (itemsOf w d))"
proof (cases "readDay w d")
  case None
  then show ?thesis by (simp add: itemsOf_def)
next
  case (Some dd)
  then have "sortChecklist (day_checklist dd) = day_checklist dd" by (rule readDay_sorted)
  then have "sorted (map item_order (day_checklist dd))"
    by (metis sortChecklist_def sorted_sort_key)
  with Some show ?thesis by (simp add: itemsOf_def)
qed

lemma sortChecklist_sorted: "sorted (map item_order xs) \<Longrightarrow> sortChecklist xs = xs"
  by (simp add: sortChecklist_def sort_key_id_if_sorted)

lemma updateFirst_none: "\<forall>x\<in>set xs. \<not> p x \<Longrightarrow> updateFirst p f xs = xs"
  by (induction xs) auto

lemma find_None_updateFirst: "find p xs = None \<Longrightarrow> updateFirst p f xs = xs"
  by (induction xs) (auto split: if_splits)

lemma map_updateFirst: "(\<And>x. g (f x) = g x) \<Longrightarrow> map g (updateFirst p f xs) = map g xs"
  by (induction xs) auto

lemma updateNote_ok: "store_ok w \<Longrightarrow> store_ok (updateNote d n c w)"
  by (simp add: updateNote_def getDayData_split afterRead_ok saveDayData_ok split: option.splits)

lemma updateNote_clock: "clock (updateNote d n c w) = clock w"
  by (simp add: updateNote_def getDayData_split afterRead_clock saveDayData_clock split: option.splits)

lemma updateNote_uuid: "uuidSource (updateNote d n c w) = uuidSource w" "uuidsDrawn (updateNote d n c w) = uuidsDrawn w"
  by (simp_all add: updateNote_def getDayData_split afterRead_uuid saveDayData_uuid split: option.splits)

lemma notesOf_updateNote:
  "store_ok w \<Longrightarrow> notesOf (updateNote d n c w) d' =
     (if d' = d then updateFirst (\<lambda>x. note_id x = n) (\<lambda>x. x\<lparr>note_content := c, note_updatedAt := clock w\<rparr>) (notesOf w d)
      else notesOf w d')"
  by (auto simp: notesOf_def updateNote_def getDayData_split afterRead_ok afterRead_clock readDay_afterRead
      readDay_saveDayData find_None_updateFirst split: option.splits)

lemma itemsOf_updateNote: "store_ok w \<Longrightarrow> itemsOf (updateNote d n c w) d' = itemsOf w d'"
  by (auto simp: itemsOf_def updateNote_def getDayData_split afterRead_ok afterRead_clock readDay_afterRead
      readDay_saveDayData readDay_sorted split: option.splits)

lemma deleteNote_ok: "store_ok w \<Longrightarrow> store_ok (deleteNote d n w)"
  by (simp add: deleteNote_def getDayData_split afterRead_ok saveDayData_ok split: option.splits)

lemma deleteNote_clock: "clock (deleteNote d n w) = clock w"
  by (simp add: deleteNote_def getDayData_split afterRead_clock saveDayData_clock split: option.splits)

lemma deleteNote_uuid: "uuidSource (deleteNote d n w) = uuidSource w" "uuidsDrawn (deleteNote d n w) = uuidsDrawn w"
  by (simp_all add: deleteNote_def getDayData_split afterRead_uuid saveDayData_uuid split: option.splits)

lemma notesOf_deleteNote:
  "store_ok w \<Longrightarrow> notesOf (deleteNote d n w) d' =
     (if d' = d then filter (\<lambda>x. note_id x \<noteq> n) (notesOf w d) else notesOf w d')"
  by (auto simp: notesOf_def deleteNote_def getDayData_split afterRead_ok afterRead_clock readDay_afterRead
      readDay_saveDayData split: option.splits)

lemma itemsOf_deleteNote: "store_ok w \<Longrightarrow> itemsOf (deleteNote d n w) d' = itemsOf w d'"
  by (auto simp: itemsOf_def deleteNote_def getDayData_split afterRead_ok afterRead_clock readDay_afterRead
      readDay_saveDayData readDay_sorted split: option.splits)

lemma getOrCreate_ok: "store_ok w \<Longrightarrow> store_ok (snd (getOrCreate d w))"
  by (simp add: getOrCreate_def createEmptyDayData_def Let_def getDayData_split afterRead_ok saveDayData_ok split: option.splits)

lemma getOrCreate_clock: "clock (snd (getOrCreate d w)) = clock w"
  by (simp add: getOrCreate_def createEmptyDayData_def Let_def getDayData_split afterRead_clock saveDayData_clock split: option.splits)

lemma getOrCreate_uuid: "uuidSource (snd (getOrCreate d w)) = uuidSource w" "uuidsDrawn (snd (getOrCreate d w)) = uuidsDrawn w"
  by (simp_all add: getOrCreate_def createEmptyDayData_def Let_def getDayData_split afterRead_uuid saveDayData_uuid split: option.splits)

lemma getOrCreate_fst:
  "day_notes (fst (getOrCreate d w)) = notesOf w d" "day_checklist (fst (getOrCreate d w)) = itemsOf w d"
  by (simp_all add: getOrCreate_def createEmptyDayData_def Let_def getDayData_split notesOf_def itemsOf_def split: option.splits)

lemma notesOf_getOrCreate: "store_ok w \<Longrightarrow> notesOf (snd (getOrCreate d w)) d' = notesOf w d'"
  by (auto simp: notesOf_def getOrCreate_def createEmptyDayData_def Let_def getDayData_split afterRead_ok readDay_afterRead
       readDay_saveDayData split: option.splits)

lemma itemsOf_getOrCreate: "store_ok w \<Longrightarrow> itemsOf (snd (getOrCreate d w)) d' = itemsOf w d'"
  by (auto simp: itemsOf_def getOrCreate_def createEmptyDayData_def Let_def getDayData_split afterRead_ok readDay_afterRead
       readDay_saveDayData sortChecklist_def split: option.splits)

lemma store_ok_uuidsDrawn: "store_ok (w\<lparr>uuidsDrawn := k\<rparr>) = store_ok w"
  by (simp add: store_ok_def)

lemma readDay_uuidsDrawn: "readDay (w\<lparr>uuidsDrawn := k\<rparr>) d = readDay w d"
  by (simp add: readDay_def getDayData_def readFallback_def initDB_def Let_def split: option.splits)

lemma addNote_fst:
  "fst (addNote d c w) = \<lparr>note_id = uuidSource w (uuidsDrawn w), note_content = c,
                            note_createdAt = clock w, note_updatedAt = clock w\<rparr>"
  by (simp add: addNote_def randomUUID_def case_prod_beta Let_def getOrCreate_clock getOrCreate_uuid)

lemma addNote_ok: "store_ok w \<Longrightarrow> store_ok (snd (addNote d c w))"
  by (simp add: addNote_def randomUUID_def case_prod_beta Let_def getOrCreate_ok saveDayData_ok store_ok_uuidsDrawn)

lemma addNote_clock: "clock (snd (addNote d c w)) = clock w"
  by (simp add: addNote_def randomUUID_def case_prod_beta Let_def getOrCreate_clock saveDayData_clock)

lemma addNote_uuid: "uuidSource (snd (addNote d c w)) = uuidSource w" "uuidsDrawn (snd (addNote d c w)) = Suc (uuidsDrawn w)"
  by (simp_all add: addNote_def randomUUID_def case_prod_beta Let_def getOrCreate_uuid saveDayData_uuid)

lemma notesOf_addNote:
  "store_ok w \<Longrightarrow> notesOf (snd (addNote d c w)) d' =
     (if d' = d then notesOf w d @ [fst (addNote d c w)] else notesOf w d')"
  using notesOf_getOrCreate[of w d d'] getOrCreate_ok[of w d]
  by (auto simp: addNote_fst notesOf_def addNote_def randomUUID_def case_prod_beta Let_def
       readDay_saveDayData store_ok_uuidsDrawn readDay_uuidsDrawn getOrCreate_fst getOrCreate_clock getOrCreate_uuid)

lemma itemsOf_addNote: "store_ok w \<Longrightarrow> itemsOf (snd (addNote d c w)) d' = itemsOf w d'"
  using itemsOf_getOrCreate[of w d d'] getOrCreate_ok[of w d] itemsOf_sorted[of w d]
  by (auto simp: itemsOf_def addNote_def randomUUID_def case_prod_beta Let_def sortChecklist_sorted
       readDay_saveDayData store_ok_uuidsDrawn readDay_uuidsDrawn getOrCreate_fst)

lemma maxOrder_ge: "x \<in> set xs \<Longrightarrow> item_order x \<le> maxOrder xs"
  by (auto simp: maxOrder_def)

lemma sorted_snoc_max:
  "sorted (map item_order xs) \<Longrightarrow> item_order i = maxOrder xs + 1 \<Longrightarrow> sorted (map item_order (xs @ [i]))"
  using maxOrder_ge by (fastforce simp: sorted_append)

lemma addChecklistItem_fst:
  "fst (addChecklistItem d t w) =
     \<lparr>item_id = uuidSource w (uuidsDrawn w), item_text = t, item_completed = False,
      item_order = maxOrder (itemsOf w d) + 1, item_createdAt = clock w, item_updatedAt = clock w,
      item_originalDate = Some d\<rparr>"
  by (simp add: addChecklistItem_def randomUUID_def case_prod_beta Let_def getOrCreate_clock getOrCreate_uuid getOrCreate_fst)

lemma addChecklistItem_ok: "store_ok w \<Longrightarrow> store_ok (snd (addChecklistItem d t w))"
  by (simp add: addChecklistItem_def randomUUID_def case_prod_beta Let_def getOrCreate_ok saveDayData_ok store_ok_uuidsDrawn)

lemma addChecklistItem_clock: "clock (snd (addChecklistItem d t w)) = clock w"
  by (simp add: addChecklistItem_def randomUUID_def case_prod_beta Let_def getOrCreate_clock saveDayData_clock)

lemma addChecklistItem_uuid:
  "uuidSource (snd (addChecklistItem d t w)) = uuidSource w"
  "uuidsDrawn (snd (addChecklistItem d t w)) = Suc (uuidsDrawn w)"
  by (simp_all add: addChecklistItem_def randomUUID_def case_prod_beta Let_def getOrCreate_uuid saveDayData_uuid)

lemma itemsOf_addChecklistItem:
  "store_ok w \<Longrightarrow> itemsOf (snd (addChecklistItem d t w)) d' =
     (if d' = d then itemsOf w d @ [fst (addChecklistItem d t w)] else itemsOf w d')"
  using itemsOf_getOrCreate[of w d d'] getOrCreate_ok[of w d]
    sorted_snoc_max[OF itemsOf_sorted[of w d], of "fst (addChecklistItem d t w)"]
  by (auto simp: addChecklistItem_fst itemsOf_def addChecklistItem_def randomUUID_def case_prod_beta Let_def
       readDay_saveDayData store_ok_uuidsDrawn readDay_uuidsDrawn getOrCreate_fst getOrCreate_clock getOrCreate_uuid
       sortChecklist_sorted sortChecklist_idem)

lemma notesOf_addChecklistItem: "store_ok w \<Longrightarrow> notesOf (snd (addChecklistItem d t w)) d' = notesOf w d'"
  using notesOf_getOrCreate[of w d d'] getOrCreate_ok[of w d]
  by (auto simp: notesOf_def addChecklistItem_def randomUUID_def case_prod_beta Let_def
       readDay_saveDayData store_ok_uuidsDrawn readDay_uuidsDrawn getOrCreate_fst)

lemma updateChecklistItem_ok: "store_ok w \<Longrightarrow> store_ok (updateChecklistItem d i u w)"
  by (simp add: updateChecklistItem_def getDayData_split afterRead_ok saveDayData_ok split: option.splits)

lemma updateChecklistItem_clock: "clock (updateChecklistItem d i u w) = clock w"
  by (simp add: updateChecklistItem_def getDayData_split afterRead_clock saveDayData_clock split: option.splits)

lemma updateChecklistItem_uuid:
  "uuidSource (updateChecklistItem d i u w) = uuidSource w" "uuidsDrawn (updateChecklistItem d i u w) = uuidsDrawn w"
  by (simp_all add: updateChecklistItem_def getDayData_split afterRead_uuid saveDayData_uuid split: option.splits)

lemma assignUpdates_order: "item_order (assignUpdates u x) = item_order x"
  by (simp add: assignUpdates_def)

lemma itemsOf_updateChecklistItem:
  "store_ok w \<Longrightarrow> itemsOf (updateChecklistItem d i u w) d' =
     (if d' = d then updateFirst (\<lambda>x. item_id x = i) (\<lambda>x. (assignUpdates u x)\<lparr>item_updatedAt := clock w\<rparr>) (itemsOf w d)
      else itemsOf w d')"
proof -
  assume ok: "store_ok w"
  have srt: "sortChecklist (updateFirst (\<lambda>x. item_id x = i) (\<lambda>x. (assignUpdates u x)\<lparr>item_updatedAt := clock w\<rparr>) (itemsOf w d))
        = updateFirst (\<lambda>x. item_id x = i) (\<lambda>x. (assignUpdates u x)\<lparr>item_updatedAt := clock w\<rparr>) (itemsOf w d)"
    by (rule sortChecklist_sorted) (simp add: map_updateFirst assignUpdates_order itemsOf_sorted)
  show ?thesis using ok srt
    by (auto simp: itemsOf_def updateChecklistItem_def getDayData_split afterRead_ok afterRead_clock readDay_afterRead
      readDay_saveDayData find_None_updateFirst split: option.splits)
qed

lemma notesOf_updateChecklistItem: "store_ok w \<Longrightarrow> notesOf (updateChecklistItem d i u w) d' = notesOf w d'"
  by (auto simp: notesOf_def updateChecklistItem_def getDayData_split afterRead_ok afterRead_clock readDay_afterRead
      readDay_saveDayData split: option.splits)

lemma deleteChecklistItem_ok: "store_ok w \<Longrightarrow> store_ok (deleteChecklistItem d i w)"
  by (simp add: deleteChecklistItem_def getDayData_split afterRead_ok saveDayData_ok split: option.splits)

lemma deleteChecklistItem_clock: "clock (deleteChecklistItem d i w) = clock w"
  by (simp add: deleteChecklistItem_def getDayData_split afterRead_clock saveDayData_clock split: option.splits)

lemma deleteChecklistItem_uuid:
  "uuidSource (deleteChecklistItem d i w) = uuidSource w" "uuidsDrawn (deleteChecklistItem d i w) = uuidsDrawn w"
  by (simp_all add: deleteChecklistItem_def getDayData_split afterRead_uuid saveDayData_uuid split: option.splits)

lemma itemsOf_deleteChecklistItem:
  "store_ok w \<Longrightarrow> itemsOf (deleteChecklistItem d i w) d' =
     (if d' = d then filter (\<lambda>x. item_id x \<noteq> i) (itemsOf w d) else itemsOf w d')"
proof -
  assume ok: "store_ok w"
  have srt: "sortChecklist (filter (\<lambda>x. item_id x \<noteq> i) (itemsOf w d)) = filter (\<lambda>x. item_id x \<noteq> i) (itemsOf w d)"
    by (rule sortChecklist_sorted) (simp add: sorted_filter itemsOf_sorted)
  show ?thesis using ok srt
    by (auto simp: itemsOf_def deleteChecklistItem_def getDayData_split afterRead_ok afterRead_clock readDay_afterRead
      readDay_saveDayData split: option.splits)
qed

lemma notesOf_deleteChecklistItem: "store_ok w \<Longrightarrow> notesOf (deleteChecklistItem d i w) d' = notesOf w d'"
  by (auto simp: notesOf_def deleteChecklistItem_def getDayData_split afterRead_ok afterRead_clock readDay_afterRead
      readDay_saveDayData split: option.splits)

lemma reorderChecklistItems_ok: "store_ok w \<Longrightarrow> store_ok (reorderChecklistItems d ids w)"
  by (simp add: reorderChecklistItems_def getDayData_split afterRead_ok saveDayData_ok split: option.splits)

lemma reorderChecklistItems_clock: "clock (reorderChecklistItems d ids w) = clock w"
  by (simp add: reorderChecklistItems_def getDayData_split afterRead_clock saveDayData_clock split: option.splits)

lemma reorderChecklistItems_uuid:
  "uuidSource (reorderChecklistItems d ids w) = uuidSource w" "uuidsDrawn (reorderChecklistItems d ids w) = uuidsDrawn w"
  by (simp_all add: reorderChecklistItems_def getDayData_split afterRead_uuid saveDayData_uuid split: option.splits)

lemma reorderLoop_empty: "reorderLoop Map.empty t ids k = []"
  by (induction ids arbitrary: k) auto

lemma itemsOf_reorderChecklistItems:
  "store_ok w \<Longrightarrow> itemsOf (reorderChecklistItems d ids w) d' =
     (if d' = d then sortChecklist (reorderLoop (itemMap (itemsOf w d)) (clock w) ids 0) else itemsOf w d')"
  by (auto simp: itemsOf_def reorderChecklistItems_def getDayData_split afterRead_ok afterRead_clock readDay_afterRead
      readDay_saveDayData itemMap_def reorderLoop_empty sortChecklist_def split: option.splits)

lemma notesOf_reorderChecklistItems: "store_ok w \<Longrightarrow> notesOf (reorderChecklistItems d ids w) d' = notesOf w d'"
  by (auto simp: notesOf_def reorderChecklistItems_def getDayData_split afterRead_ok afterRead_clock readDay_afterRead
      readDay_saveDayData split: option.splits)

lemma findItem_itemsOf: "findItem i (readDay w d) = find (\<lambda>x. item_id x = i) (itemsOf w d)"
  by (simp add: findItem_def itemsOf_def split: option.splits)

lemma findNote_notesOf: "findNote n (readDay w d) = find (\<lambda>x. note_id x = n) (notesOf w d)"
  by (simp add: findNote_def notesOf_def split: option.splits)

lemma updateFirst_found: "find p xs = Some y \<Longrightarrow> updateFirst p (\<lambda>x. f y x) xs = updateFirst p (\<lambda>x. f x x) xs"
  by (induction xs) (auto split: if_splits)

lemma toggleItem_ok: "store_ok w \<Longrightarrow> store_ok (toggleItem d i w)"
  by (simp add: toggleItem_def getDayData_split afterRead_ok updateChecklistItem_ok split: option.splits)

lemma toggleItem_clock: "clock (toggleItem d i w) = clock w"
  by (simp add: toggleItem_def getDayData_split afterRead_clock updateChecklistItem_clock split: option.splits)

lemma toggleItem_uuid:
  "uuidSource (toggleItem d i w) = uuidSource w" "uuidsDrawn (toggleItem d i w) = uuidsDrawn w"
  by (simp_all add: toggleItem_def getDayData_split afterRead_uuid updateChecklistItem_uuid split: option.splits)

lemma itemsOf_afterRead: "store_ok w \<Longrightarrow> itemsOf (afterRead d w) d' = itemsOf w d'"
  by (simp add: itemsOf_def readDay_afterRead)

lemma notesOf_afterRead: "store_ok w \<Longrightarrow> notesOf (afterRead d w) d' = notesOf w d'"
  by (simp add: notesOf_def readDay_afterRead)

lemma itemsOf_toggleItem:
  "store_ok w \<Longrightarrow> itemsOf (toggleItem d i w) d' =
     (if d' = d then updateFirst (\<lambda>x. item_id x = i)
          (\<lambda>x. x\<lparr>item_completed := \<not> item_completed x, item_updatedAt := clock w\<rparr>) (itemsOf w d)
      else itemsOf w d')"
proof (cases "find (\<lambda>x. item_id x = i) (itemsOf w d)")
  case None
  assume "store_ok w"
  with None show ?thesis
    by (simp add: toggleItem_def getDayData_split findItem_itemsOf itemsOf_afterRead find_None_updateFirst)
next
  case (Some y)
  assume ok: "store_ok w"
  have "updateFirst (\<lambda>x. item_id x = i) (\<lambda>x. x\<lparr>item_completed := \<not> item_completed y, item_updatedAt := clock w\<rparr>) (itemsOf w d)
      = updateFirst (\<lambda>x. item_id x = i) (\<lambda>x. x\<lparr>item_completed := \<not> item_completed x, item_updatedAt := clock w\<rparr>) (itemsOf w d)"
    using updateFirst_found[OF Some, of "\<lambda>y x. x\<lparr>item_completed := \<not> item_completed y, item_updatedAt := clock w\<rparr>"] by simp
  with ok Some show ?thesis
    by (simp add: toggleItem_def getDayData_split findItem_itemsOf itemsOf_afterRead afterRead_ok afterRead_clock
        itemsOf_updateChecklistItem assignUpdates_def)
qed

lemma notesOf_toggleItem: "store_ok w \<Longrightarrow> notesOf (toggleItem d i w) d' = notesOf w d'"
  by (simp add: toggleItem_def getDayData_split afterRead_ok notesOf_afterRead notesOf_updateChecklistItem split: option.splits)

lemma updateFirst_twice:
  "(\<And>x. p (f x) = p x) \<Longrightarrow> updateFirst p g (updateFirst p f xs) = updateFirst p (\<lambda>x. g (f x)) xs"
  by (induction xs) auto

lemma updateFirst_cong_found:
  "(case find p xs of None \<Rightarrow> True | Some x \<Rightarrow> f x = g x) \<Longrightarrow> updateFirst p f xs = updateFirst p g xs"
  by (induction xs) (auto split: if_splits)

lemma filter_fresh: "k \<notin> set (map f xs) \<Longrightarrow> filter (\<lambda>x. f x \<noteq> k) xs = xs"
  by (induction xs) auto

lemma updateFirst_snoc:
  "\<forall>x\<in>set xs. \<not> p x \<Longrightarrow> p y \<Longrightarrow> updateFirst p f (xs @ [y]) = xs @ [f y]"
  by (induction xs) auto

lemma roundTrip_AddNote:
  assumes "store_ok w" "restorable (AddNoteCommand b noteId content) w"
  shows "restoredBy (AddNoteCommand b noteId content) w (roundTrip (AddNoteCommand b noteId content) w)"
  using assms
  by (auto simp: restoredBy_def roundTrip_def case_prod_beta Let_def addNote_fst nextUUID_def
       notesOf_deleteNote itemsOf_deleteNote addNote_ok notesOf_addNote itemsOf_addNote filter_fresh)

lemma roundTrip_EditNote:
  assumes "store_ok w" "restorable (EditNoteCommand b noteId old new) w"
  shows "restoredBy (EditNoteCommand b noteId old new) w (roundTrip (EditNoteCommand b noteId old new) w)"
proof -
  let ?p = "\<lambda>x. note_id x = noteId"
  let ?h = "\<lambda>x. x\<lparr>note_content := new, note_updatedAt := clock w, note_content := old, note_updatedAt := clock w\<rparr>"
  have v: "updateFirst ?p ?h (notesOf w (base_dateKey b)) = updateFirst ?p (touchedNote (clock w)) (notesOf w (base_dateKey b))"
    using assms(2) by (intro updateFirst_cong_found) (auto simp: touchedNote_def split: option.splits)
  show ?thesis using assms(1) v
    by (auto simp: restoredBy_def roundTrip_def Let_def updateNote_ok updateNote_clock
        notesOf_updateNote itemsOf_updateNote updateFirst_twice)
qed

lemma roundTrip_DeleteNote:
  assumes "store_ok w" "restorable (DeleteNoteCommand b noteId dn) w"
  shows "restoredBy (DeleteNoteCommand b noteId dn) w (roundTrip (DeleteNoteCommand b noteId dn) w)"
  using assms
  by (auto simp: restoredBy_def roundTrip_def case_prod_beta Let_def getDayData_split findNote_notesOf
       afterRead_ok notesOf_afterRead itemsOf_afterRead deleteNote_ok notesOf_deleteNote itemsOf_deleteNote
       notesOf_addNote itemsOf_addNote addNote_fst readdedNote_def nextUUID_def
       deleteNote_uuid afterRead_uuid deleteNote_clock afterRead_clock
       split: option.splits)

lemma roundTrip_AddChecklistItem:
  assumes "store_ok w" "restorable (AddChecklistItemCommand b itemId txt) w"
  shows "restoredBy (AddChecklistItemCommand b itemId txt) w (roundTrip (AddChecklistItemCommand b itemId txt) w)"
  using assms
  by (auto simp: restoredBy_def roundTrip_def case_prod_beta Let_def addChecklistItem_fst nextUUID_def
       notesOf_deleteChecklistItem itemsOf_deleteChecklistItem addChecklistItem_ok notesOf_addChecklistItem
       itemsOf_addChecklistItem filter_fresh)

lemma roundTrip_EditChecklistItem:
  assumes "store_ok w" "restorable (EditChecklistItemCommand b itemId old new) w"
  shows "restoredBy (EditChecklistItemCommand b itemId old new) w (roundTrip (EditChecklistItemCommand b itemId old new) w)"
proof -
  let ?p = "\<lambda>x. item_id x = itemId"
  let ?h = "\<lambda>x. (assignUpdates \<lparr>upd_text = Some old, upd_completed = None\<rparr>
               ((assignUpdates \<lparr>upd_text = Some new, upd_completed = None\<rparr> x)\<lparr>item_updatedAt := clock w\<rparr>))\<lparr>item_updatedAt := clock w\<rparr>"
  have v: "updateFirst ?p ?h (itemsOf w (base_dateKey b)) = updateFirst ?p (touchedItem (clock w)) (itemsOf w (base_dateKey b))"
    using assms(2) by (intro updateFirst_cong_found) (auto simp: touchedItem_def assignUpdates_def split: option.splits)
  have p: "\<And>x. ?p ((assignUpdates \<lparr>upd_text = Some new, upd_completed = None\<rparr> x)\<lparr>item_updatedAt := clock w\<rparr>) = ?p x"
    by (simp add: assignUpdates_def)
  show ?thesis using assms(1) v
    by (auto simp: restoredBy_def roundTrip_def Let_def updateChecklistItem_ok updateChecklistItem_clock
        notesOf_updateChecklistItem itemsOf_updateChecklistItem updateFirst_twice[of ?p, OF p])
qed

lemma roundTrip_Toggle:
  assumes "store_ok w"
  shows "restoredBy (ToggleChecklistItemCommand b itemId) w (roundTrip (ToggleChecklistItemCommand b itemId) w)"
proof -
  let ?p = "\<lambda>x. item_id x = itemId"
  let ?f = "\<lambda>x. x\<lparr>item_completed := \<not> item_completed x, item_updatedAt := clock w\<rparr>"
  let ?h = "\<lambda>x. ?f (?f x)"
  have h: "?h = touchedItem (clock w)" by (auto simp: touchedItem_def)
  have p: "\<And>x. ?p (?f x) = ?p x" by simp
  have "updateFirst ?p ?f (updateFirst ?p ?f (itemsOf w (base_dateKey b)))
              = updateFirst ?p ?h (itemsOf w (base_dateKey b))"
    by (rule updateFirst_twice[of ?p ?f ?f, OF p])
  then have tw: "updateFirst ?p ?f (updateFirst ?p ?f (itemsOf w (base_dateKey b)))
              = updateFirst ?p (touchedItem (clock w)) (itemsOf w (base_dateKey b))"
    by (simp only: h)
  show ?thesis using assms(1) tw
    by (simp add: restoredBy_def roundTrip_def Let_def toggleItem_ok toggleItem_clock
        notesOf_toggleItem itemsOf_toggleItem)
qed

lemma roundTrip_DeleteChecklistItem:
  assumes "store_ok w" "restorable (DeleteChecklistItemCommand b itemId di) w"
  shows "restoredBy (DeleteChecklistItemCommand b itemId di) w (roundTrip (DeleteChecklistItemCommand b itemId di) w)"
proof -
  let ?d = "base_dateKey b"
  let ?xs = "itemsOf w ?d"
  let ?rest = "filter (\<lambda>x. item_id x \<noteq> itemId) ?xs"
  let ?w1 = "deleteChecklistItem ?d itemId (afterRead ?d w)"
  have ok1: "store_ok ?w1" using assms(1) by (simp add: afterRead_ok deleteChecklistItem_ok)
  have items1: "itemsOf ?w1 ?d = ?rest"
    using assms(1) by (simp add: afterRead_ok itemsOf_deleteChecklistItem itemsOf_afterRead)
  have other1: "\<And>d'. d' \<noteq> ?d \<Longrightarrow> itemsOf ?w1 d' = itemsOf w d'"
    using assms(1) by (simp add: afterRead_ok itemsOf_deleteChecklistItem itemsOf_afterRead)
  have notes1: "\<And>d'. notesOf ?w1 d' = notesOf w d'"
    using assms(1) by (simp add: afterRead_ok notesOf_deleteChecklistItem notesOf_afterRead)
  have next1: "uuidSource ?w1 (uuidsDrawn ?w1) = nextUUID w"
    by (simp add: nextUUID_def deleteChecklistItem_uuid afterRead_uuid)
  have clock1: "clock ?w1 = clock w" by (simp add: deleteChecklistItem_clock afterRead_clock)
  have fresh: "\<forall>x\<in>set ?rest. item_id x \<noteq> nextUUID w"
    using assms(2) by (auto simp: image_iff)
  show ?thesis
  proof (cases "find (\<lambda>x. item_id x = itemId) ?xs")
    case None
    with assms(1) items1 other1 notes1 show ?thesis
      by (auto simp: restoredBy_def roundTrip_def case_prod_beta Let_def getDayData_split findItem_itemsOf)
  next
    case (Some x)
    let ?a = "addChecklistItem ?d (item_text x) ?w1"
    have a: "fst ?a = (readdedItem w ?d ?rest x)\<lparr>item_completed := False\<rparr>"
      by (simp add: addChecklistItem_fst next1 clock1 items1 readdedItem_def)
    have ida: "item_id (fst ?a) = nextUUID w" by (simp add: a readdedItem_def)
    have itemsa: "itemsOf (snd ?a) ?d = ?rest @ [fst ?a]"
      using ok1 items1 by (simp add: itemsOf_addChecklistItem)
    have clocka: "clock (snd ?a) = clock w" by (simp add: addChecklistItem_clock clock1)
    have upd: "updateFirst (\<lambda>y. item_id y = nextUUID w) g (?rest @ [fst ?a]) = ?rest @ [g (fst ?a)]" for g
      using fresh ida by (intro updateFirst_snoc) auto
    have fin: "item_completed x \<Longrightarrow>
        (assignUpdates \<lparr>upd_text = None, upd_completed = Some True\<rparr> (fst ?a))\<lparr>item_updatedAt := clock w\<rparr>
          = readdedItem w ?d ?rest x"
      by (simp add: a assignUpdates_def readdedItem_def)
    have fin2: "\<not> item_completed x \<Longrightarrow> fst ?a = readdedItem w ?d ?rest x"
      by (simp add: a readdedItem_def)
    show ?thesis using Some assms(1) ok1 items1 other1 notes1 itemsa upd ida fin fin2 clocka
      by (auto simp: restoredBy_def roundTrip_def case_prod_beta Let_def getDayData_split findItem_itemsOf
          addChecklistItem_ok itemsOf_addChecklistItem notesOf_addChecklistItem
          itemsOf_updateChecklistItem notesOf_updateChecklistItem)
  qed
qed

section \<open>Execute followed by undo of the catalog commands\<close>

lemma finalIndex_notin: "x \<notin> set ys \<Longrightarrow> finalIndex x ys j cur = cur"
  by (induction ys arbitrary: j) auto

lemma reorderLoop_sorted:
  "distinct ids \<Longrightarrow> sorted (map item_order (reorderLoop m t ids k))
      \<and> (\<forall>y\<in>set (reorderLoop m t ids k). int k \<le> item_order y)"
proof (induction ids arbitrary: k)
  case Nil
  then show ?case by simp
next
  case (Cons x xs)
  from Cons.prems have dxs: "distinct xs" by simp
  from Cons.IH[OF dxs, of "Suc k"]
  have ih1: "sorted (map item_order (reorderLoop m t xs (Suc k)))"
    and ih2: "\<forall>y\<in>set (reorderLoop m t xs (Suc k)). int (Suc k) \<le> item_order y"
    by simp_all
  from ih2 have ih3: "\<forall>y\<in>set (reorderLoop m t xs (Suc k)). int k \<le> item_order y"
    by fastforce
  note ih = ih1 ih3
  from Cons.prems have "finalIndex x xs (Suc k) k = k" by (simp add: finalIndex_notin)
  with ih show ?case by (auto split: option.splits)
qed

lemma itemMap_distinct: "distinct (map item_id xs) \<Longrightarrow> itemMap xs i = find (\<lambda>x. item_id x = i) xs"
proof (induction xs)
  case Nil
  then show ?case by (simp add: itemMap_def)
next
  case (Cons a xs)
  then have ih: "itemMap xs i = find (\<lambda>x. item_id x = i) xs" by simp
  have step: "itemMap (a # xs) i = (case itemMap xs i of Some y \<Rightarrow> Some y | None \<Rightarrow> if i = item_id a then Some a else None)"
    by (auto simp: itemMap_def map_add_def split: option.splits)
  show ?case
  proof (cases "item_id a = i")
    case True
    with Cons.prems have "find (\<lambda>x. item_id x = i) xs = None"
      by (auto simp: find_None_iff image_iff)
    with True ih step show ?thesis by simp
  next
    case False
    with ih step show ?thesis by (auto split: option.splits)
  qed
qed

lemma find_self: "distinct (map f xs) \<Longrightarrow> x \<in> set xs \<Longrightarrow> find (\<lambda>y. f y = f x) xs = Some x"
proof (induction xs)
  case Nil
  then show ?case by simp
next
  case (Cons a xs)
  then show ?case by (auto simp: image_iff)
qed

lemma reorderLoop_ids:
  "(\<And>i x. m i = Some x \<Longrightarrow> item_id x = i) \<Longrightarrow>
   map item_id (reorderLoop m t ids k) = filter (\<lambda>i. m i \<noteq> None) ids"
  by (induction ids arbitrary: k) (auto split: option.splits)

lemma itemMap_id: "distinct (map item_id xs) \<Longrightarrow> itemMap xs i = Some x \<Longrightarrow> item_id x = i \<and> x \<in> set xs"
  by (auto simp: itemMap_distinct find_Some_iff)

lemma reorderLoop_has:
  "i \<in> set ids \<Longrightarrow> m i = Some x \<Longrightarrow>
   \<exists>a. x\<lparr>item_order := a, item_updatedAt := t\<rparr> \<in> set (reorderLoop m t ids k)"
proof (induction ids arbitrary: k)
  case Nil
  then show ?case by simp
next
  case (Cons a ids)
  then show ?case by (auto split: option.splits)
qed

lemma reorderLoop_listed:
  assumes "distinct (map item_id zs)"
    and "\<forall>x\<in>set zs. \<exists>a. M (item_id x) = Some (x\<lparr>item_order := a, item_updatedAt := t\<rparr>)"
  shows "reorderLoop M t (map item_id zs) k
           = map (\<lambda>(j, x). x\<lparr>item_order := int j, item_updatedAt := t\<rparr>) (enumerate k zs)"
  using assms
proof (induction zs arbitrary: k)
  case Nil
  then show ?case by simp
next
  case (Cons z zs)
  from Cons.prems(2) obtain a where a: "M (item_id z) = Some (z\<lparr>item_order := a, item_updatedAt := t\<rparr>)"
    by auto
  from Cons.prems(1) have "item_id z \<notin> set (map item_id zs)" by simp
  then have fi: "finalIndex (item_id z) (map item_id zs) (Suc k) k = k" by (rule finalIndex_notin)
  from Cons.prems have ih: "reorderLoop M t (map item_id zs) (Suc k)
           = map (\<lambda>(j, x). x\<lparr>item_order := int j, item_updatedAt := t\<rparr>) (enumerate (Suc k) zs)"
    by (intro Cons.IH) auto
  show ?case by (simp add: a fi ih)
qed

lemma reorder_back:
  assumes dx: "distinct (map item_id xs)" and dn: "distinct newOrder"
    and sub: "set (map item_id xs) \<subseteq> set newOrder"
  shows "reorderLoop (itemMap (reorderLoop (itemMap xs) t newOrder 0)) t (map item_id xs) 0 = renumbered t xs"
proof -
  let ?ys = "reorderLoop (itemMap xs) t newOrder 0"
  have ids: "map item_id ?ys = filter (\<lambda>i. itemMap xs i \<noteq> None) newOrder"
    using itemMap_id[OF dx] by (intro reorderLoop_ids) auto
  have dy: "distinct (map item_id ?ys)" using dn by (simp add: ids)
  have "\<forall>x\<in>set xs. \<exists>a. itemMap ?ys (item_id x) = Some (x\<lparr>item_order := a, item_updatedAt := t\<rparr>)"
  proof
    fix x assume x: "x \<in> set xs"
    have mx: "itemMap xs (item_id x) = Some x" using dx x by (simp add: itemMap_distinct find_self)
    have "item_id x \<in> set newOrder" using sub x by auto
    from reorderLoop_has[of "item_id x" newOrder "itemMap xs" x t 0, OF this mx] obtain a where
      a: "x\<lparr>item_order := a, item_updatedAt := t\<rparr> \<in> set ?ys" by blast
    from find_self[OF dy a] have "find (\<lambda>y. item_id y = item_id x) ?ys = Some (x\<lparr>item_order := a, item_updatedAt := t\<rparr>)"
      by simp
    then show "\<exists>a. itemMap ?ys (item_id x) = Some (x\<lparr>item_order := a, item_updatedAt := t\<rparr>)"
      using dy by (auto simp: itemMap_distinct)
  qed
  from reorderLoop_listed[OF dx this, of 0] show ?thesis by (simp add: renumbered_def)
qed

lemma roundTrip_Reorder:
  assumes "store_ok w" "restorable (ReorderChecklistCommand b newOrder oldOrder) w"
  shows "restoredBy (ReorderChecklistCommand b newOrder oldOrder) w (roundTrip (ReorderChecklistCommand b newOrder oldOrder) w)"
proof -
  let ?d = "base_dateKey b"
  let ?xs = "itemsOf w ?d"
  let ?t = "clock w"
  let ?w1 = "reorderChecklistItems ?d newOrder (afterRead ?d w)"
  let ?ys = "reorderLoop (itemMap ?xs) ?t newOrder 0"
  from assms(2) have dx: "distinct (map item_id ?xs)" and dn: "distinct newOrder"
    and sub: "set (map item_id ?xs) \<subseteq> set newOrder" by auto
  have ok1: "store_ok ?w1" using assms(1) by (simp add: afterRead_ok reorderChecklistItems_ok)
  have items1: "itemsOf ?w1 ?d = ?ys"
    using assms(1) reorderLoop_sorted[OF dn, of "itemMap ?xs" ?t 0]
    by (simp add: afterRead_ok afterRead_clock itemsOf_reorderChecklistItems itemsOf_afterRead sortChecklist_sorted)
  have other1: "\<And>d'. d' \<noteq> ?d \<Longrightarrow> itemsOf ?w1 d' = itemsOf w d'"
    using assms(1) by (simp add: afterRead_ok itemsOf_reorderChecklistItems itemsOf_afterRead)
  have notes1: "\<And>d'. notesOf ?w1 d' = notesOf w d'"
    using assms(1) by (simp add: afterRead_ok notesOf_reorderChecklistItems notesOf_afterRead)
  have clock1: "clock ?w1 = ?t" by (simp add: reorderChecklistItems_clock afterRead_clock)
  define old where "old = (case readDay w ?d of None \<Rightarrow> oldOrder | Some dd \<Rightarrow> map item_id (sortChecklist (day_checklist dd)))"
  define w2 where "w2 = (if length old > 0 then reorderChecklistItems ?d old ?w1 else ?w1)"
  have rt: "roundTrip (ReorderChecklistCommand b newOrder oldOrder) w = w2"
    by (simp add: roundTrip_def getDayData_split w2_def old_def)
  have other2: "\<And>d'. d' \<noteq> ?d \<Longrightarrow> itemsOf w2 d' = itemsOf w d'"
    using ok1 other1 by (simp add: itemsOf_reorderChecklistItems w2_def)
  have notes2: "\<And>d'. notesOf w2 d' = notesOf w d'"
    using ok1 notes1 by (simp add: notesOf_reorderChecklistItems w2_def)
  have items2: "itemsOf w2 ?d = renumbered ?t ?xs"
  proof (cases "readDay w ?d")
    case None
    then have xs: "?xs = []" by (simp add: itemsOf_def)
    then have ys: "?ys = []" by (simp add: itemMap_def reorderLoop_empty)
    show ?thesis using None ok1 items1 xs ys
      by (simp add: w2_def itemsOf_reorderChecklistItems itemMap_def reorderLoop_empty sortChecklist_def renumbered_def)
  next
    case (Some dd)
    then have old: "old = map item_id ?xs"
      using readDay_sorted[OF Some] by (simp add: itemsOf_def old_def)
    show ?thesis
    proof (cases "?xs = []")
      case True
      then have "?ys = []" by (simp add: itemMap_def reorderLoop_empty)
      with True old items1 show ?thesis by (simp add: w2_def renumbered_def)
    next
      case False
      have srt: "sortChecklist (reorderLoop (itemMap ?ys) ?t (map item_id ?xs) 0) = reorderLoop (itemMap ?ys) ?t (map item_id ?xs) 0"
        using reorderLoop_sorted[OF dx, of "itemMap ?ys" ?t 0] by (simp add: sortChecklist_sorted)
      from False old have "itemsOf w2 ?d = reorderLoop (itemMap ?ys) ?t (map item_id ?xs) 0"
        using ok1 items1 clock1 srt by (simp add: itemsOf_reorderChecklistItems w2_def)
      then show ?thesis using reorder_back[OF dx dn sub] by simp
    qed
  qed
  show ?thesis
    unfolding rt restoredBy_def
    using items2 other2 notes2
    by (auto simp: Let_def)
qed

lemma sameViews_iff:
  "sameViews w w' = (\<forall>d. map noteView (notesOf w' d) = map noteView (notesOf w d)
                        \<and> map itemView (itemsOf w' d) = map itemView (itemsOf w d))"
  by (simp add: sameViews_def dayView_def)

lemma sameViews_refl: "sameViews w w"
  by (simp add: sameViews_def)

lemma sameViews_trans: "sameViews a b \<Longrightarrow> sameViews b c \<Longrightarrow> sameViews a c"
  by (simp add: sameViews_def)

lemma sameViews_sym: "sameViews a b \<Longrightarrow> sameViews b a"
  by (simp add: sameViews_def)

lemma map_updateFirst_view:
  assumes "\<And>x. q (g x) = p x" "\<And>x. g (f x) = f' (g x)"
  shows "map g (updateFirst p f xs) = updateFirst q f' (map g xs)"
  by (induction xs) (simp_all add: assms)

lemma map_filter_view:
  assumes "\<And>x. q (g x) = p x"
  shows "map g (filter p xs) = filter q (map g xs)"
  by (induction xs) (simp_all add: assms)

lemma map_pair_insort:
  "map (\<lambda>x. (k x, f x)) (insort_key k x ys) = insort_key fst (k x, f x) (map (\<lambda>x. (k x, f x)) ys)"
  by (induction ys) auto

lemma map_pair_sort:
  "map (\<lambda>x. (k x, f x)) (sort_key k xs) = sort_key fst (map (\<lambda>x. (k x, f x)) xs)"
  by (induction xs) (simp_all add: map_pair_insort)

lemma sort_key_view:
  assumes "map (\<lambda>x. (k x, f x)) xs = map (\<lambda>x. (k x, f x)) ys"
  shows "map f (sort_key k xs) = map f (sort_key k ys)"
proof -
  have "map f (sort_key k zs) = map snd (sort_key fst (map (\<lambda>x. (k x, f x)) zs))" for zs
    using map_pair_sort[of k f zs, symmetric] by (simp add: comp_def)
  with assms show ?thesis by simp
qed

lemma itemView_touch: "itemView (x\<lparr>item_order := a, item_updatedAt := b\<rparr>) = itemView x"
  by (simp add: itemView_def)

lemma reorderLoop_view:
  assumes "\<And>i. map_option itemView (m i) = map_option itemView (m' i)"
  shows "map (\<lambda>x. (item_order x, itemView x)) (reorderLoop m t ids k)
           = map (\<lambda>x. (item_order x, itemView x)) (reorderLoop m' t' ids k)"
proof (induction ids arbitrary: k)
  case Nil
  then show ?case by simp
next
  case (Cons a ids)
  show ?case
  proof (cases "m a")
    case None
    with assms[of a] have "m' a = None" by simp
    with None Cons show ?thesis by simp
  next
    case (Some x)
    with assms[of a] obtain y where y: "m' a = Some y" "itemView y = itemView x" by (cases "m' a") auto
    with Some Cons show ?thesis by (simp add: itemView_touch)
  qed
qed

lemma map_of_view:
  "map_option g (map_of (map (\<lambda>x. (f x, x)) xs) i) = map_of (map (\<lambda>x. (f x, g x)) xs) i"
  by (induction xs) auto

lemma itemMap_view:
  assumes "map itemView xs = map itemView ys"
  shows "map_option itemView (itemMap xs i) = map_option itemView (itemMap ys i)"
proof -
  have "map_option itemView (itemMap zs i) = map_of (map (\<lambda>v. (fst v, v)) (rev (map itemView zs))) i" for zs
    using map_of_view[of itemView item_id "rev zs" i]
    by (simp add: itemMap_def rev_map comp_def itemView_def)
  with assms show ?thesis by simp
qed

lemma reorder_views:
  assumes "map itemView xs = map itemView ys"
  shows "map itemView (sortChecklist (reorderLoop (itemMap xs) t ids 0))
           = map itemView (sortChecklist (reorderLoop (itemMap ys) t' ids 0))"
  unfolding sortChecklist_def
  by (intro sort_key_view reorderLoop_view itemMap_view assms)

lemma deleteNote_views:
  assumes "store_ok wa" "store_ok wb" "sameViews wa wb"
  shows "sameViews (deleteNote d n wa) (deleteNote d n wb)"
  using assms
  by (simp add: sameViews_iff notesOf_deleteNote itemsOf_deleteNote
        map_filter_view[of "\<lambda>v. fst v \<noteq> n" noteView "\<lambda>x. note_id x \<noteq> n"] noteView_def)

lemma deleteChecklistItem_views:
  assumes "store_ok wa" "store_ok wb" "sameViews wa wb"
  shows "sameViews (deleteChecklistItem d n wa) (deleteChecklistItem d n wb)"
  using assms
  by (simp add: sameViews_iff notesOf_deleteChecklistItem itemsOf_deleteChecklistItem
        map_filter_view[of "\<lambda>v. fst v \<noteq> n" itemView "\<lambda>x. item_id x \<noteq> n"] itemView_def)

lemma updateNote_views:
  assumes "store_ok wa" "store_ok wb" "sameViews wa wb"
  shows "sameViews (updateNote d n c wa) (updateNote d n c wb)"
proof -
  have "map noteView (updateFirst (\<lambda>x. note_id x = n) (\<lambda>x. x\<lparr>note_content := c, note_updatedAt := t\<rparr>) xs)
          = updateFirst (\<lambda>v. fst v = n) (\<lambda>(i, c0, cr). (i, c, cr)) (map noteView xs)" for t xs
    by (rule map_updateFirst_view) (simp_all add: noteView_def)
  with assms show ?thesis
    by (simp add: sameViews_iff notesOf_updateNote itemsOf_updateNote)
qed

lemma updateChecklistItem_views:
  assumes "store_ok wa" "store_ok wb" "sameViews wa wb"
  shows "sameViews (updateChecklistItem d n u wa) (updateChecklistItem d n u wb)"
proof -
  have "map itemView (updateFirst (\<lambda>x. item_id x = n) (\<lambda>x. (assignUpdates u x)\<lparr>item_updatedAt := t\<rparr>) xs)
          = updateFirst (\<lambda>v. fst v = n)
              (\<lambda>(i, t0, c0, r). (i, (case upd_text u of None \<Rightarrow> t0 | Some t1 \<Rightarrow> t1),
                                 (case upd_completed u of None \<Rightarrow> c0 | Some c1 \<Rightarrow> c1), r))
              (map itemView xs)" for t xs
    by (rule map_updateFirst_view) (simp_all add: itemView_def assignUpdates_def)
  with assms show ?thesis
    by (simp add: sameViews_iff notesOf_updateChecklistItem itemsOf_updateChecklistItem)
qed

lemma toggleItem_views:
  assumes "store_ok wa" "store_ok wb" "sameViews wa wb"
  shows "sameViews (toggleItem d n wa) (toggleItem d n wb)"
proof -
  have "map itemView (updateFirst (\<lambda>x. item_id x = n)
                        (\<lambda>x. x\<lparr>item_completed := \<not> item_completed x, item_updatedAt := t\<rparr>) xs)
          = updateFirst (\<lambda>v. fst v = n) (\<lambda>(i, t0, c0, r). (i, t0, \<not> c0, r)) (map itemView xs)" for t xs
    by (rule map_updateFirst_view) (simp_all add: itemView_def)
  with assms show ?thesis
    by (simp add: sameViews_iff notesOf_toggleItem itemsOf_toggleItem)
qed

lemma reorderChecklistItems_views:
  assumes "store_ok wa" "store_ok wb" "sameViews wa wb"
  shows "sameViews (reorderChecklistItems d ids wa) (reorderChecklistItems d ids wb)"
  using assms reorder_views[of "itemsOf wb d" "itemsOf wa d" "clock wb" ids "clock wa"]
  by (simp add: sameViews_iff notesOf_reorderChecklistItems itemsOf_reorderChecklistItems)

lemma execute_ok:
  shows "store_ok w \<Longrightarrow> store_ok (snd (command_execute c w))"
    and "store_ok w \<Longrightarrow> store_ok (snd (executeEach cs w))"
proof (induction c w and cs w rule: command_execute_executeEach.induct)
  case (1 b noteId content w)
  then show ?case by (simp add: case_prod_beta addNote_ok)
next
  case (2 b noteId oldContent newContent w)
  then show ?case by (simp add: updateNote_ok)
next
  case (3 b noteId deletedNote w)
  then show ?case by (simp add: getDayData_split afterRead_ok deleteNote_ok)
next
  case (4 b itemId body w)
  then show ?case by (simp add: case_prod_beta addChecklistItem_ok)
next
  case (5 b itemId oldText newText w)
  then show ?case by (simp add: updateChecklistItem_ok)
next
  case (6 b itemId w)
  then show ?case by (simp add: toggleItem_ok)
next
  case (7 b itemId deletedItem w)
  then show ?case by (simp add: getDayData_split afterRead_ok deleteChecklistItem_ok)
next
  case (8 b newOrder oldOrder w)
  then show ?case by (simp add: getDayData_split afterRead_ok reorderChecklistItems_ok)
next
  case (9 b commands description w)
  then show ?case by (simp add: case_prod_beta)
next
  case (10 w)
  then show ?case by simp
next
  case (11 c cs w)
  then show ?case by (simp add: case_prod_beta prod_eq_iff)
qed

lemma undo_ok:
  shows "store_ok w \<Longrightarrow> store_ok (command_undo c w)"
    and "store_ok w \<Longrightarrow> store_ok (undoEach cs w)"
proof (induction c w and cs w rule: command_undo_undoEach.induct)
  case (1 b noteId content w)
  then show ?case by (simp add: deleteNote_ok split: option.splits)
next
  case (2 b noteId oldContent newContent w)
  then show ?case by (simp add: updateNote_ok)
next
  case (3 b noteId deletedNote w)
  then show ?case by (simp add: addNote_ok split: option.splits)
next
  case (4 b itemId body w)
  then show ?case by (simp add: deleteChecklistItem_ok split: option.splits)
next
  case (5 b itemId oldText newText w)
  then show ?case by (simp add: updateChecklistItem_ok)
next
  case (6 b itemId w)
  then show ?case by (simp add: toggleItem_ok)
next
  case (7 b itemId deletedItem w)
  then show ?case
    by (simp add: case_prod_beta addChecklistItem_ok updateChecklistItem_ok split: option.splits)
next
  case (8 b newOrder oldOrder w)
  then show ?case by (simp add: reorderChecklistItems_ok)
next
  case (9 b commands description w)
  then show ?case by simp
next
  case (10 w)
  then show ?case by simp
next
  case (11 c cs w)
  then show ?case by simp
qed

lemma execute_deleteFree:
  shows "deleteFree (fst (command_execute c w)) = deleteFree c"
    and "deleteFreeEach (fst (executeEach cs w)) = deleteFreeEach cs"
proof (induction c w and cs w rule: command_execute_executeEach.induct)
  case (11 c cs w)
  then show ?case by (simp add: case_prod_beta prod_eq_iff)
qed (simp_all add: case_prod_beta)

lemma restorable_deleteFree:
  shows "restorable c w \<Longrightarrow> \<not> isDelete c \<Longrightarrow> deleteFree c"
    and "restorableEach cs w \<Longrightarrow> deleteFreeEach cs"
proof (induction c w and cs w rule: restorable_restorableEach.induct)
qed simp_all

lemma undo_views:
  shows "deleteFree c \<Longrightarrow> store_ok wa \<Longrightarrow> store_ok wb \<Longrightarrow> sameViews wa wb
     \<Longrightarrow> sameViews (command_undo c wa) (command_undo c wb)"
    and "deleteFreeEach cs \<Longrightarrow> store_ok wa \<Longrightarrow> store_ok wb \<Longrightarrow> sameViews wa wb
     \<Longrightarrow> sameViews (undoEach cs wa) (undoEach cs wb)"
proof (induction c wa and cs wa arbitrary: wb and wb rule: command_undo_undoEach.induct)
  case (1 b noteId content w)
  then show ?case by (simp add: deleteNote_views split: option.splits)
next
  case (2 b noteId oldContent newContent w)
  then show ?case by (simp add: updateNote_views)
next
  case (3 b noteId deletedNote w)
  then show ?case by simp
next
  case (4 b itemId body w)
  then show ?case by (simp add: deleteChecklistItem_views split: option.splits)
next
  case (5 b itemId oldText newText w)
  then show ?case by (simp add: updateChecklistItem_views)
next
  case (6 b itemId w)
  then show ?case by (simp add: toggleItem_views)
next
  case (7 b itemId deletedItem w)
  then show ?case by simp
next
  case (8 b newOrder oldOrder w)
  then show ?case by (simp add: reorderChecklistItems_views)
next
  case (9 b commands description w)
  then show ?case by simp
next
  case (10 w)
  then show ?case by simp
next
  case (11 c cs w)
  then show ?case by (simp add: undo_ok)
qed

lemma restored_sameViews:
  assumes "\<not> isBatch c" "\<not> isDelete c" "restoredBy c w w2"
  shows "sameViews w w2"
proof -
  have n: "map noteView (updateFirst p (touchedNote t) xs) = map noteView xs" for p t xs
    by (rule map_updateFirst) (simp add: touchedNote_def noteView_def)
  have i: "map itemView (updateFirst p (touchedItem t) xs) = map itemView xs" for p t xs
    by (rule map_updateFirst) (simp add: touchedItem_def itemView_def)
  have r: "map itemView (renumbered t xs) = map itemView xs" for t xs
  proof -
    have "map itemView (map (\<lambda>(k, i). i\<lparr>item_order := int k, item_updatedAt := t\<rparr>) (enumerate j xs)) = map itemView xs" for j
      by (induction xs arbitrary: j) (simp_all add: itemView_touch)
    then show ?thesis by (simp add: renumbered_def)
  qed
  let ?d0 = "base_dateKey (command_base c)"
  from assms(1,3) have A: "notesOf w2 ?d0 = expectedNotes c w" and B: "itemsOf w2 ?d0 = expectedItems c w"
    and C: "\<And>d'. d' \<noteq> ?d0 \<Longrightarrow> notesOf w2 d' = notesOf w d' \<and> itemsOf w2 d' = itemsOf w d'"
    by (auto simp: restoredBy_def Let_def)
  have "map noteView (expectedNotes c w) = map noteView (notesOf w ?d0)"
    using assms(2) by (cases c) (simp_all add: n)
  moreover have "map itemView (expectedItems c w) = map itemView (itemsOf w ?d0)"
    using assms(2) by (cases c) (simp_all add: i r)
  ultimately have D: "map noteView (notesOf w2 ?d0) = map noteView (notesOf w ?d0)"
      "map itemView (itemsOf w2 ?d0) = map itemView (itemsOf w ?d0)"
    using A B by simp_all
  show ?thesis unfolding sameViews_iff
  proof (intro allI)
    fix d
    show "map noteView (notesOf w2 d) = map noteView (notesOf w d)
            \<and> map itemView (itemsOf w2 d) = map itemView (itemsOf w d)"
      using C[of d] D by (cases "d = ?d0") simp_all
  qed
qed

lemma roundTrip_views:
  shows "store_ok w \<Longrightarrow> restorable c w \<Longrightarrow> \<not> isDelete c \<Longrightarrow> sameViews w (roundTrip c w)"
    and "store_ok w \<Longrightarrow> restorableEach cs w
           \<Longrightarrow> sameViews w (undoEach (fst (executeEach cs w)) (snd (executeEach cs w)))"
proof (induction c w and cs w rule: command_execute_executeEach.induct)
  case (1 b noteId content w)
  then show ?case by (intro restored_sameViews[OF _ _ roundTrip_AddNote]) simp_all
next
  case (2 b noteId oldContent newContent w)
  then show ?case by (intro restored_sameViews[OF _ _ roundTrip_EditNote]) simp_all
next
  case (3 b noteId deletedNote w)
  then show ?case by simp
next
  case (4 b itemId body w)
  then show ?case by (intro restored_sameViews[OF _ _ roundTrip_AddChecklistItem]) simp_all
next
  case (5 b itemId oldText newText w)
  then show ?case by (intro restored_sameViews[OF _ _ roundTrip_EditChecklistItem]) simp_all
next
  case (6 b itemId w)
  then show ?case by (intro restored_sameViews[OF _ _ roundTrip_Toggle]) simp_all
next
  case (7 b itemId deletedItem w)
  then show ?case by simp
next
  case (8 b newOrder oldOrder w)
  then show ?case by (intro restored_sameViews[OF _ _ roundTrip_Reorder]) simp_all
next
  case (9 b commands description w)
  then show ?case by (simp add: roundTrip_def case_prod_beta)
next
  case (10 w)
  then show ?case by (simp add: sameViews_refl)
next
  case (11 c cs w)
  define c' where "c' = fst (command_execute c w)"
  define w1 where "w1 = snd (command_execute c w)"
  define cs' where "cs' = fst (executeEach cs w1)"
  define w2 where "w2 = snd (executeEach cs w1)"
  define wa where "wa = undoEach cs' w2"
  from "11.prems" have r: "restorable c w" "\<not> isDelete c" "restorableEach cs w1"
    by (simp_all add: w1_def)
  have ce: "command_execute c w = (c', w1)" by (simp add: c'_def w1_def)
  have ok1: "store_ok w1" using "11.prems"(1) by (simp add: w1_def execute_ok)
  have ok2: "store_ok w2" using ok1 by (simp add: w2_def execute_ok)
  have oka: "store_ok wa" using ok2 by (simp add: wa_def undo_ok)
  have one: "sameViews w (command_undo c' w1)"
    using "11.IH"(1)[OF "11.prems"(1) r(1,2)] by (simp add: roundTrip_def ce)
  have rest: "sameViews w1 wa"
    using "11.IH"(2)[OF ce[symmetric] ok1 r(3)] by (simp add: wa_def cs'_def w2_def)
  have df: "deleteFree c'" using restorable_deleteFree(1)[OF r(1,2)] by (simp add: c'_def execute_deleteFree)
  from undo_views(1)[OF df ok1 oka rest] have "sameViews (command_undo c' w1) (command_undo c' wa)" .
  from sameViews_trans[OF one this] show ?case
    by (simp add: ce case_prod_beta wa_def cs'_def w2_def)
qed

text \<open>
  C4 (amended). On a working store, for a command of the catalog that fits the record
  (\<open>restorable\<close>), \<open>execute()\<close> followed at once by \<open>undo()\<close> leaves every other date as it
  reads, and of the command's date:
  \<^item> after an add command, the notes and the checklist as they were;
  \<^item> after an edit or a toggle, the same but for the \<open>updatedAt\<close> of the target;
  \<^item> after a reorder, the same items in the same order, with their positions as \<open>order\<close>
  numbers and a new \<open>updatedAt\<close>;
  \<^item> after a delete, the other entries as they were and in their order, followed by the
  deleted entry under a new id, with new dates (and \<open>order\<close> number and original date) and
  the content and completed flag it had.

  A batch without delete commands leaves, on every date, the ids, contents, completed
  flags, creation dates and original dates of the notes and items, in their order.
\<close>

theorem execute_undo_restores:
  assumes "store_ok w" and "restorable c w"
  shows "restoredBy c w (roundTrip c w)"
proof (cases c)
  case (AddNoteCommand b noteId content)
  with assms show ?thesis using roundTrip_AddNote by simp
next
  case (EditNoteCommand b noteId old new)
  with assms show ?thesis using roundTrip_EditNote by simp
next
  case (DeleteNoteCommand b noteId dn)
  with assms show ?thesis using roundTrip_DeleteNote by simp
next
  case (AddChecklistItemCommand b itemId body)
  with assms show ?thesis using roundTrip_AddChecklistItem by simp
next
  case (EditChecklistItemCommand b itemId old new)
  with assms show ?thesis using roundTrip_EditChecklistItem by simp
next
  case (ToggleChecklistItemCommand b itemId)
  with assms show ?thesis using roundTrip_Toggle by simp
next
  case (DeleteChecklistItemCommand b itemId di)
  with assms show ?thesis using roundTrip_DeleteChecklistItem by simp
next
  case (ReorderChecklistCommand b newOrder oldOrder)
  with assms show ?thesis using roundTrip_Reorder by simp
next
  case (BatchCommand b commands description)
  with assms roundTrip_views(1)[of w c] show ?thesis
    by (simp add: restoredBy_def sameViews_def)
qed

lemma sample_itemsOf: "itemsOf sampleWorld ''2024-05-01'' = day_checklist sampleDay"
  by (simp add: itemsOf_def readDay_def getDayData_def sampleWorld_def sampleDay_def sortChecklist_def)

lemma sample_notesOf: "notesOf sampleWorld ''2024-05-01'' = day_notes sampleDay"
  by (simp add: notesOf_def readDay_def getDayData_def sampleWorld_def sampleDay_def sortChecklist_def)

lemma sample_ok: "store_ok sampleWorld"
  by (simp add: store_ok_def sampleWorld_def)

theorem execute_undo_restores_witness:
  "store_ok sampleWorld
   \<and> restorable sampleBatch sampleWorld
   \<and> dayView (roundTrip sampleBatch sampleWorld) ''2024-05-01''
       = ([(''n1'', ''a'', 1)],
          [(''A'', ''Buy milk'', True, 1, None), (''B'', ''Call home'', False, 2, None)])
   \<and> restorable (DeleteChecklistItemCommand (sampleBase 0) ''A'' None) sampleWorld
   \<and> itemsOf (roundTrip (DeleteChecklistItemCommand (sampleBase 0) ''A'' None) sampleWorld) ''2024-05-01''
       = [\<lparr>item_id = ''B'', item_text = ''Call home'', item_completed = False, item_order = 1,
           item_createdAt = 2, item_updatedAt = 2, item_originalDate = None\<rparr>,
          \<lparr>item_id = ''uuid-'', item_text = ''Buy milk'', item_completed = True, item_order = 2,
           item_createdAt = 5, item_updatedAt = 5, item_originalDate = Some ''2024-05-01''\<rparr>]
   \<and> notesOf (roundTrip (DeleteChecklistItemCommand (sampleBase 0) ''A'' None) sampleWorld) ''2024-05-01''
       = notesOf sampleWorld ''2024-05-01''"
proof -
  have r1: "restorable sampleBatch sampleWorld"
    by (simp add: sampleBatch_def sampleBase_def sample_notesOf sampleDay_def)
  have r2: "restorable (DeleteChecklistItemCommand (sampleBase 0) ''A'' None) sampleWorld"
    by (simp add: sampleBase_def sample_itemsOf sampleDay_def nextUUID_def) (simp add: sampleWorld_def)
  have b: "isBatch sampleBatch" by (simp add: sampleBatch_def)
  from execute_undo_restores[OF sample_ok r1] b
  have v: "dayView (roundTrip sampleBatch sampleWorld) ''2024-05-01'' = dayView sampleWorld ''2024-05-01''"
    by (simp add: restoredBy_def)
  from execute_undo_restores[OF sample_ok r2]
  have d: "itemsOf (roundTrip (DeleteChecklistItemCommand (sampleBase 0) ''A'' None) sampleWorld) ''2024-05-01''
             = expectedItems (DeleteChecklistItemCommand (sampleBase 0) ''A'' None) sampleWorld"
      "notesOf (roundTrip (DeleteChecklistItemCommand (sampleBase 0) ''A'' None) sampleWorld) ''2024-05-01''
             = notesOf sampleWorld ''2024-05-01''"
    by (simp_all add: restoredBy_def sampleBase_def Let_def)
  have e: "expectedItems (DeleteChecklistItemCommand (sampleBase 0) ''A'' None) sampleWorld
       = [\<lparr>item_id = ''B'', item_text = ''Call home'', item_completed = False, item_order = 1,
           item_createdAt = 2, item_updatedAt = 2, item_originalDate = None\<rparr>,
          \<lparr>item_id = ''uuid-'', item_text = ''Buy milk'', item_completed = True, item_order = 2,
           item_createdAt = 5, item_updatedAt = 5, item_originalDate = Some ''2024-05-01''\<rparr>]"
    by (simp add: sampleBase_def sample_itemsOf sampleDay_def Let_def readdedItem_def nextUUID_def maxOrder_def)
       (simp add: sampleWorld_def)
  show ?thesis using r1 r2 v d e sample_ok
    by (simp add: dayView_def sample_itemsOf sample_notesOf sampleDay_def noteView_def itemView_def)
qed

text \<open>
  A batch with a delete command in it need not restore even the contents: after an edit
  of the note and its deletion, \<open>undo()\<close> adds the note anew with the edited content, and
  the undo of the edit no longer finds the note it names.
\<close>

lemma batch_with_delete_keeps_edit:
  "map note_content (notesOf sampleWorld ''2024-05-01'') = [''a'']
   \<and> map note_content
        (notesOf (roundTrip (BatchCommand (sampleBase 0)
                    [EditNoteCommand (sampleBase 0) ''n1'' ''a'' ''ab'',
                     DeleteNoteCommand (sampleBase 0) ''n1'' None] ''edit and delete'') sampleWorld)
           ''2024-05-01'') = [''ab'']"
proof -
  let ?d = "''2024-05-01''"
  define w1 where "w1 = updateNote ?d ''n1'' ''ab'' sampleWorld"
  define w2 where "w2 = deleteNote ?d ''n1'' (afterRead ?d w1)"
  define w3 where "w3 = snd (addNote ?d ''ab'' w2)"
  define w4 where "w4 = updateNote ?d ''n1'' ''a'' w3"
  have ok1: "store_ok w1" by (simp add: w1_def updateNote_ok sample_ok)
  have n1: "notesOf w1 ?d = [\<lparr>note_id = ''n1'', note_content = ''ab'', note_createdAt = 1, note_updatedAt = 5\<rparr>]"
    using sample_ok by (simp add: w1_def notesOf_updateNote sample_notesOf sampleDay_def) (simp add: sampleWorld_def)
  have ok2: "store_ok w2" using ok1 by (simp add: w2_def deleteNote_ok afterRead_ok)
  have n2: "notesOf w2 ?d = []"
    using ok1 by (simp add: w2_def notesOf_deleteNote afterRead_ok notesOf_afterRead n1)
  have ok3: "store_ok w3" using ok2 by (simp add: w3_def addNote_ok)
  have n3: "map note_content (notesOf w3 ?d) = [''ab''] \<and> map note_id (notesOf w3 ?d) = [''uuid-'']"
    using ok2 by (simp add: w3_def notesOf_addNote n2 addNote_fst)
       (simp add: w2_def w1_def deleteNote_uuid afterRead_uuid updateNote_uuid sampleWorld_def)
  have n4: "map note_content (notesOf w4 ?d) = [''ab'']"
  proof -
    from n3 obtain x where x: "notesOf w3 ?d = [x]" "note_content x = ''ab''" "note_id x = ''uuid-''"
      by (cases "notesOf w3 ?d") auto
    then show ?thesis using ok3 by (simp add: w4_def notesOf_updateNote)
  qed
  have "roundTrip (BatchCommand (sampleBase 0)
                    [EditNoteCommand (sampleBase 0) ''n1'' ''a'' ''ab'',
                     DeleteNoteCommand (sampleBase 0) ''n1'' None] ''edit and delete'') sampleWorld = w4"
    by (simp add: roundTrip_def sampleBase_def getDayData_split findNote_notesOf w1_def[symmetric] n1
          w2_def[symmetric] w3_def[symmetric] w4_def[symmetric])
  with n4 show ?thesis by (simp add: sample_notesOf sampleDay_def)
qed

text \<open>
  C4 as stated fails: deleting the one note of the sample day and undoing the deletion
  leaves a note with another id and other timestamps.
\<close>

theorem delete_note_undo_counterexample:
  "notesOf sampleWorld ''2024-05-01''
     = [\<lparr>note_id = ''n1'', note_content = ''a'', note_createdAt = 1, note_updatedAt = 1\<rparr>]
   \<and> notesOf (roundTrip (DeleteNoteCommand (sampleBase 0) ''n1'' None) sampleWorld) ''2024-05-01''
     = [\<lparr>note_id = ''uuid-'', note_content = ''a'', note_createdAt = 5, note_updatedAt = 5\<rparr>]
   \<and> readDay (roundTrip (DeleteNoteCommand (sampleBase 0) ''n1'' None) sampleWorld) ''2024-05-01''
     \<noteq> readDay sampleWorld ''2024-05-01''"
proof -
  have ok: "store_ok sampleWorld" by (rule sample_ok)
  have a: "notesOf (roundTrip (DeleteNoteCommand (sampleBase 0) ''n1'' None) sampleWorld) ''2024-05-01''
     = [\<lparr>note_id = ''uuid-'', note_content = ''a'', note_createdAt = 5, note_updatedAt = 5\<rparr>]"
    using ok
    by (simp add: roundTrip_def sampleBase_def getDayData_split findNote_notesOf sample_notesOf sampleDay_def
        afterRead_ok deleteNote_ok notesOf_addNote notesOf_deleteNote notesOf_afterRead addNote_fst
        deleteNote_uuid afterRead_uuid deleteNote_clock afterRead_clock)
       (simp add: sampleWorld_def)
  have b: "notesOf sampleWorld ''2024-05-01''
     = [\<lparr>note_id = ''n1'', note_content = ''a'', note_createdAt = 1, note_updatedAt = 1\<rparr>]"
    by (simp add: sample_notesOf sampleDay_def)
  have "notesOf (roundTrip (DeleteNoteCommand (sampleBase 0) ''n1'' None) sampleWorld) ''2024-05-01''
          \<noteq> notesOf sampleWorld ''2024-05-01''"
    unfolding a b by simp
  then have "readDay (roundTrip (DeleteNoteCommand (sampleBase 0) ''n1'' None) sampleWorld) ''2024-05-01''
     \<noteq> readDay sampleWorld ''2024-05-01''"
    by (auto simp: notesOf_def)
  with a b show ?thesis by simp
qed

lemma afterRead_sameRecords: "sameRecords w (afterRead d w)"
  by (auto simp: sameRecords_def afterRead_def getDayData_def readFallback_def initDB_def Let_def
        sortedDay_def sortChecklist_idem split: option.splits if_splits)

text \<open>
  C10. When the day's record, as \<open>getDayData\<close> returns it, holds no checklist item with
  the command's item id (or there is no record), \<open>execute()\<close> and \<open>undo()\<close> of a toggle
  command return without an error, leave the command as it is and leave the records of
  both stores as they are. On a working store every day's record reads as before, and
  with IndexedDB in use nothing at all has changed.
\<close>

theorem toggle_missing_item_noop:
  assumes "findItem itemId (readDay w (base_dateKey b)) = None"
  shows "i_execute catalog (ToggleChecklistItemCommand b itemId) w
           = (Inr (), ToggleChecklistItemCommand b itemId, toggleItem (base_dateKey b) itemId w)
       \<and> i_undo catalog (ToggleChecklistItemCommand b itemId) w
           = (Inr (), ToggleChecklistItemCommand b itemId, toggleItem (base_dateKey b) itemId w)
       \<and> sameRecords w (toggleItem (base_dateKey b) itemId w)
       \<and> (store_ok w \<longrightarrow> (\<forall>d. readDay (toggleItem (base_dateKey b) itemId w) d = readDay w d))
       \<and> (store_ok w \<and> isIndexedDBAvailable w \<longrightarrow> toggleItem (base_dateKey b) itemId w = w)"
proof -
  have t: "toggleItem (base_dateKey b) itemId w = afterRead (base_dateKey b) w"
    using assms by (simp add: toggleItem_def getDayData_split)
  have "store_ok w \<and> isIndexedDBAvailable w \<longrightarrow> afterRead (base_dateKey b) w = w"
    by (simp add: store_ok_def afterRead_def getDayData_def)
  with t show ?thesis
    by (simp add: catalog_def readDay_afterRead afterRead_sameRecords)
qed

theorem toggle_missing_item_noop_witness:
  "store_ok sampleWorld
   \<and> findItem ''Z'' (readDay sampleWorld ''2024-05-01'') = None
   \<and> i_execute catalog (ToggleChecklistItemCommand (sampleBase 0) ''Z'') sampleWorld
       = (Inr (), ToggleChecklistItemCommand (sampleBase 0) ''Z'', sampleWorld)
   \<and> i_undo catalog (ToggleChecklistItemCommand (sampleBase 0) ''Z'') sampleWorld
       = (Inr (), ToggleChecklistItemCommand (sampleBase 0) ''Z'', sampleWorld)"
proof -
  have f: "findItem ''Z'' (readDay sampleWorld (base_dateKey (sampleBase 0))) = None"
    by (simp add: findItem_itemsOf sampleBase_def sample_itemsOf sampleDay_def)
  have a: "isIndexedDBAvailable sampleWorld" by (simp add: sampleWorld_def)
  from toggle_missing_item_noop[OF f] a f show ?thesis
    by (simp add: sample_ok sampleBase_def)
qed

section \<open>The operations of the manager, step by step\<close>

lemma historyState_clock:
  "historyClock h' = historyClock h \<Longrightarrow> historyState ops m h' = historyState ops m h"
  by (simp add: historyState_def split: sum.splits)

lemma initHistoryDB_clock: "historyClock (initHistoryDB h) = historyClock h"
  by (simp add: initHistoryDB_def Let_def)

lemma saveAttempt_clock: "historyClock (snd (saveAttempt ops m h)) = historyClock h"
  by (simp add: saveAttempt_def Let_def initHistoryDB_clock split: sum.splits)

lemma saveAttempt_serial_error:
  "historyState ops m h = Inl e \<Longrightarrow> saveAttempt ops m h = (Inl e, h)"
  by (simp add: saveAttempt_def)

lemma saveHistory_result:
  "fst (saveHistory ops cfg m h) =
     (if enablePersistence cfg then (case historyState ops m h of Inl e \<Rightarrow> Inl e | Inr st \<Rightarrow> Inr ())
      else Inr ())"
proof (cases "historyState ops m h")
  case (Inl e)
  then show ?thesis by (simp add: saveHistory_def saveAttempt_serial_error)
next
  case (Inr st)
  have "historyState ops m (snd (saveAttempt ops m h)) = Inr st"
    using Inr historyState_clock[OF saveAttempt_clock] by metis
  with Inr show ?thesis
    by (cases "saveAttempt ops m h") (auto simp: saveHistory_def split: sum.splits)
qed

lemma saveHistory_put_failure:
  assumes "historyState ops m h = Inr st" "enablePersistence cfg"
    "isHistoryDBAvailable h" "historyDbInstance h" "\<not> durablePuts h"
  shows "saveHistory ops cfg m h =
     (Inr (), h\<lparr>durableRequests := Suc (durableRequests h),
               fallbackHistoryStorage := (fallbackHistoryStorage h)(currentDateKey m \<mapsto> st)\<rparr>)"
  using assms by (simp add: saveHistory_def saveAttempt_def Let_def historyState_def split: sum.splits)

lemma executeCommand_busy:
  "isExecuting (manager S) \<Longrightarrow>
   executeCommand ops cfg c S = (Inl (UndoRedoError ''Cannot execute command while another command is executing''), S)"
  by (simp add: executeCommand_def)

lemma undo_busy: "isExecuting (manager S) \<Longrightarrow> undo ops cfg S = (Inr False, S)"
  by (simp add: undo_def)

lemma redo_busy: "isExecuting (manager S) \<Longrightarrow> redo ops cfg S = (Inr False, S)"
  by (simp add: redo_def)

lemma mergeAttempt_executing:
  "mergeAttempt ops cfg c (S\<lparr>manager := (manager S)\<lparr>isExecuting := b\<rparr>\<rparr>) = mergeAttempt ops cfg c S"
  by (simp add: mergeAttempt_def split: option.splits)

lemma executeBody_push:
  "mergeAttempt ops cfg c S = (None, w0) \<Longrightarrow> executeBody ops cfg c S = pushBranch ops cfg c (S\<lparr>env := w0\<rparr>)"
  by (simp add: executeBody_def)

lemma executeBody_merge:
  "mergeAttempt ops cfg c S = (Some mc, w0) \<Longrightarrow> executeBody ops cfg c S = mergeBranch ops cfg mc (S\<lparr>env := w0\<rparr>)"
  by (simp add: executeBody_def)

lemma pushBranch_success:
  assumes "pushBranch ops cfg c S = (Inr u, applied, S1)"
  shows "manager S1 = notifyListeners (pushed ops c (env S) (manager S))
       \<and> env S1 = snd (snd (i_execute ops c (env S)))
       \<and> fst (i_execute ops c (env S)) = Inr ()
       \<and> saveHistory ops cfg (pushed ops c (env S) (manager S)) (store S) = (Inr (), store S1)"
proof -
  obtain r c1 w1 where ex: "i_execute ops c (env S) = (r, c1, w1)" by (cases "i_execute ops c (env S)") auto
  define m1 where "m1 = (manager S)\<lparr>undoStack := pushTrimmed (maxHistorySize (manager S)) (undoStack (manager S)) (Some c1), redoStack := []\<rparr>"
  have m1: "pushed ops c (env S) (manager S) = m1"
    by (simp add: pushed_def m1_def ex)
  obtain rs h1 where sv: "saveHistory ops cfg m1 (store S) = (rs, h1)" by (cases "saveHistory ops cfg m1 (store S)") auto
  obtain ru c2 w2 where un: "i_undo ops c1 w1 = (ru, c2, w2)" by (cases "i_undo ops c1 w1") auto
  show ?thesis
  proof (cases r)
    case (Inl e)
    with assms ex show ?thesis by (simp add: pushBranch_def Let_def split: if_splits)
  next
    case (Inr v)
    show ?thesis
    proof (cases rs)
      case (Inl pe)
      with assms ex Inr sv un show ?thesis
        by (cases ru) (simp_all add: pushBranch_def Let_def m1_def[symmetric] split: if_splits)
    next
      case (Inr v')
      with assms ex \<open>r = Inr v\<close> sv show ?thesis unfolding m1
        by (auto simp: pushBranch_def Let_def m1_def[symmetric] split: if_splits)
    qed
  qed
qed

lemma executeCommand_push_success:
  assumes "\<not> isExecuting (manager S)" "mergeAttempt ops cfg c S = (None, w0)"
    and "executeCommand ops cfg c S = (Inr u, S1)"
  shows "manager S1 = (notifyListeners (pushed ops c w0 ((manager S)\<lparr>isExecuting := True\<rparr>)))\<lparr>isExecuting := False\<rparr>
       \<and> env S1 = snd (snd (i_execute ops c w0))
       \<and> fst (i_execute ops c w0) = Inr ()
       \<and> saveHistory ops cfg (pushed ops c w0 ((manager S)\<lparr>isExecuting := True\<rparr>)) (store S) = (Inr (), store S1)"
proof -
  let ?S0 = "S\<lparr>manager := (manager S)\<lparr>isExecuting := True\<rparr>, env := w0\<rparr>"
  have b: "executeBody ops cfg c (S\<lparr>manager := (manager S)\<lparr>isExecuting := True\<rparr>\<rparr>) = pushBranch ops cfg c ?S0"
    using assms(2) executeBody_push[of ops cfg c "S\<lparr>manager := (manager S)\<lparr>isExecuting := True\<rparr>\<rparr>" w0]
    by (simp add: mergeAttempt_executing)
  obtain r applied S' where p: "pushBranch ops cfg c ?S0 = (r, applied, S')"
    by (cases "pushBranch ops cfg c ?S0") auto
  from assms(1,3) b p have r: "r = Inr u" and S1: "S1 = S'\<lparr>manager := (manager S')\<lparr>isExecuting := False\<rparr>\<rparr>"
    by (auto simp: executeCommand_def split: sum.splits if_splits)
  from pushBranch_success[OF p[unfolded r]] S1 show ?thesis
    by (simp add: pushed_def notifyListeners_def)
qed

lemma mergeAttempt_fresh: "undoStack (manager S) = [] \<Longrightarrow> mergeAttempt ops cfg c S = (None, env S)"
  by (simp add: mergeAttempt_def lastSlot_def)

lemma executeCommand_not_busy: "executeCommand ops cfg c S = (Inr u, S1) \<Longrightarrow> \<not> isExecuting (manager S)"
  by (auto simp: executeCommand_def)

lemma executeCommand_push_eval:
  assumes "\<not> isExecuting (manager S)" "mergeAttempt ops cfg c S = (None, w0)"
    and "i_execute ops c w0 = (Inr (), c1, w1)"
    and "saveHistory ops cfg (pushed ops c w0 ((manager S)\<lparr>isExecuting := True\<rparr>)) (store S) = (Inr (), h1)"
  shows "executeCommand ops cfg c S =
           (Inr (), \<lparr>manager = (notifyListeners (pushed ops c w0 ((manager S)\<lparr>isExecuting := True\<rparr>)))\<lparr>isExecuting := False\<rparr>,
                    store = h1, env = w1\<rparr>)"
proof -
  have b: "executeBody ops cfg c (S\<lparr>manager := (manager S)\<lparr>isExecuting := True\<rparr>\<rparr>)
             = pushBranch ops cfg c (S\<lparr>manager := (manager S)\<lparr>isExecuting := True\<rparr>, env := w0\<rparr>)"
    using assms(2) executeBody_push[of ops cfg c "S\<lparr>manager := (manager S)\<lparr>isExecuting := True\<rparr>\<rparr>" w0]
    by (simp add: mergeAttempt_executing)
  show ?thesis using assms(1,3,4) unfolding executeCommand_def b
    by (simp add: pushBranch_def pushed_def Let_def notifyListeners_def)
qed

lemma executeCommand_rollback_eval:
  assumes "\<not> isExecuting (manager S)" "mergeAttempt ops cfg c S = (None, w0)"
    and "enableOptimisticUpdates cfg"
    and "i_execute ops c w0 = (Inr (), c1, w1)"
    and "saveHistory ops cfg (pushed ops c w0 ((manager S)\<lparr>isExecuting := True\<rparr>)) (store S) = (Inl pe, h1)"
    and "i_undo ops c1 w1 = (Inr (), c2, w2)"
  shows "executeCommand ops cfg c S =
           (Inl (PersistenceError ''Failed to persist command'' pe),
            \<lparr>manager = (notifyListeners
                ((pushed ops c w0 ((manager S)\<lparr>isExecuting := True\<rparr>))
                   \<lparr>undoStack := butlast (undoStack (pushed ops c w0 ((manager S)\<lparr>isExecuting := True\<rparr>)))\<rparr>))
                \<lparr>isExecuting := False\<rparr>,
             store = h1, env = w2\<rparr>)"
proof -
  have b: "executeBody ops cfg c (S\<lparr>manager := (manager S)\<lparr>isExecuting := True\<rparr>\<rparr>)
             = pushBranch ops cfg c (S\<lparr>manager := (manager S)\<lparr>isExecuting := True\<rparr>, env := w0\<rparr>)"
    using assms(2) executeBody_push[of ops cfg c "S\<lparr>manager := (manager S)\<lparr>isExecuting := True\<rparr>\<rparr>" w0]
    by (simp add: mergeAttempt_executing)
  show ?thesis using assms(1,3,4,5,6) unfolding executeCommand_def b
    by (simp add: pushBranch_def pushed_def Let_def notifyListeners_def)
qed

lemma executeCommand_merge_eval:
  assumes "\<not> isExecuting (manager S)" "mergeAttempt ops cfg c S = (Some mc, w0)"
    and "i_execute ops mc w0 = (Inr (), c1, w1)"
    and "saveHistory ops cfg (merged c1 ((manager S)\<lparr>isExecuting := True\<rparr>)) (store S) = (Inr (), h1)"
  shows "executeCommand ops cfg c S =
           (Inr (), \<lparr>manager = (notifyListeners (merged c1 ((manager S)\<lparr>isExecuting := True\<rparr>)))\<lparr>isExecuting := False\<rparr>,
                    store = h1, env = w1\<rparr>)"
proof -
  have b: "executeBody ops cfg c (S\<lparr>manager := (manager S)\<lparr>isExecuting := True\<rparr>\<rparr>)
             = mergeBranch ops cfg mc (S\<lparr>manager := (manager S)\<lparr>isExecuting := True\<rparr>, env := w0\<rparr>)"
    using assms(2) executeBody_merge[of ops cfg c "S\<lparr>manager := (manager S)\<lparr>isExecuting := True\<rparr>\<rparr>" mc w0]
    by (simp add: mergeAttempt_executing)
  show ?thesis using assms(1,3,4) unfolding executeCommand_def b
    by (simp add: mergeBranch_def merged_def Let_def notifyListeners_def)
qed

lemma undo_eval:
  assumes "undoStack (manager S) \<noteq> []" "\<not> isExecuting (manager S)"
    and "invoke (i_undo ops) (lastSlot (undoStack (manager S))) (env S) = (Inr (), slot, w1)"
    and "saveHistory ops cfg (undone slot ((manager S)\<lparr>isExecuting := True\<rparr>)) (store S) = (Inr (), h1)"
  shows "undo ops cfg S =
           (Inr True, \<lparr>manager = (notifyListeners (undone slot ((manager S)\<lparr>isExecuting := True\<rparr>)))\<lparr>isExecuting := False\<rparr>,
                       store = h1, env = w1\<rparr>)"
  using assms by (simp add: undo_def undoBody_def undone_def Let_def notifyListeners_def)

lemma undo_success:
  assumes "undo ops cfg S = (Inr True, S2)"
  shows "undoStack (manager S2) = butlast (undoStack (manager S))
       \<and> length (redoStack (manager S2)) = Suc (length (redoStack (manager S)))
       \<and> undoStack (manager S) \<noteq> []"
proof -
  from assms have g: "undoStack (manager S) \<noteq> []" "\<not> isExecuting (manager S)"
    by (auto simp: undo_def split: if_splits)
  let ?S0 = "S\<lparr>manager := (manager S)\<lparr>isExecuting := True\<rparr>\<rparr>"
  obtain r slot w1 where iv: "invoke (i_undo ops) (lastSlot (undoStack (manager S))) (env S) = (r, slot, w1)"
    by (cases "invoke (i_undo ops) (lastSlot (undoStack (manager S))) (env S)") auto
  let ?m1 = "(manager S)\<lparr>isExecuting := True, undoStack := butlast (undoStack (manager S)),
                        redoStack := redoStack (manager S) @ [slot]\<rparr>"
  obtain rs h1 where sv: "saveHistory ops cfg ?m1 (store S) = (rs, h1)"
    by (cases "saveHistory ops cfg ?m1 (store S)") auto
  obtain rr slot2 w2 where rb: "invoke (i_execute ops) slot w1 = (rr, slot2, w2)"
    by (cases "invoke (i_execute ops) slot w1") auto
  show ?thesis
  proof (cases r)
    case (Inl e)
    with assms g iv show ?thesis
      by (simp add: undo_def undoBody_def Let_def split: if_splits)
  next
    case (Inr v)
    show ?thesis
    proof (cases rs)
      case (Inl pe)
      with assms g iv Inr sv rb show ?thesis
        by (cases rr) (simp_all add: undo_def undoBody_def Let_def split: if_splits)
    next
      case (Inr v')
      with assms g iv \<open>r = Inr v\<close> sv show ?thesis
        by (auto simp: undo_def undoBody_def Let_def notifyListeners_def split: if_splits)
    qed
  qed
qed

text \<open>
  C5. When \<open>executeCommand c1\<close> pushes \<open>c1\<close> (no merge) and succeeds, the redo stack is
  empty; after a successful \<open>undo()\<close> it has size 1; and when \<open>executeCommand c2\<close> then
  pushes \<open>c2\<close> and succeeds, the redo stack has size 0.
\<close>

theorem new_action_invalidates_redo:
  assumes "mergeAttempt ops cfg c1 S = (None, w1)" and "executeCommand ops cfg c1 S = (Inr (), S1)"
    and "undo ops cfg S1 = (Inr True, S2)"
    and "mergeAttempt ops cfg c2 S2 = (None, w2)" and "executeCommand ops cfg c2 S2 = (Inr (), S3)"
  shows "redoStack (manager S1) = [] \<and> length (redoStack (manager S2)) = 1
       \<and> length (redoStack (manager S3)) = 0"
proof -
  have r1: "redoStack (manager S1) = []"
    using executeCommand_push_success[OF executeCommand_not_busy[OF assms(2)] assms(1) assms(2)]
    by (simp add: pushed_def notifyListeners_def)
  have r2: "length (redoStack (manager S2)) = 1"
    using undo_success[OF assms(3)] r1 by simp
  have r3: "redoStack (manager S3) = []"
    using executeCommand_push_success[OF executeCommand_not_busy[OF assms(5)] assms(4) assms(5)]
    by (simp add: pushed_def notifyListeners_def)
  from r1 r2 r3 show ?thesis by simp
qed

text \<open>
  C8 (amended). While the manager is executing, \<open>executeCommand\<close> throws the busy
  \<open>UndoRedoError\<close>, and \<open>undo()\<close> and \<open>redo()\<close> return \<open>false\<close> without an error; none of the
  three changes the manager, the history store or the day store.
\<close>

theorem busy_calls_change_nothing:
  assumes "isExecuting (manager S)"
  shows "executeCommand ops cfg c S
           = (Inl (UndoRedoError ''Cannot execute command while another command is executing''), S)
       \<and> undo ops cfg S = (Inr False, S)
       \<and> redo ops cfg S = (Inr False, S)"
  using assms by (simp add: executeCommand_busy undo_busy redo_busy)

section \<open>The history store in fallback mode\<close>

lemma getPersistedHistory_fallback:
  "\<not> isHistoryDBAvailable h \<Longrightarrow> getPersistedHistory d h = (fallbackHistoryStorage h d, h)"
  by (simp add: getPersistedHistory_def)

lemma saveHistory_fallback:
  "\<not> isHistoryDBAvailable h \<Longrightarrow> durableUntouched h (snd (saveHistory ops cfg m h))"
  by (auto simp: durableUntouched_def saveHistory_def saveAttempt_def split: sum.splits)

lemma saveHistory_fallback_put:
  "\<not> isHistoryDBAvailable h \<Longrightarrow> enablePersistence cfg \<Longrightarrow> historyState ops m h = Inr st \<Longrightarrow>
   saveHistory ops cfg m h = (Inr (), h\<lparr>fallbackHistoryStorage := (fallbackHistoryStorage h)(currentDateKey m \<mapsto> st)\<rparr>)"
  by (simp add: saveHistory_def saveAttempt_def)

lemma pushBranch_store:
  assumes "P (store S)" "\<And>m'. P (snd (saveHistory ops cfg m' (store S)))"
  shows "P (store (snd (snd (pushBranch ops cfg c S))))"
proof -
  obtain r c1 w1 where ex: "i_execute ops c (env S) = (r, c1, w1)" by (cases "i_execute ops c (env S)") auto
  define m1 where "m1 = (manager S)\<lparr>undoStack := pushTrimmed (maxHistorySize (manager S)) (undoStack (manager S)) (Some c1), redoStack := []\<rparr>"
  obtain rs h1 where sv: "saveHistory ops cfg m1 (store S) = (rs, h1)" by (cases "saveHistory ops cfg m1 (store S)") auto
  obtain ru c2 w2 where un: "i_undo ops c1 w1 = (ru, c2, w2)" by (cases "i_undo ops c1 w1") auto
  have h1: "P h1" using assms(2)[of m1] sv by simp
  show ?thesis
    using ex sv un h1 assms(1)
    by (cases r; cases rs; cases ru) (simp_all add: pushBranch_def Let_def m1_def[symmetric])
qed

lemma mergeBranch_store:
  assumes "P (store S)" "\<And>m'. P (snd (saveHistory ops cfg m' (store S)))"
  shows "P (store (snd (snd (mergeBranch ops cfg c S))))"
proof -
  obtain r c1 w1 where ex: "i_execute ops c (env S) = (r, c1, w1)" by (cases "i_execute ops c (env S)") auto
  define m1 where "m1 = (manager S)\<lparr>undoStack := replaceTop (undoStack (manager S)) (Some c1)\<rparr>"
  obtain rs h1 where sv: "saveHistory ops cfg m1 (store S) = (rs, h1)" by (cases "saveHistory ops cfg m1 (store S)") auto
  have h1: "P h1" using assms(2)[of m1] sv by simp
  show ?thesis
    using ex sv h1 assms(1)
    by (cases r; cases rs) (simp_all add: mergeBranch_def Let_def m1_def[symmetric])
qed

lemma executeCommand_store:
  assumes "P (store S)" "\<And>m'. P (snd (saveHistory ops cfg m' (store S)))"
  shows "P (store (snd (executeCommand ops cfg c S)))"
proof (cases "isExecuting (manager S)")
  case True
  with assms(1) show ?thesis by (simp add: executeCommand_def)
next
  case False
  let ?S0 = "S\<lparr>manager := (manager S)\<lparr>isExecuting := True\<rparr>\<rparr>"
  obtain mc w0 where ma: "mergeAttempt ops cfg c ?S0 = (mc, w0)" by (cases "mergeAttempt ops cfg c ?S0") auto
  have "P (store (snd (snd (executeBody ops cfg c ?S0))))"
  proof (cases mc)
    case None
    with ma have "executeBody ops cfg c ?S0 = pushBranch ops cfg c (?S0\<lparr>env := w0\<rparr>)"
      by (simp add: executeBody_def)
    with assms pushBranch_store[of P "?S0\<lparr>env := w0\<rparr>" ops cfg c] show ?thesis by simp
  next
    case (Some x)
    with ma have "executeBody ops cfg c ?S0 = mergeBranch ops cfg x (?S0\<lparr>env := w0\<rparr>)"
      by (simp add: executeBody_def)
    with assms mergeBranch_store[of P "?S0\<lparr>env := w0\<rparr>" ops cfg x] show ?thesis by simp
  qed
  with False show ?thesis
    by (simp add: executeCommand_def case_prod_beta)
qed

lemma undoBody_store:
  assumes "P (store S)" "\<And>m'. P (snd (saveHistory ops cfg m' (store S)))"
  shows "P (store (snd (undoBody ops cfg S)))"
proof -
  obtain r slot w1 where iv: "invoke (i_undo ops) (lastSlot (undoStack (manager S))) (env S) = (r, slot, w1)"
    by (cases "invoke (i_undo ops) (lastSlot (undoStack (manager S))) (env S)") auto
  define m1 where "m1 = (manager S)\<lparr>undoStack := butlast (undoStack (manager S)), redoStack := redoStack (manager S) @ [slot]\<rparr>"
  obtain rs h1 where sv: "saveHistory ops cfg m1 (store S) = (rs, h1)"
    by (cases "saveHistory ops cfg m1 (store S)") auto
  obtain rr slot2 w2 where rb: "invoke (i_execute ops) slot w1 = (rr, slot2, w2)"
    by (cases "invoke (i_execute ops) slot w1") auto
  have h1: "P h1" using assms(2)[of m1] sv by simp
  show ?thesis
    using iv sv rb h1 assms(1)
    by (cases r; cases rs; cases rr) (simp_all add: undoBody_def Let_def m1_def[symmetric])
qed

lemma redoBody_store:
  assumes "P (store S)" "\<And>m'. P (snd (saveHistory ops cfg m' (store S)))"
  shows "P (store (snd (redoBody ops cfg S)))"
proof -
  obtain r slot w1 where iv: "invoke (i_execute ops) (lastSlot (redoStack (manager S))) (env S) = (r, slot, w1)"
    by (cases "invoke (i_execute ops) (lastSlot (redoStack (manager S))) (env S)") auto
  define m1 where "m1 = (manager S)\<lparr>redoStack := butlast (redoStack (manager S)), undoStack := undoStack (manager S) @ [slot]\<rparr>"
  obtain rs h1 where sv: "saveHistory ops cfg m1 (store S) = (rs, h1)"
    by (cases "saveHistory ops cfg m1 (store S)") auto
  obtain rr slot2 w2 where rb: "invoke (i_undo ops) slot w1 = (rr, slot2, w2)"
    by (cases "invoke (i_undo ops) slot w1") auto
  have h1: "P h1" using assms(2)[of m1] sv by simp
  show ?thesis
    using iv sv rb h1 assms(1)
    by (cases r; cases rs; cases rr) (simp_all add: redoBody_def Let_def m1_def[symmetric])
qed

lemma undo_store:
  assumes "P (store S)" "\<And>m'. P (snd (saveHistory ops cfg m' (store S)))"
  shows "P (store (snd (undo ops cfg S)))"
  using assms undoBody_store[of P "S\<lparr>manager := (manager S)\<lparr>isExecuting := True\<rparr>\<rparr>" ops cfg]
  by (simp add: undo_def case_prod_beta)

lemma redo_store:
  assumes "P (store S)" "\<And>m'. P (snd (saveHistory ops cfg m' (store S)))"
  shows "P (store (snd (redo ops cfg S)))"
  using assms redoBody_store[of P "S\<lparr>manager := (manager S)\<lparr>isExecuting := True\<rparr>\<rparr>" ops cfg]
  by (simp add: redo_def case_prod_beta)

lemma durableUntouched_refl: "\<not> isHistoryDBAvailable h \<Longrightarrow> durableUntouched h h"
  by (simp add: durableUntouched_def)

lemma loadHistory_fallback:
  "\<not> isHistoryDBAvailable (store S) \<Longrightarrow> store (loadHistory ops cfg S) = store S"
  by (simp add: loadHistory_def getPersistedHistory_fallback split: option.splits)

lemma clearHistory_store:
  assumes "P (store S)" "\<And>m'. P (snd (saveHistory ops cfg m' (store S)))"
  shows "P (store (snd (clearHistory ops cfg S)))"
proof -
  define m1 where "m1 = (manager S)\<lparr>undoStack := [], redoStack := []\<rparr>"
  obtain rs h1 where sv: "saveHistory ops cfg m1 (store S) = (rs, h1)"
    by (cases "saveHistory ops cfg m1 (store S)") auto
  have "P h1" using assms(2)[of m1] sv by simp
  then show ?thesis using sv by (cases rs) (simp_all add: clearHistory_def Let_def m1_def[symmetric])
qed

lemma switchDate_fallback:
  assumes "\<not> isHistoryDBAvailable (store S)"
  shows "durableUntouched (store S) (store (snd (switchDate ops cfg d S)))"
proof -
  obtain rs h1 where sv: "saveHistory ops cfg (manager S) (store S) = (rs, h1)"
    by (cases "saveHistory ops cfg (manager S) (store S)") auto
  have u: "durableUntouched (store S) h1" using saveHistory_fallback[OF assms, of ops cfg "manager S"] sv by simp
  then have "\<not> isHistoryDBAvailable h1" by (simp add: durableUntouched_def)
  then have "store (loadHistory ops cfg (S\<lparr>manager := (manager S)\<lparr>undoStack := [], redoStack := [], currentDateKey := d\<rparr>, store := h1\<rparr>)) = h1"
    by (simp add: loadHistory_fallback)
  with u sv assms show ?thesis
    by (cases rs) (simp_all add: switchDate_def Let_def durableUntouched_refl)
qed

text \<open>
  C9. \<open>initHistoryDB\<close> leaves \<open>isHistoryDBAvailable\<close> true only when \<open>openDB\<close> succeeded.
  Once it is false, \<open>getPersistedHistory\<close> reads the in-memory map and leaves the store
  as it is, \<open>saveHistory\<close> puts the state into the in-memory map, and none of
  \<open>saveHistory\<close>, \<open>loadHistory\<close>, \<open>executeCommand\<close>, \<open>undo\<close>, \<open>redo\<close>, \<open>switchDate\<close> and
  \<open>clearHistory\<close> issues a request to the durable database, changes its contents or
  sets the flag back.
\<close>

theorem fallback_is_permanent:
  assumes "\<not> isHistoryDBAvailable (store S)"
  shows "isHistoryDBAvailable (initHistoryDB h0) = (isHistoryDBAvailable h0 \<and> durableOpens h0)
       \<and> getPersistedHistory d (store S) = (fallbackHistoryStorage (store S) d, store S)
       \<and> durableUntouched (store S) (snd (saveHistory ops cfg m (store S)))
       \<and> (enablePersistence cfg \<and> historyState ops m (store S) = Inr st \<longrightarrow>
            fallbackHistoryStorage (snd (saveHistory ops cfg m (store S))) (currentDateKey m) = Some st)
       \<and> durableUntouched (store S) (store (loadHistory ops cfg S))
       \<and> durableUntouched (store S) (store (snd (executeCommand ops cfg c S)))
       \<and> durableUntouched (store S) (store (snd (undo ops cfg S)))
       \<and> durableUntouched (store S) (store (snd (redo ops cfg S)))
       \<and> durableUntouched (store S) (store (snd (switchDate ops cfg d S)))
       \<and> durableUntouched (store S) (store (snd (clearHistory ops cfg S)))"
proof -
  note r = durableUntouched_refl[OF assms]
  note s = saveHistory_fallback[OF assms]
  have i: "isHistoryDBAvailable (initHistoryDB h0) = (isHistoryDBAvailable h0 \<and> durableOpens h0)"
    by (simp add: initHistoryDB_def Let_def)
  have p: "enablePersistence cfg \<and> historyState ops m (store S) = Inr st \<longrightarrow>
            fallbackHistoryStorage (snd (saveHistory ops cfg m (store S))) (currentDateKey m) = Some st"
    using saveHistory_fallback_put[OF assms, of cfg ops m st] by simp
  show ?thesis
    using getPersistedHistory_fallback[OF assms] s r i p
      executeCommand_store[of "durableUntouched (store S)" S ops cfg c, OF r s]
      undo_store[of "durableUntouched (store S)" S ops cfg, OF r s]
      redo_store[of "durableUntouched (store S)" S ops cfg, OF r s]
      clearHistory_store[of "durableUntouched (store S)" S ops cfg, OF r s]
      switchDate_fallback[OF assms]
    by (simp add: loadHistory_fallback[OF assms])
qed

section \<open>The catalog under the manager\<close>

lemma catalog_execute: "i_execute catalog c w = (Inr (), fst (command_execute c w), snd (command_execute c w))"
  by (simp add: catalog_def case_prod_beta)

lemma catalog_undo: "i_undo catalog c w = (Inr (), c, command_undo c w)"
  by (simp add: catalog_def)

lemma serializeStack_catalog:
  "list_all serializes st \<Longrightarrow> \<exists>xs. serializeStack (i_serialize catalog) st = Inr xs"
proof (induction st)
  case Nil
  then show ?case by simp
next
  case (Cons a st)
  then obtain xs where xs: "serializeStack (i_serialize catalog) st = Inr xs" by auto
  from Cons.prems obtain c x where "a = Some c" "command_serialize c = Inr x"
    by (auto simp: serializes_def split: option.splits sum.splits)
  with xs show ?case by (simp add: catalog_def)
qed

lemma saveHistory_catalog:
  assumes "list_all serializes (undoStack m)" "list_all serializes (redoStack m)"
  shows "fst (saveHistory catalog cfg m h) = Inr ()"
proof -
  from serializeStack_catalog[OF assms(1)] serializeStack_catalog[OF assms(2)]
  obtain us rs where "serializeStack (i_serialize catalog) (undoStack m) = Inr us"
    "serializeStack (i_serialize catalog) (redoStack m) = Inr rs" by auto
  then show ?thesis by (simp add: saveHistory_result historyState_def)
qed

lemma find_updateFirst:
  "(\<And>x. p (f x) = p x) \<Longrightarrow> find p (updateFirst p f xs) = map_option f (find p xs)"
  by (induction xs) auto

lemma targetText_execute_undo:
  assumes "store_ok w" "editTarget c \<noteq> None" "editTarget c' = editTarget c"
  shows "targetText c' (command_undo c w) = map_option (\<lambda>_. editOldText c) (targetText c' w)"
proof (cases c)
  case (EditNoteCommand b n old new)
  with assms(3) obtain b' old' new' where c': "c' = EditNoteCommand b' n old' new'" "base_dateKey b' = base_dateKey b"
    by (cases c') auto
  show ?thesis using assms(1) unfolding EditNoteCommand c'
    by (simp add: notesOf_updateNote c'(2) find_updateFirst option.map_comp comp_def)
next
  case (EditChecklistItemCommand b i old new)
  with assms(3) obtain b' old' new' where c': "c' = EditChecklistItemCommand b' i old' new'" "base_dateKey b' = base_dateKey b"
    by (cases c') auto
  show ?thesis using assms(1) unfolding EditChecklistItemCommand c'
    by (simp add: itemsOf_updateChecklistItem c'(2) find_updateFirst option.map_comp comp_def assignUpdates_def)
qed (use assms(2) in simp_all)

lemma command_undo_ok: "store_ok w \<Longrightarrow> editTarget c \<noteq> None \<Longrightarrow> store_ok (command_undo c w)"
  by (cases c) (simp_all add: updateNote_ok updateChecklistItem_ok)

lemma edit_execute_fst: "editTarget c \<noteq> None \<Longrightarrow> fst (command_execute c w) = c"
  by (cases c) simp_all

lemma edit_execute_ok: "store_ok w \<Longrightarrow> editTarget c \<noteq> None \<Longrightarrow> store_ok (snd (command_execute c w))"
  by (cases c) (simp_all add: updateNote_ok updateChecklistItem_ok)

lemma targetText_execute:
  assumes "store_ok w" "editTarget c \<noteq> None" "editTarget c' = editTarget c"
  shows "targetText c' (snd (command_execute c w)) = map_option (\<lambda>_. editNewText c) (targetText c' w)"
proof (cases c)
  case (EditNoteCommand b n old new)
  with assms(3) obtain b' old' new' where c': "c' = EditNoteCommand b' n old' new'" "base_dateKey b' = base_dateKey b"
    by (cases c') auto
  show ?thesis using assms(1) unfolding EditNoteCommand c'
    by (simp add: notesOf_updateNote c'(2) find_updateFirst option.map_comp comp_def)
next
  case (EditChecklistItemCommand b i old new)
  with assms(3) obtain b' old' new' where c': "c' = EditChecklistItemCommand b' i old' new'" "base_dateKey b' = base_dateKey b"
    by (cases c') auto
  show ?thesis using assms(1) unfolding EditChecklistItemCommand c'
    by (simp add: itemsOf_updateChecklistItem c'(2) find_updateFirst option.map_comp comp_def assignUpdates_def)
qed (use assms(2) in simp_all)

lemma edit_serializes: "editTarget c \<noteq> None \<Longrightarrow> base_timestamp (command_base c) \<noteq> None \<Longrightarrow> serializes (Some c)"
  by (cases c) (auto simp: serializes_def stamp_def split: option.splits)

lemma canMerge_edit:
  assumes "editTarget c1 \<noteq> None" "editTarget c2 = editTarget c1"
    and "base_timestamp (command_base c1) = Some t" "base_timestamp (command_base c2) = Some (t + delta)"
  shows "canMergeCommands catalog cfg c1 c2 = (delta < mergeTimeWindow cfg)"
proof (cases c1)
  case (EditNoteCommand b n old new)
  with assms(2) obtain b' old' new' where "c2 = EditNoteCommand b' n old' new'" "base_dateKey b' = base_dateKey b"
    by (cases c2) auto
  with EditNoteCommand assms(3,4) show ?thesis
    by (simp add: canMergeCommands_def catalog_def elapsedBelow_def)
next
  case (EditChecklistItemCommand b i old new)
  with assms(2) obtain b' old' new' where "c2 = EditChecklistItemCommand b' i old' new'" "base_dateKey b' = base_dateKey b"
    by (cases c2) auto
  with EditChecklistItemCommand assms(3,4) show ?thesis
    by (simp add: canMergeCommands_def catalog_def elapsedBelow_def)
qed (use assms(1) in simp_all)

lemma merge_edit:
  assumes "editTarget c1 \<noteq> None" "editTarget c2 = editTarget c1"
    and "base_timestamp (command_base c1) = Some t" "base_timestamp (command_base c2) = Some (t + delta)"
    and "0 \<le> delta"
  shows "\<exists>mc. command_merge c2 c1 w = (Some mc, w\<lparr>uuidsDrawn := Suc (uuidsDrawn w)\<rparr>)
            \<and> editTarget mc = editTarget c1 \<and> base_timestamp (command_base mc) = Some t
            \<and> editOldText mc = editOldText c2 \<and> editNewText mc = editNewText c1"
proof (cases c1)
  case (EditNoteCommand b n old new)
  with assms(2) obtain b' old' new' where "c2 = EditNoteCommand b' n old' new'" "base_dateKey b' = base_dateKey b"
    by (cases c2) auto
  with EditNoteCommand assms(3,4,5) show ?thesis
    by (simp add: command_merge_def elapsedBelow_def randomUUID_def)
next
  case (EditChecklistItemCommand b i old new)
  with assms(2) obtain b' old' new' where "c2 = EditChecklistItemCommand b' i old' new'" "base_dateKey b' = base_dateKey b"
    by (cases c2) auto
  with EditChecklistItemCommand assms(3,4,5) show ?thesis
    by (simp add: command_merge_def elapsedBelow_def randomUUID_def)
qed (use assms(1) in simp_all)

lemma targetText_uuidsDrawn: "targetText c (w\<lparr>uuidsDrawn := k\<rparr>) = targetText c w"
  by (cases c) (simp_all add: notesOf_def itemsOf_def readDay_uuidsDrawn)

section \<open>The merge window\<close>

lemma undo_catalog_eval:
  assumes "undoStack (manager S) = st @ [Some c]" "\<not> isExecuting (manager S)"
    and "list_all serializes st" "list_all serializes (redoStack (manager S))" "serializes (Some c)"
  shows "fst (undo catalog cfg S) = Inr True
       \<and> undoStack (manager (snd (undo catalog cfg S))) = st
       \<and> redoStack (manager (snd (undo catalog cfg S))) = redoStack (manager S) @ [Some c]
       \<and> \<not> isExecuting (manager (snd (undo catalog cfg S)))
       \<and> maxHistorySize (manager (snd (undo catalog cfg S))) = maxHistorySize (manager S)
       \<and> env (snd (undo catalog cfg S)) = command_undo c (env S)"
proof -
  have ne: "undoStack (manager S) \<noteq> []" using assms(1) by simp
  have iv: "invoke (i_undo catalog) (lastSlot (undoStack (manager S))) (env S) = (Inr (), Some c, command_undo c (env S))"
    using assms(1) by (simp add: invoke_def lastSlot_def catalog_undo)
  define m1 where "m1 = undone (Some c) ((manager S)\<lparr>isExecuting := True\<rparr>)"
  have m1s: "undoStack m1 = st" "redoStack m1 = redoStack (manager S) @ [Some c]"
    using assms(1) by (simp_all add: m1_def undone_def)
  define h1 where "h1 = snd (saveHistory catalog cfg m1 (store S))"
  have "fst (saveHistory catalog cfg m1 (store S)) = Inr ()"
    using saveHistory_catalog[of m1 cfg "store S"] m1s assms(3,4,5) by simp
  then have sv: "saveHistory catalog cfg m1 (store S) = (Inr (), h1)"
    by (simp add: h1_def prod_eq_iff)
  from undo_eval[OF ne assms(2) iv sv[unfolded m1_def]] m1s show ?thesis
    by (simp add: m1_def[symmetric] notifyListeners_def) (simp add: m1_def undone_def)
qed

text \<open>
  Two edit commands on the same note or checklist item with timestamps \<open>t\<close> and
  \<open>t + delta\<close>, the first of them pushed as an entry of its own: the second shares
  that entry exactly when \<open>delta < mergeTimeWindow\<close>, and otherwise two undos lead back.
\<close>

lemma merge_window:
  fixes S :: "(command, serial, world) Session"
  assumes idle: "\<not> isExecuting (manager S)"
    and hist: "list_all serializes (undoStack (manager S))" "list_all serializes (redoStack (manager S))"
    and cap: "int (length (undoStack (manager S))) + 2 \<le> maxHistorySize (manager S)"
    and ok: "store_ok (env S)"
    and e1: "editTarget c1 \<noteq> None" and e2: "editTarget c2 = editTarget c1"
    and t1: "base_timestamp (command_base c1) = Some t"
    and t2: "base_timestamp (command_base c2) = Some (t + delta)"
    and d: "0 \<le> delta"
    and own: "mergeAttempt catalog cfg c1 S = (None, env S)"
    and S1: "S1 = snd (executeCommand catalog cfg c1 S)"
    and S2: "S2 = snd (executeCommand catalog cfg c2 S1)"
    and S3: "S3 = snd (undo catalog cfg S2)"
    and S4: "S4 = snd (undo catalog cfg S3)"
  shows "fst (executeCommand catalog cfg c1 S) = Inr ()
       \<and> fst (executeCommand catalog cfg c2 S1) = Inr ()
       \<and> length (undoStack (manager S1)) = length (undoStack (manager S)) + 1
       \<and> (length (undoStack (manager S2)) = length (undoStack (manager S)) + 1) = (delta < mergeTimeWindow cfg)
       \<and> (delta < mergeTimeWindow cfg
           \<or> (length (undoStack (manager S2)) = length (undoStack (manager S)) + 2
               \<and> fst (undo catalog cfg S2) = Inr True
               \<and> fst (undo catalog cfg S3) = Inr True
               \<and> undoStack (manager S4) = undoStack (manager S)
               \<and> (targetText c1 (env S) = Some (editOldText c1) \<longrightarrow>
                    targetText c1 (env S3) = Some (editOldText c2)
                    \<and> targetText c1 (env S4) = targetText c1 (env S))))"
proof -
  define st where "st = undoStack (manager S)"
  have e2': "editTarget c2 \<noteq> None" using e1 e2 by simp
  have ser1: "serializes (Some c1)" using edit_serializes[OF e1] t1 by simp
  have ser2: "serializes (Some c2)" using edit_serializes[OF e2'] t2 by simp
  have sst: "list_all serializes st" using hist(1) by (simp add: st_def)
  \<comment> \<open>the first command is pushed\<close>
  define w1 where "w1 = snd (command_execute c1 (env S))"
  have x1: "i_execute catalog c1 (env S) = (Inr (), c1, w1)"
    by (simp add: catalog_execute edit_execute_fst[OF e1] w1_def)
  define m1 where "m1 = pushed catalog c1 (env S) ((manager S)\<lparr>isExecuting := True\<rparr>)"
  have m1s: "undoStack m1 = st @ [Some c1]" "redoStack m1 = []" "maxHistorySize m1 = maxHistorySize (manager S)"
    using cap by (simp_all add: m1_def pushed_def pushTrimmed_def x1 st_def)
  define h1 where "h1 = snd (saveHistory catalog cfg m1 (store S))"
  have "fst (saveHistory catalog cfg m1 (store S)) = Inr ()"
    using saveHistory_catalog[of m1 cfg "store S"] m1s ser1 sst by simp
  then have sv1: "saveHistory catalog cfg m1 (store S) = (Inr (), h1)"
    by (simp add: h1_def prod_eq_iff)
  have r1: "executeCommand catalog cfg c1 S
              = (Inr (), \<lparr>manager = (notifyListeners m1)\<lparr>isExecuting := False\<rparr>, store = h1, env = w1\<rparr>)"
    using executeCommand_push_eval[OF idle own x1 sv1[unfolded m1_def]] by (simp add: m1_def)
  have S1m: "undoStack (manager S1) = st @ [Some c1]" "redoStack (manager S1) = []"
      "\<not> isExecuting (manager S1)" "maxHistorySize (manager S1) = maxHistorySize (manager S)"
    and S1e: "env S1 = w1"
    using r1 m1s by (simp_all add: S1 notifyListeners_def)
  have ok1: "store_ok w1" using ok e1 by (simp add: w1_def edit_execute_ok)
  \<comment> \<open>the second command\<close>
  have cm: "canMergeCommands catalog cfg c1 c2 = (delta < mergeTimeWindow cfg)"
    by (rule canMerge_edit[OF e1 e2 t1 t2])
  show ?thesis
  proof (cases "delta < mergeTimeWindow cfg")
    case True
    from merge_edit[OF e1 e2 t1 t2 d, of w1] obtain mc where
      mc: "command_merge c2 c1 w1 = (Some mc, w1\<lparr>uuidsDrawn := Suc (uuidsDrawn w1)\<rparr>)"
        "editTarget mc = editTarget c1" "base_timestamp (command_base mc) = Some t"
      by blast
    have emc: "editTarget mc \<noteq> None" using mc(2) e1 by simp
    have ma2: "mergeAttempt catalog cfg c2 S1 = (Some mc, w1\<lparr>uuidsDrawn := Suc (uuidsDrawn w1)\<rparr>)"
      using True cm mc(1) S1m(1) S1e by (simp add: mergeAttempt_def lastSlot_def) (simp add: catalog_def)
    define w2 where "w2 = snd (command_execute mc (w1\<lparr>uuidsDrawn := Suc (uuidsDrawn w1)\<rparr>))"
    have x2: "i_execute catalog mc (w1\<lparr>uuidsDrawn := Suc (uuidsDrawn w1)\<rparr>) = (Inr (), mc, w2)"
      by (simp add: catalog_execute edit_execute_fst[OF emc] w2_def)
    define m2 where "m2 = merged mc ((manager S1)\<lparr>isExecuting := True\<rparr>)"
    have m2s: "undoStack m2 = st @ [Some mc]" "redoStack m2 = []"
      using S1m by (simp_all add: m2_def merged_def replaceTop_def)
    define h2 where "h2 = snd (saveHistory catalog cfg m2 (store S1))"
    have "fst (saveHistory catalog cfg m2 (store S1)) = Inr ()"
      using saveHistory_catalog[of m2 cfg "store S1"] m2s edit_serializes[OF emc] mc(3) sst by simp
    then have sv2: "saveHistory catalog cfg m2 (store S1) = (Inr (), h2)"
      by (simp add: h2_def prod_eq_iff)
    have r2: "executeCommand catalog cfg c2 S1
                = (Inr (), \<lparr>manager = (notifyListeners m2)\<lparr>isExecuting := False\<rparr>, store = h2, env = w2\<rparr>)"
      using executeCommand_merge_eval[OF S1m(3) ma2 x2 sv2[unfolded m2_def]] by (simp add: m2_def)
    then have "undoStack (manager S2) = st @ [Some mc]" using m2s by (simp add: S2 notifyListeners_def)
    with True r1 r2 S1m(1) show ?thesis by (simp add: st_def)
  next
    case False
    have ma2: "mergeAttempt catalog cfg c2 S1 = (None, w1)"
      using False cm S1m(1) S1e by (simp add: mergeAttempt_def lastSlot_def)
    define w2 where "w2 = snd (command_execute c2 w1)"
    have x2: "i_execute catalog c2 w1 = (Inr (), c2, w2)"
      by (simp add: catalog_execute edit_execute_fst[OF e2'] w2_def)
    define m2 where "m2 = pushed catalog c2 w1 ((manager S1)\<lparr>isExecuting := True\<rparr>)"
    have m2s: "undoStack m2 = (st @ [Some c1]) @ [Some c2]" "redoStack m2 = []"
      using cap S1m by (simp_all add: m2_def pushed_def pushTrimmed_def x2 st_def)
    define h2 where "h2 = snd (saveHistory catalog cfg m2 (store S1))"
    have "fst (saveHistory catalog cfg m2 (store S1)) = Inr ()"
      using saveHistory_catalog[of m2 cfg "store S1"] m2s ser1 ser2 sst by simp
    then have sv2: "saveHistory catalog cfg m2 (store S1) = (Inr (), h2)"
      by (simp add: h2_def prod_eq_iff)
    have r2: "executeCommand catalog cfg c2 S1
                = (Inr (), \<lparr>manager = (notifyListeners m2)\<lparr>isExecuting := False\<rparr>, store = h2, env = w2\<rparr>)"
      using executeCommand_push_eval[OF S1m(3) ma2 x2 sv2[unfolded m2_def]] by (simp add: m2_def)
    have S2m: "undoStack (manager S2) = (st @ [Some c1]) @ [Some c2]" "redoStack (manager S2) = []"
        "\<not> isExecuting (manager S2)"
      and S2e: "env S2 = w2"
      using r2 m2s by (simp_all add: S2 notifyListeners_def)
    have ok2: "store_ok w2" using ok1 e2' by (simp add: w2_def edit_execute_ok)
    \<comment> \<open>the first undo\<close>
    have sst1: "list_all serializes (st @ [Some c1])" using sst ser1 by simp
    from undo_catalog_eval[OF S2m(1) S2m(3) sst1 _ ser2, of cfg] S2m(2)
    have u1: "fst (undo catalog cfg S2) = Inr True" "undoStack (manager S3) = st @ [Some c1]"
       "redoStack (manager S3) = [Some c2]" "\<not> isExecuting (manager S3)"
       "env S3 = command_undo c2 w2"
      by (simp_all add: S3 S2e)
    have ok3: "store_ok (env S3)" using ok2 e2' by (simp add: u1(5) command_undo_ok)
    \<comment> \<open>the second undo\<close>
    from undo_catalog_eval[OF u1(2) u1(4) sst _ ser1, of cfg] ser2 u1(3)
    have u2: "fst (undo catalog cfg S3) = Inr True" "undoStack (manager S4) = st"
       "env S4 = command_undo c1 (env S3)"
      by (simp_all add: S4)
    have texts: "targetText c1 (env S3) = Some (editOldText c2) \<and> targetText c1 (env S4) = targetText c1 (env S)"
      if present: "targetText c1 (env S) = Some (editOldText c1)"
    proof -
      have tx1: "targetText c1 w1 = Some (editNewText c1)"
        using targetText_execute[OF ok e1 refl] present by (simp add: w1_def)
      have tx2: "targetText c1 w2 = Some (editNewText c2)"
        using targetText_execute[OF ok1 e2' e2[symmetric]] tx1 by (simp add: w2_def)
      have tx3: "targetText c1 (env S3) = Some (editOldText c2)"
        using targetText_execute_undo[OF ok2 e2' e2[symmetric]] tx2 by (simp add: u1(5))
      have tx4: "targetText c1 (env S4) = Some (editOldText c1)"
        using targetText_execute_undo[OF ok3 e1 refl] tx3 by (simp add: u2(3))
      from tx3 tx4 present show ?thesis by simp
    qed
    from False r1 r2 S1m(1) S2m u1 u2 texts show ?thesis by (simp add: st_def)
  qed
qed

section \<open>Catalog commands on a session\<close>

lemma execute_catalog_push:
  assumes "\<not> isExecuting (manager S)" "mergeAttempt catalog cfg c S = (None, w0)"
    and "list_all serializes (pushTrimmed (maxHistorySize (manager S)) (undoStack (manager S)) (Some (fst (command_execute c w0))))"
  shows "fst (executeCommand catalog cfg c S) = Inr ()
       \<and> undoStack (manager (snd (executeCommand catalog cfg c S)))
            = pushTrimmed (maxHistorySize (manager S)) (undoStack (manager S)) (Some (fst (command_execute c w0)))
       \<and> redoStack (manager (snd (executeCommand catalog cfg c S))) = []
       \<and> \<not> isExecuting (manager (snd (executeCommand catalog cfg c S)))
       \<and> maxHistorySize (manager (snd (executeCommand catalog cfg c S))) = maxHistorySize (manager S)
       \<and> currentDateKey (manager (snd (executeCommand catalog cfg c S))) = currentDateKey (manager S)
       \<and> env (snd (executeCommand catalog cfg c S)) = snd (command_execute c w0)
       \<and> store (snd (executeCommand catalog cfg c S))
            = snd (saveHistory catalog cfg (pushed catalog c w0 ((manager S)\<lparr>isExecuting := True\<rparr>)) (store S))"
proof -
  have x: "i_execute catalog c w0 = (Inr (), fst (command_execute c w0), snd (command_execute c w0))"
    by (rule catalog_execute)
  define m1 where "m1 = pushed catalog c w0 ((manager S)\<lparr>isExecuting := True\<rparr>)"
  have m1s: "undoStack m1 = pushTrimmed (maxHistorySize (manager S)) (undoStack (manager S)) (Some (fst (command_execute c w0)))"
    "redoStack m1 = []" "maxHistorySize m1 = maxHistorySize (manager S)" "currentDateKey m1 = currentDateKey (manager S)"
    by (simp_all add: m1_def pushed_def x)
  define h1 where "h1 = snd (saveHistory catalog cfg m1 (store S))"
  have "fst (saveHistory catalog cfg m1 (store S)) = Inr ()"
    using saveHistory_catalog[of m1 cfg "store S"] m1s assms(3) by simp
  then have sv: "saveHistory catalog cfg m1 (store S) = (Inr (), h1)"
    by (simp add: h1_def prod_eq_iff)
  from executeCommand_push_eval[OF assms(1,2) x sv[unfolded m1_def]] m1s show ?thesis
    by (simp add: m1_def[symmetric] notifyListeners_def h1_def)
qed

lemma execute_catalog_edit_merge:
  assumes st: "undoStack (manager S) = st @ [Some c1]" and idle: "\<not> isExecuting (manager S)"
    and sers: "list_all serializes st" "list_all serializes (redoStack (manager S))"
    and e1: "editTarget c1 \<noteq> None" and e2: "editTarget c2 = editTarget c1"
    and t1: "base_timestamp (command_base c1) = Some t"
    and t2: "base_timestamp (command_base c2) = Some (t + delta)"
    and d: "0 \<le> delta" "delta < mergeTimeWindow cfg"
    and ok: "store_ok (env S)"
  shows "\<exists>mc. fst (executeCommand catalog cfg c2 S) = Inr ()
           \<and> undoStack (manager (snd (executeCommand catalog cfg c2 S))) = st @ [Some mc]
           \<and> redoStack (manager (snd (executeCommand catalog cfg c2 S))) = redoStack (manager S)
           \<and> \<not> isExecuting (manager (snd (executeCommand catalog cfg c2 S)))
           \<and> editTarget mc = editTarget c1 \<and> base_timestamp (command_base mc) = Some t
           \<and> editOldText mc = editOldText c2 \<and> editNewText mc = editNewText c1
           \<and> store_ok (env (snd (executeCommand catalog cfg c2 S)))
           \<and> maxHistorySize (manager (snd (executeCommand catalog cfg c2 S))) = maxHistorySize (manager S)
           \<and> targetText c1 (env (snd (executeCommand catalog cfg c2 S)))
                = map_option (\<lambda>_. editNewText c1) (targetText c1 (env S))"
proof -
  let ?w = "env S"
  let ?w' = "?w\<lparr>uuidsDrawn := Suc (uuidsDrawn ?w)\<rparr>"
  from merge_edit[OF e1 e2 t1 t2 d(1), of ?w] obtain mc where
    mc: "command_merge c2 c1 ?w = (Some mc, ?w')"
      "editTarget mc = editTarget c1" "base_timestamp (command_base mc) = Some t"
      "editOldText mc = editOldText c2" "editNewText mc = editNewText c1"
    by blast
  have emc: "editTarget mc \<noteq> None" using mc(2) e1 by simp
  have cm: "canMergeCommands catalog cfg c1 c2" using canMerge_edit[OF e1 e2 t1 t2, of cfg] d(2) by simp
  have ma: "mergeAttempt catalog cfg c2 S = (Some mc, ?w')"
    using cm mc(1) st by (simp add: mergeAttempt_def lastSlot_def) (simp add: catalog_def)
  define w2 where "w2 = snd (command_execute mc ?w')"
  have x2: "i_execute catalog mc ?w' = (Inr (), mc, w2)"
    by (simp add: catalog_execute edit_execute_fst[OF emc] w2_def)
  define m2 where "m2 = merged mc ((manager S)\<lparr>isExecuting := True\<rparr>)"
  have m2s: "undoStack m2 = st @ [Some mc]" "redoStack m2 = redoStack (manager S)"
    "maxHistorySize m2 = maxHistorySize (manager S)"
    using st by (simp_all add: m2_def merged_def replaceTop_def)
  define h2 where "h2 = snd (saveHistory catalog cfg m2 (store S))"
  have "fst (saveHistory catalog cfg m2 (store S)) = Inr ()"
    using saveHistory_catalog[of m2 cfg "store S"] m2s(1,2) sers edit_serializes[OF emc] mc(3) by simp
  then have sv2: "saveHistory catalog cfg m2 (store S) = (Inr (), h2)"
    by (simp add: h2_def prod_eq_iff)
  have r2: "executeCommand catalog cfg c2 S
              = (Inr (), \<lparr>manager = (notifyListeners m2)\<lparr>isExecuting := False\<rparr>, store = h2, env = w2\<rparr>)"
    using executeCommand_merge_eval[OF idle ma x2 sv2[unfolded m2_def]] by (simp add: m2_def)
  have ok': "store_ok ?w'" using ok by (simp add: store_ok_uuidsDrawn)
  have ok2: "store_ok w2" using ok' emc by (simp add: w2_def edit_execute_ok)
  have tx: "targetText c1 w2 = map_option (\<lambda>_. editNewText c1) (targetText c1 ?w)"
    using targetText_execute[OF ok' emc mc(2)[symmetric]] mc(5) by (simp add: w2_def targetText_uuidsDrawn)
  from r2 m2s mc ok2 tx show ?thesis by (auto simp: notifyListeners_def)
qed

section \<open>Merged edits\<close>

lemma sample_text: "targetText (editNote t old new) sampleWorld = Some ''a''"
  by (simp add: editNote_def sampleBase_def sample_notesOf sampleDay_def)

lemma editNote_facts:
  "editTarget (editNote t old new) = Some (''edit-note'', ''2024-05-01'', ''n1'')"
  "base_timestamp (command_base (editNote t old new)) = Some t"
  "editOldText (editNote t old new) = old" "editNewText (editNote t old new) = new"
  "serializes (Some (editNote t old new))"
  by (simp_all add: editNote_def sampleBase_def serializes_def stamp_def)

lemma sampleSession_facts:
  "undoStack (manager sampleSession) = []" "redoStack (manager sampleSession) = []"
  "\<not> isExecuting (manager sampleSession)" "maxHistorySize (manager sampleSession) = 100"
  "env sampleSession = sampleWorld" "store sampleSession = sampleStore"
  by (simp_all add: sampleSession_def sampleManager_def)

text \<open>
  C1. \<open>executeCommand\<close> calls \<open>command.merge(lastCommand)\<close>: the receiver is the current
  command and the argument the predecessor, while \<open>merge\<close> keeps the receiver's old
  content, the argument's new content and the argument's timestamp. The merged command
  therefore runs from the current command's before-state to the predecessor's
  after-state and carries the predecessor's timestamp. On the sample day (note \<open>n1\<close>
  with content \<open>a\<close>), three edits \<open>a\<close> to \<open>ab\<close>, \<open>ab\<close> to \<open>abc\<close>, \<open>abc\<close> to \<open>abcd\<close> at 0, 100
  and 200 ms leave one undo entry and the stored content \<open>ab\<close>; one undo then stores
  \<open>abc\<close>, not the content \<open>a\<close> from before the first edit.
\<close>

theorem merge_keeps_wrong_ends:
  "fst (command_merge (editNote 100 ''ab'' ''abc'') (editNote 0 ''a'' ''ab'') sampleWorld)
     = Some (EditNoteCommand \<lparr>base_id = ''uuid-'', base_dateKey = ''2024-05-01'', base_timestamp = Some 0\<rparr>
              ''n1'' ''ab'' ''ab'')
   \<and> targetText (editNote 0 ''a'' ''ab'') (env sampleSession) = Some ''a''
   \<and> length (undoStack (manager
        (afterExecute catalog defaultConfig (editNote 200 ''abc'' ''abcd'')
          (afterExecute catalog defaultConfig (editNote 100 ''ab'' ''abc'')
            (afterExecute catalog defaultConfig (editNote 0 ''a'' ''ab'') sampleSession))))) = 1
   \<and> targetText (editNote 0 ''a'' ''ab'') (env
        (afterExecute catalog defaultConfig (editNote 200 ''abc'' ''abcd'')
          (afterExecute catalog defaultConfig (editNote 100 ''ab'' ''abc'')
            (afterExecute catalog defaultConfig (editNote 0 ''a'' ''ab'') sampleSession)))) = Some ''ab''
   \<and> targetText (editNote 0 ''a'' ''ab'') (env
        (afterUndo catalog defaultConfig
          (afterExecute catalog defaultConfig (editNote 200 ''abc'' ''abcd'')
            (afterExecute catalog defaultConfig (editNote 100 ''ab'' ''abc'')
              (afterExecute catalog defaultConfig (editNote 0 ''a'' ''ab'') sampleSession))))) = Some ''abc''"
proof -
  let ?e1 = "editNote 0 ''a'' ''ab''" and ?e2 = "editNote 100 ''ab'' ''abc''" and ?e3 = "editNote 200 ''abc'' ''abcd''"
  let ?cfg = defaultConfig
  define S1 where "S1 = afterExecute catalog ?cfg ?e1 sampleSession"
  define S2 where "S2 = afterExecute catalog ?cfg ?e2 S1"
  define S3 where "S3 = afterExecute catalog ?cfg ?e3 S2"
  define S4 where "S4 = afterUndo catalog ?cfg S3"
  have w: "mergeTimeWindow ?cfg = 1000" by (simp add: defaultConfig_def)
  have m: "fst (command_merge ?e2 ?e1 sampleWorld)
     = Some (EditNoteCommand \<lparr>base_id = ''uuid-'', base_dateKey = ''2024-05-01'', base_timestamp = Some 0\<rparr>
              ''n1'' ''ab'' ''ab'')"
    by (simp add: command_merge_def editNote_def sampleBase_def elapsedBelow_def randomUUID_def sampleWorld_def)
  have e1: "editTarget ?e1 \<noteq> None" by (simp add: editNote_facts)
  \<comment> \<open>first edit\<close>
  have ma1: "mergeAttempt catalog ?cfg ?e1 sampleSession = (None, sampleWorld)"
    using mergeAttempt_fresh[of sampleSession catalog ?cfg ?e1] by (simp add: sampleSession_facts)
  have "list_all serializes (pushTrimmed (maxHistorySize (manager sampleSession)) (undoStack (manager sampleSession))
          (Some (fst (command_execute ?e1 sampleWorld))))"
    by (simp add: sampleSession_facts pushTrimmed_def edit_execute_fst[OF e1] editNote_facts)
  from execute_catalog_push[OF sampleSession_facts(3) ma1 this]
  have s1: "undoStack (manager S1) = [] @ [Some ?e1]" "redoStack (manager S1) = []" "\<not> isExecuting (manager S1)"
    "env S1 = snd (command_execute ?e1 sampleWorld)"
    by (simp_all add: S1_def afterExecute_def sampleSession_facts pushTrimmed_def edit_execute_fst[OF e1])
  have ok1: "store_ok (env S1)" using sample_ok e1 by (simp add: s1 edit_execute_ok)
  have tx1: "targetText ?e1 (env S1) = Some ''ab''"
    using targetText_execute[OF sample_ok e1 refl] by (simp add: s1 sample_text editNote_facts)
  \<comment> \<open>second edit, merged\<close>
  from execute_catalog_edit_merge[OF s1(1) s1(3) _ _ e1, of ?e2 0 100 ?cfg] s1(2) ok1 w
  obtain mc where mc: "undoStack (manager S2) = [] @ [Some mc]" "redoStack (manager S2) = []"
      "\<not> isExecuting (manager S2)" "editTarget mc = editTarget ?e1" "base_timestamp (command_base mc) = Some 0"
      "editOldText mc = ''ab''" "editNewText mc = ''ab''" "store_ok (env S2)"
      "targetText ?e1 (env S2) = Some ''ab''"
    by (auto simp: S2_def afterExecute_def editNote_facts tx1)
  have emc: "editTarget mc \<noteq> None" using mc(4) e1 by simp
  have tmc: "targetText mc (env S2) = Some ''ab''"
    using mc(4,9) by (cases mc) (auto simp: editNote_def)
  \<comment> \<open>third edit, merged\<close>
  from execute_catalog_edit_merge[OF mc(1) mc(3) _ _ emc, of ?e3 0 200 ?cfg] mc ok1 w
  obtain mc' where mc': "undoStack (manager S3) = [] @ [Some mc']" "redoStack (manager S3) = []"
      "\<not> isExecuting (manager S3)" "editTarget mc' = editTarget mc" "base_timestamp (command_base mc') = Some 0"
      "editOldText mc' = ''abc''" "editNewText mc' = ''ab''" "store_ok (env S3)"
      "targetText mc (env S3) = Some ''ab''"
    by (auto simp: S3_def afterExecute_def editNote_facts tmc)
  have emc': "editTarget mc' \<noteq> None" using mc'(4) emc by simp
  have t3: "targetText ?e1 (env S3) = Some ''ab''"
    using mc'(9) mc(4) by (cases mc) (auto simp: editNote_def)
  \<comment> \<open>one undo\<close>
  from undo_catalog_eval[OF mc'(1) mc'(3), of ?cfg] mc'(2) edit_serializes[OF emc'] mc'(5)
  have u: "env S4 = command_undo mc' (env S3)"
    by (simp add: S4_def afterUndo_def)
  have t4: "targetText ?e1 (env S4) = Some ''abc''"
    using targetText_execute_undo[OF mc'(8) emc', of ?e1] mc'(4) mc(4) t3 mc'(6) by (simp add: u)
  show ?thesis
    using m t3 t4 mc'(1) sample_text[of 0 "''a''" "''ab''"]
    by (simp add: S1_def[symmetric] S2_def[symmetric] S3_def[symmetric] S4_def[symmetric] sampleSession_facts)
qed

section \<open>A failed undo and a reloaded history\<close>

text \<open>
  C3. With optimistic updates (the default), \<open>undo()\<close> pops the command and calls its
  \<open>undo()\<close> before pushing it on the redo stack; when that call throws, the \<open>catch\<close> block
  runs \<open>undoStack.push(redoStack.pop()!)\<close> all the same. With an empty redo stack the undo
  stack ends up holding \<open>undefined\<close> in place of the command: the stacks are not as they
  were before the attempt.
\<close>

theorem failed_undo_loses_command:
  "undoStack (manager oneDone) = [Some toggleA] \<and> redoStack (manager oneDone) = []
   \<and> fst (undo failingUndo defaultConfig oneDone)
       = Inl (CommandExecutionError ''Undo failed'' (JsError ''store unavailable''))
   \<and> undoStack (manager (afterUndo failingUndo defaultConfig oneDone)) = [None]
   \<and> redoStack (manager (afterUndo failingUndo defaultConfig oneDone)) = []"
  by (simp add: afterUndo_def undo_def undoBody_def invoke_def lastSlot_def failingUndo_def oneDone_def
      sampleSession_def sampleManager_def defaultConfig_def Let_def)

lemma reopened_manager:
  "manager reopened =
     \<lparr>undoStack = [Some (ToggleChecklistItemCommand \<lparr>base_id = ''c1'', base_dateKey = ''2024-05-01'', base_timestamp = Some 0\<rparr> ''A''),
                   Some (ToggleChecklistItemCommand \<lparr>base_id = ''c2'', base_dateKey = ''2024-05-01'', base_timestamp = Some 10\<rparr> ''B''),
                   Some (ToggleChecklistItemCommand \<lparr>base_id = ''c3'', base_dateKey = ''2024-05-01'', base_timestamp = Some 20\<rparr> ''A'')],
      redoStack = [], currentDateKey = ''2024-05-01'', maxHistorySize = 2, isExecuting = False, notified = 0\<rparr>"
  by (simp add: reopened_def newHistoryManager_def loadHistory_def getPersistedHistory_def sampleStore_def
      defaultConfig_def threeSaved_def deserializeStack_def List.map_filter_simps catalog_def Let_def)

text \<open>
  C6. \<open>loadHistory\<close> installs the persisted stacks without trimming them: a manager
  created with \<open>maxHistorySize = 2\<close> over a persisted history of three commands has an undo
  stack of length 3, and a further successful \<open>executeCommand\<close>, which pushes one and
  shifts one, leaves it at 3.
\<close>

theorem loaded_history_exceeds_capacity:
  "maxHistorySize (manager reopened) = 2
   \<and> length (undoStack (manager reopened)) = 3
   \<and> fst (executeCommand catalog defaultConfig (EditNoteCommand (sampleBase 5000) ''n1'' ''a'' ''b'') reopened) = Inr ()
   \<and> length (undoStack (manager (afterExecute catalog defaultConfig
        (EditNoteCommand (sampleBase 5000) ''n1'' ''a'' ''b'') reopened))) = 3"
proof -
  let ?c = "EditNoteCommand (sampleBase 5000) ''n1'' ''a'' ''b''"
  have idle: "\<not> isExecuting (manager reopened)" by (simp add: reopened_manager)
  have ma: "mergeAttempt catalog defaultConfig ?c reopened = (None, env reopened)"
    by (simp add: mergeAttempt_def lastSlot_def reopened_manager canMergeCommands_def catalog_def)
  have ser: "list_all serializes (pushTrimmed (maxHistorySize (manager reopened)) (undoStack (manager reopened))
          (Some (fst (command_execute ?c (env reopened)))))"
    by (simp add: reopened_manager pushTrimmed_def serializes_def stamp_def sampleBase_def)
  from execute_catalog_push[OF idle ma ser] show ?thesis
    by (simp add: afterExecute_def reopened_manager pushTrimmed_def)
qed

section \<open>Failures of persistence\<close>

text \<open>
  The push path of \<open>executeCommand\<close> on an idle manager, with optimistic updates and
  persistence enabled, for a command whose \<open>execute()\<close> succeeds. When the two stacks
  serialize, the call succeeds whatever the durable store does, and a rejected \<open>put\<close>
  leaves the state in the in-memory map. When serializing the stacks throws \<open>e\<close> and the
  command's \<open>undo()\<close> succeeds, the call raises \<open>PersistenceError\<close> with cause \<open>e\<close>, the
  world is the one \<open>undo()\<close> left, and the pushed command is off the undo stack again.
\<close>

lemma persistence_failure_handling:
  assumes idle: "\<not> isExecuting (manager S)"
    and push: "mergeAttempt ops cfg c S = (None, w0)"
    and opt: "enableOptimisticUpdates cfg" and pers: "enablePersistence cfg"
    and exec: "i_execute ops c w0 = (Inr (), c1, w1)"
    and m1: "m1 = pushed ops c w0 ((manager S)\<lparr>isExecuting := True\<rparr>)"
    and R: "R = executeCommand ops cfg c S"
  shows "(\<forall>st. historyState ops m1 (store S) = Inr st \<longrightarrow>
            fst R = Inr () \<and> env (snd R) = w1 \<and> undoStack (manager (snd R)) = undoStack m1
            \<and> (isHistoryDBAvailable (store S) \<and> historyDbInstance (store S) \<and> \<not> durablePuts (store S)
                 \<longrightarrow> fallbackHistoryStorage (store (snd R)) (currentDateKey (manager S)) = Some st))
       \<and> (\<forall>e c2 w2. historyState ops m1 (store S) = Inl e \<and> i_undo ops c1 w1 = (Inr (), c2, w2) \<longrightarrow>
            fst R = Inl (PersistenceError ''Failed to persist command'' e)
            \<and> env (snd R) = w2 \<and> undoStack (manager (snd R)) = butlast (undoStack m1))"
proof (intro conjI allI impI)
  fix st assume hs: "historyState ops m1 (store S) = Inr st"
  define h1 where "h1 = snd (saveHistory ops cfg m1 (store S))"
  have "fst (saveHistory ops cfg m1 (store S)) = Inr ()" using hs by (simp add: saveHistory_result)
  then have sv: "saveHistory ops cfg m1 (store S) = (Inr (), h1)" by (simp add: h1_def prod_eq_iff)
  have r: "R = (Inr (), \<lparr>manager = (notifyListeners m1)\<lparr>isExecuting := False\<rparr>, store = h1, env = w1\<rparr>)"
    using executeCommand_push_eval[OF idle push exec sv[unfolded m1]] by (simp add: R m1)
  then show "fst R = Inr ()" "env (snd R) = w1" "undoStack (manager (snd R)) = undoStack m1"
    by (simp_all add: notifyListeners_def)
  assume "isHistoryDBAvailable (store S) \<and> historyDbInstance (store S) \<and> \<not> durablePuts (store S)"
  with saveHistory_put_failure[OF hs pers] have "fallbackHistoryStorage h1 (currentDateKey m1) = Some st"
    by (simp add: h1_def)
  with r show "fallbackHistoryStorage (store (snd R)) (currentDateKey (manager S)) = Some st"
    by (simp add: m1 pushed_def)
next
  fix e c2 w2
  assume a: "historyState ops m1 (store S) = Inl e \<and> i_undo ops c1 w1 = (Inr (), c2, w2)"
  define h1 where "h1 = snd (saveHistory ops cfg m1 (store S))"
  have "fst (saveHistory ops cfg m1 (store S)) = Inl e" using a pers by (simp add: saveHistory_result)
  then have sv: "saveHistory ops cfg m1 (store S) = (Inl e, h1)" by (simp add: h1_def prod_eq_iff)
  from a have un: "i_undo ops c1 w1 = (Inr (), c2, w2)" by simp
  from executeCommand_rollback_eval[OF idle push opt exec sv[unfolded m1] un]
  show "fst R = Inl (PersistenceError ''Failed to persist command'' e)" "env (snd R) = w2"
    "undoStack (manager (snd R)) = butlast (undoStack m1)"
    by (simp_all add: R m1 notifyListeners_def)
qed

text \<open>
  With a durable store that rejects every \<open>put\<close>, \<open>executeCommand\<close> of an edit returns
  normally, the edit stays applied and the command stays on the undo stack.
\<close>

lemma rejected_put_is_swallowed:
  "\<not> durablePuts (store rejectingPut)
   \<and> targetText (editNote 0 ''a'' ''ab'') (env rejectingPut) = Some ''a''
   \<and> fst (executeCommand catalog defaultConfig (editNote 0 ''a'' ''ab'') rejectingPut) = Inr ()
   \<and> targetText (editNote 0 ''a'' ''ab'') (env (afterExecute catalog defaultConfig (editNote 0 ''a'' ''ab'') rejectingPut))
       = Some ''ab''
   \<and> undoStack (manager (afterExecute catalog defaultConfig (editNote 0 ''a'' ''ab'') rejectingPut))
       = [Some (editNote 0 ''a'' ''ab'')]"
proof -
  let ?e1 = "editNote 0 ''a'' ''ab''"
  have f: "undoStack (manager rejectingPut) = []" "\<not> isExecuting (manager rejectingPut)"
    "env rejectingPut = sampleWorld" "maxHistorySize (manager rejectingPut) = 100"
    by (simp_all add: rejectingPut_def sampleSession_def sampleManager_def)
  have e1: "editTarget ?e1 \<noteq> None" by (simp add: editNote_facts)
  have ma1: "mergeAttempt catalog defaultConfig ?e1 rejectingPut = (None, sampleWorld)"
    using mergeAttempt_fresh[of rejectingPut catalog defaultConfig ?e1] by (simp add: f)
  have "list_all serializes (pushTrimmed (maxHistorySize (manager rejectingPut)) (undoStack (manager rejectingPut))
          (Some (fst (command_execute ?e1 sampleWorld))))"
    by (simp add: f pushTrimmed_def edit_execute_fst[OF e1] editNote_facts)
  from execute_catalog_push[OF f(2) ma1 this]
  have s1: "fst (executeCommand catalog defaultConfig ?e1 rejectingPut) = Inr ()"
    "undoStack (manager (afterExecute catalog defaultConfig ?e1 rejectingPut)) = [Some ?e1]"
    "env (afterExecute catalog defaultConfig ?e1 rejectingPut) = snd (command_execute ?e1 sampleWorld)"
    by (simp_all add: afterExecute_def f pushTrimmed_def edit_execute_fst[OF e1])
  have tx1: "targetText ?e1 (snd (command_execute ?e1 sampleWorld)) = Some ''ab''"
    using targetText_execute[OF sample_ok e1 refl] by (simp add: sample_text editNote_facts)
  show ?thesis using s1 tx1 sample_text[of 0 "''a''" "''ab''"]
    by (simp add: f) (simp add: rejectingPut_def sampleSession_def sampleStore_def)
qed

section \<open>Busy manager, fallback store and redo on the sample session\<close>

text \<open>
  C8 as stated fails: \<open>undo()\<close> on a busy manager with a command on the undo stack
  returns \<open>false\<close>; it does not fail with a busy condition.
\<close>

theorem busy_undo_returns_false:
  "isExecuting (manager busySession) \<and> undoStack (manager busySession) = [Some toggleA]
   \<and> undo catalog defaultConfig busySession = (Inr False, busySession)"
  by (simp add: undo_def busySession_def sampleSession_def sampleManager_def)

text \<open>
  The three calls on the busy sample session.
\<close>

theorem busy_calls_change_nothing_witness:
  "isExecuting (manager busySession)
   \<and> executeCommand catalog defaultConfig toggleA busySession
       = (Inl (UndoRedoError ''Cannot execute command while another command is executing''), busySession)
   \<and> undo catalog defaultConfig busySession = (Inr False, busySession)
   \<and> redo catalog defaultConfig busySession = (Inr False, busySession)"
proof -
  have b: "isExecuting (manager busySession)"
    by (simp add: busySession_def sampleSession_def sampleManager_def)
  from busy_calls_change_nothing[OF b, of catalog defaultConfig toggleA] b show ?thesis by simp
qed

text \<open>
  A session whose \<open>openDB\<close> failed once: one request was issued, and none after it.
\<close>

theorem fallback_is_permanent_witness:
  "isHistoryDBAvailable failedOpen \<and> \<not> durableOpens failedOpen
   \<and> \<not> isHistoryDBAvailable (store fallbackSession)
   \<and> durableRequests (store fallbackSession) = 1
   \<and> getPersistedHistory ''2024-05-01'' (store fallbackSession) = (None, store fallbackSession)
   \<and> durableRequests (store (afterExecute catalog defaultConfig toggleA fallbackSession)) = 1
   \<and> \<not> isHistoryDBAvailable (store (afterExecute catalog defaultConfig toggleA fallbackSession))
   \<and> durableHistory (store (afterExecute catalog defaultConfig toggleA fallbackSession)) = Map.empty
   \<and> durableRequests (store (afterUndo catalog defaultConfig fallbackSession)) = 1
   \<and> map_option h_undoStack
        (fallbackHistoryStorage
           (snd (saveHistory catalog defaultConfig (sampleManager\<lparr>undoStack := [Some toggleA]\<rparr>)
                   (store fallbackSession))) ''2024-05-01'')
       = Some [Serial ''c'' ''2024-05-01'' (Some 0) (ToggleChecklistItemData ''A'')]"
proof -
  have o: "isHistoryDBAvailable failedOpen" "\<not> durableOpens failedOpen"
    by (simp_all add: failedOpen_def sampleStore_def)
  have st: "store fallbackSession = initHistoryDB failedOpen"
    by (simp add: fallbackSession_def sampleSession_def)
  have f: "\<not> isHistoryDBAvailable (store fallbackSession)"
    "durableRequests (store fallbackSession) = 1"
    "fallbackHistoryStorage (store fallbackSession) ''2024-05-01'' = None"
    "durableHistory (store fallbackSession) = Map.empty"
    "historyClock (store fallbackSession) = 5"
    by (simp_all add: st initHistoryDB_def Let_def failedOpen_def sampleStore_def)
  define saved where "saved = \<lparr>h_undoStack = [Serial ''c'' ''2024-05-01'' (Some 0) (ToggleChecklistItemData ''A'')],
                     h_redoStack = [], h_dateKey = ''2024-05-01'', h_maxHistorySize = 100, h_lastModified = 5\<rparr>"
  have hs: "historyState catalog (sampleManager\<lparr>undoStack := [Some toggleA]\<rparr>) (store fallbackSession)
              = Inr saved" unfolding saved_def
    by (simp add: historyState_def catalog_def toggleA_def sampleBase_def stamp_def sampleManager_def f)
  have e: "enablePersistence defaultConfig" by (simp add: defaultConfig_def)
  have c: "currentDateKey (sampleManager\<lparr>undoStack := [Some toggleA]\<rparr>) = ''2024-05-01''"
    by (simp add: sampleManager_def)
  from fallback_is_permanent[OF f(1), of failedOpen "''2024-05-01''" catalog defaultConfig
      "sampleManager\<lparr>undoStack := [Some toggleA]\<rparr>" saved toggleA] o f hs e c
  show ?thesis by (simp add: durableUntouched_def afterExecute_def afterUndo_def saved_def)
qed

text \<open>
  On the sample day: adding an item, undoing, toggling item \<open>A\<close>.
\<close>

theorem new_action_invalidates_redo_witness:
  "mergeAttempt catalog defaultConfig addBread sampleSession = (None, sampleWorld)
   \<and> fst (executeCommand catalog defaultConfig addBread sampleSession) = Inr ()
   \<and> fst (undo catalog defaultConfig (afterExecute catalog defaultConfig addBread sampleSession)) = Inr True
   \<and> fst (executeCommand catalog defaultConfig toggleA
            (afterUndo catalog defaultConfig (afterExecute catalog defaultConfig addBread sampleSession))) = Inr ()
   \<and> length (redoStack (manager
        (afterUndo catalog defaultConfig (afterExecute catalog defaultConfig addBread sampleSession)))) = 1
   \<and> length (redoStack (manager
        (afterExecute catalog defaultConfig toggleA
          (afterUndo catalog defaultConfig (afterExecute catalog defaultConfig addBread sampleSession))))) = 0"
proof -
  let ?cfg = defaultConfig
  define S1 where "S1 = afterExecute catalog ?cfg addBread sampleSession"
  define S2 where "S2 = afterUndo catalog ?cfg S1"
  define S3 where "S3 = afterExecute catalog ?cfg toggleA S2"
  define c1 where "c1 = fst (command_execute addBread sampleWorld)"
  have ser1: "serializes (Some c1)"
    by (simp add: c1_def addBread_def case_prod_beta serializes_def stamp_def sampleBase_def)
  have serT: "serializes (Some (fst (command_execute toggleA w)))" for w
    by (simp add: toggleA_def serializes_def stamp_def sampleBase_def)
  have ma1: "mergeAttempt catalog ?cfg addBread sampleSession = (None, sampleWorld)"
    using mergeAttempt_fresh[of sampleSession catalog ?cfg addBread] by (simp add: sampleSession_facts)
  have "list_all serializes (pushTrimmed (maxHistorySize (manager sampleSession)) (undoStack (manager sampleSession))
          (Some (fst (command_execute addBread sampleWorld))))"
    using ser1 by (simp add: sampleSession_facts pushTrimmed_def c1_def)
  from execute_catalog_push[OF sampleSession_facts(3) ma1 this]
  have s1: "fst (executeCommand catalog ?cfg addBread sampleSession) = Inr ()"
     "undoStack (manager S1) = [] @ [Some c1]" "redoStack (manager S1) = []" "\<not> isExecuting (manager S1)"
     "maxHistorySize (manager S1) = 100"
    by (simp_all add: S1_def afterExecute_def sampleSession_facts pushTrimmed_def c1_def)
  have e1: "executeCommand catalog ?cfg addBread sampleSession = (Inr (), S1)"
    using s1(1) by (simp add: S1_def afterExecute_def prod_eq_iff)
  from undo_catalog_eval[OF s1(2) s1(4), of ?cfg] ser1 s1(3)
  have s2: "fst (undo catalog ?cfg S1) = Inr True" "undoStack (manager S2) = []"
     "redoStack (manager S2) = [Some c1]" "\<not> isExecuting (manager S2)" "maxHistorySize (manager S2) = 100"
    by (simp_all add: S2_def afterUndo_def s1)
  have u1: "undo catalog ?cfg S1 = (Inr True, S2)"
    using s2(1) by (simp add: S2_def afterUndo_def prod_eq_iff)
  have ma2: "mergeAttempt catalog ?cfg toggleA S2 = (None, env S2)"
    by (rule mergeAttempt_fresh[OF s2(2)])
  have "list_all serializes (pushTrimmed (maxHistorySize (manager S2)) (undoStack (manager S2))
          (Some (fst (command_execute toggleA (env S2)))))"
    using serT by (simp add: s2 pushTrimmed_def)
  from execute_catalog_push[OF s2(4) ma2 this]
  have s3: "fst (executeCommand catalog ?cfg toggleA S2) = Inr ()" by simp
  then have e3: "executeCommand catalog ?cfg toggleA S2 = (Inr (), S3)"
    by (simp add: S3_def afterExecute_def prod_eq_iff)
  from new_action_invalidates_redo[OF ma1 e1 u1 ma2 e3] ma1 s1(1) s2(1) s3
  show ?thesis
    by (simp add: S1_def[symmetric] S2_def[symmetric] S3_def[symmetric])
qed

section \<open>Persistence failures and bursts of edits on the sample session\<close>

lemma undo_persist_failure_eval:
  assumes "undoStack (manager S) \<noteq> []" "\<not> isExecuting (manager S)" "enableOptimisticUpdates cfg"
    and "invoke (i_undo ops) (lastSlot (undoStack (manager S))) (env S) = (Inr (), slot, w1)"
    and "saveHistory ops cfg (undone slot ((manager S)\<lparr>isExecuting := True\<rparr>)) (store S) = (Inl pe, h1)"
    and "invoke (i_execute ops) slot w1 = (Inr (), slot2, w2)"
  shows "undo ops cfg S =
           (Inl (CommandExecutionError ''Undo failed'' (PersistenceError ''Failed to persist undo'' pe)),
            \<lparr>manager = (notifyListeners
                 ((manager S)\<lparr>isExecuting := True, undoStack := butlast (undoStack (manager S)) @ [slot2]\<rparr>))
                 \<lparr>isExecuting := False\<rparr>,
             store = h1, env = w2\<rparr>)"
  using assms by (simp add: undo_def undoBody_def undone_def Let_def notifyListeners_def)

lemma executeCommand_merge_failure_eval:
  assumes "\<not> isExecuting (manager S)" "mergeAttempt ops cfg c S = (Some mc, w0)"
    and "enableOptimisticUpdates cfg"
    and "i_execute ops mc w0 = (Inr (), c1, w1)"
    and "saveHistory ops cfg (merged c1 ((manager S)\<lparr>isExecuting := True\<rparr>)) (store S) = (Inl pe, h1)"
  shows "executeCommand ops cfg c S =
           (Inl pe, \<lparr>manager = (merged c1 ((manager S)\<lparr>isExecuting := True\<rparr>))\<lparr>isExecuting := False\<rparr>,
                     store = h1, env = w1\<rparr>)"
proof -
  have b: "executeBody ops cfg c (S\<lparr>manager := (manager S)\<lparr>isExecuting := True\<rparr>\<rparr>)
             = mergeBranch ops cfg mc (S\<lparr>manager := (manager S)\<lparr>isExecuting := True\<rparr>, env := w0\<rparr>)"
    using assms(2) executeBody_merge[of ops cfg c "S\<lparr>manager := (manager S)\<lparr>isExecuting := True\<rparr>\<rparr>" mc w0]
    by (simp add: mergeAttempt_executing)
  show ?thesis using assms(1,3,4,5) unfolding executeCommand_def b
    by (simp add: mergeBranch_def merged_def Let_def)
qed

lemma stale_undo:
  "fst (undo catalog defaultConfig staleToggled)
     = Inl (CommandExecutionError ''Undo failed''
              (PersistenceError ''Failed to persist undo'' (JsError ''RangeError: Invalid time value'')))
   \<and> undoStack (manager (afterUndo catalog defaultConfig staleToggled)) = [Some undatedToggle, Some toggleA]
   \<and> redoStack (manager (afterUndo catalog defaultConfig staleToggled)) = []
   \<and> map item_completed (itemsOf (env (afterUndo catalog defaultConfig staleToggled)) ''2024-05-01'') = [True, False]"
proof -
  let ?cfg = defaultConfig
  let ?d = "''2024-05-01''"
  have f: "undoStack (manager staleToggled) = [Some undatedToggle, Some toggleA]"
    "redoStack (manager staleToggled) = []" "\<not> isExecuting (manager staleToggled)"
    "env staleToggled = sampleWorld"
    by (simp_all add: staleToggled_def sampleSession_def sampleManager_def)
  have cfg: "enableOptimisticUpdates ?cfg" "enablePersistence ?cfg" by (simp_all add: defaultConfig_def)
  define w1 where "w1 = toggleItem ?d ''A'' sampleWorld"
  define w2 where "w2 = toggleItem ?d ''A'' w1"
  have ok1: "store_ok w1" by (simp add: w1_def toggleItem_ok sample_ok)
  have iv: "invoke (i_undo catalog) (lastSlot (undoStack (manager staleToggled))) (env staleToggled)
              = (Inr (), Some toggleA, w1)"
    by (simp add: f lastSlot_def invoke_def catalog_undo toggleA_def sampleBase_def w1_def)
  define m1 where "m1 = undone (Some toggleA) ((manager staleToggled)\<lparr>isExecuting := True\<rparr>)"
  have m1s: "undoStack m1 = [Some undatedToggle]" by (simp add: m1_def undone_def f)
  have hs: "historyState catalog m1 (store staleToggled) = Inl (JsError ''RangeError: Invalid time value'')"
    by (simp add: historyState_def m1s) (simp add: catalog_def undatedToggle_def stamp_def)
  define h1 where "h1 = snd (saveHistory catalog ?cfg m1 (store staleToggled))"
  have "fst (saveHistory catalog ?cfg m1 (store staleToggled)) = Inl (JsError ''RangeError: Invalid time value'')"
    by (simp add: saveHistory_result cfg hs)
  then have sv: "saveHistory catalog ?cfg m1 (store staleToggled) = (Inl (JsError ''RangeError: Invalid time value''), h1)"
    by (simp add: h1_def prod_eq_iff)
  have rb: "invoke (i_execute catalog) (Some toggleA) w1 = (Inr (), Some toggleA, w2)"
    by (simp add: invoke_def catalog_execute toggleA_def sampleBase_def w2_def)
  have items: "map item_completed (itemsOf w2 ?d) = [True, False]"
    using ok1 sample_ok
    by (simp add: w2_def w1_def itemsOf_toggleItem toggleItem_clock sample_itemsOf sampleDay_def)
  from undo_persist_failure_eval[OF _ f(3) cfg(1) iv sv[unfolded m1_def] rb] f items
  show ?thesis by (simp add: afterUndo_def notifyListeners_def)
qed

lemma stale_merge:
  "fst (executeCommand catalog defaultConfig (editNote 100 ''a'' ''ab'') staleEdited)
     = Inl (JsError ''RangeError: Invalid time value'')
   \<and> undoStack (manager (afterExecute catalog defaultConfig (editNote 100 ''a'' ''ab'') staleEdited))
       = [Some undatedToggle,
          Some (EditNoteCommand \<lparr>base_id = ''uuid-'', base_dateKey = ''2024-05-01'', base_timestamp = Some 0\<rparr>
                  ''n1'' ''a'' ''a'')]"
proof -
  let ?cfg = defaultConfig
  let ?c = "editNote 100 ''a'' ''ab''"
  let ?mc = "EditNoteCommand \<lparr>base_id = ''uuid-'', base_dateKey = ''2024-05-01'', base_timestamp = Some 0\<rparr>
                  ''n1'' ''a'' ''a''"
  have f: "undoStack (manager staleEdited) = [Some undatedToggle, Some (editNote 0 ''b'' ''a'')]"
    "redoStack (manager staleEdited) = []" "\<not> isExecuting (manager staleEdited)"
    "env staleEdited = sampleWorld"
    by (simp_all add: staleEdited_def sampleSession_def sampleManager_def)
  have cfg: "enableOptimisticUpdates ?cfg" "enablePersistence ?cfg" "mergeTimeWindow ?cfg = 1000"
    by (simp_all add: defaultConfig_def)
  define w0 where "w0 = sampleWorld\<lparr>uuidsDrawn := Suc (uuidsDrawn sampleWorld)\<rparr>"
  have ma: "mergeAttempt catalog ?cfg ?c staleEdited = (Some ?mc, w0)"
    by (simp add: mergeAttempt_def f lastSlot_def canMergeCommands_def cfg)
       (simp add: catalog_def editNote_def sampleBase_def elapsedBelow_def command_merge_def randomUUID_def
          w0_def sampleWorld_def)
  define w1 where "w1 = snd (command_execute ?mc w0)"
  have x: "i_execute catalog ?mc w0 = (Inr (), ?mc, w1)"
    by (simp add: catalog_execute w1_def)
  define m1 where "m1 = merged ?mc ((manager staleEdited)\<lparr>isExecuting := True\<rparr>)"
  have m1s: "undoStack m1 = [Some undatedToggle, Some ?mc]" by (simp add: m1_def merged_def f replaceTop_def)
  have hs: "historyState catalog m1 (store staleEdited) = Inl (JsError ''RangeError: Invalid time value'')"
    by (simp add: historyState_def m1s) (simp add: catalog_def undatedToggle_def stamp_def)
  define h1 where "h1 = snd (saveHistory catalog ?cfg m1 (store staleEdited))"
  have "fst (saveHistory catalog ?cfg m1 (store staleEdited)) = Inl (JsError ''RangeError: Invalid time value'')"
    by (simp add: saveHistory_result cfg hs)
  then have sv: "saveHistory catalog ?cfg m1 (store staleEdited) = (Inl (JsError ''RangeError: Invalid time value''), h1)"
    by (simp add: h1_def prod_eq_iff)
  from executeCommand_merge_failure_eval[OF f(3) ma cfg(1) x sv[unfolded m1_def]] m1s
  show ?thesis by (simp add: afterExecute_def m1_def)
qed

text \<open>
  C2. A failure of persistence is not surfaced as the specification requires.
  \<^item> A durable store that rejects every \<open>put\<close>: \<open>saveHistory\<close> catches the rejection and
  keeps the state in the in-memory map, so \<open>executeCommand\<close> of an edit returns normally,
  the edit stays applied and the command stays on the undo stack.
  \<^item> A history that cannot be serialized, so that \<open>saveHistory\<close> does throw: \<open>undo()\<close> rolls
  its mutation back and restores both stacks, but what it raises is a
  \<open>CommandExecutionError\<close> wrapped around the \<open>PersistenceError\<close>.
  \<^item> The same history when \<open>executeCommand\<close> merges the command into the last entry: the
  error of \<open>saveHistory\<close> is rethrown as it is, no \<open>PersistenceError\<close>, and the last entry
  stays replaced by the merged command.
\<close>

theorem persistence_failure_not_surfaced:
  "\<not> durablePuts (store rejectingPut)
   \<and> targetText (editNote 0 ''a'' ''ab'') (env rejectingPut) = Some ''a''
   \<and> fst (executeCommand catalog defaultConfig (editNote 0 ''a'' ''ab'') rejectingPut) = Inr ()
   \<and> targetText (editNote 0 ''a'' ''ab'') (env (afterExecute catalog defaultConfig (editNote 0 ''a'' ''ab'') rejectingPut))
       = Some ''ab''
   \<and> undoStack (manager (afterExecute catalog defaultConfig (editNote 0 ''a'' ''ab'') rejectingPut))
       = [Some (editNote 0 ''a'' ''ab'')]
   \<and> fst (undo catalog defaultConfig staleToggled)
       = Inl (CommandExecutionError ''Undo failed''
                (PersistenceError ''Failed to persist undo'' (JsError ''RangeError: Invalid time value'')))
   \<and> undoStack (manager (afterUndo catalog defaultConfig staleToggled)) = undoStack (manager staleToggled)
   \<and> redoStack (manager (afterUndo catalog defaultConfig staleToggled)) = redoStack (manager staleToggled)
   \<and> map item_completed (itemsOf (env (afterUndo catalog defaultConfig staleToggled)) ''2024-05-01'')
       = map item_completed (itemsOf (env staleToggled) ''2024-05-01'')
   \<and> fst (executeCommand catalog defaultConfig (editNote 100 ''a'' ''ab'') staleEdited)
       = Inl (JsError ''RangeError: Invalid time value'')
   \<and> undoStack (manager (afterExecute catalog defaultConfig (editNote 100 ''a'' ''ab'') staleEdited))
       = [Some undatedToggle,
          Some (EditNoteCommand \<lparr>base_id = ''uuid-'', base_dateKey = ''2024-05-01'', base_timestamp = Some 0\<rparr>
                  ''n1'' ''a'' ''a'')]
   \<and> undoStack (manager staleEdited) = [Some undatedToggle, Some (editNote 0 ''b'' ''a'')]"
  using rejected_put_is_swallowed stale_undo stale_merge
  by (simp add: staleToggled_def staleEdited_def sampleSession_def sampleManager_def sample_itemsOf sampleDay_def)

text \<open>
  C7. Three edits of the sample note at 0, 600 and 1200 ms with the default window of
  1000 ms. The second is merged into the first, and the merged entry carries the
  predecessor's timestamp 0. The third comes 600 ms after the second, within the window,
  and yet is not merged: it is measured against the timestamp 0 and pushed as a second
  entry.
\<close>

theorem third_edit_not_merged:
  "mergeTimeWindow defaultConfig = 1000
   \<and> length (undoStack (manager (afterExecute catalog defaultConfig (editNote 0 ''a'' ''ab'') sampleSession))) = 1
   \<and> map (map_option (\<lambda>c. base_timestamp (command_base c)))
        (undoStack (manager
          (afterExecute catalog defaultConfig (editNote 600 ''ab'' ''abc'')
            (afterExecute catalog defaultConfig (editNote 0 ''a'' ''ab'') sampleSession)))) = [Some (Some 0)]
   \<and> length (undoStack (manager
        (afterExecute catalog defaultConfig (editNote 1200 ''abc'' ''abcd'')
          (afterExecute catalog defaultConfig (editNote 600 ''ab'' ''abc'')
            (afterExecute catalog defaultConfig (editNote 0 ''a'' ''ab'') sampleSession))))) = 2
   \<and> lastSlot (undoStack (manager
        (afterExecute catalog defaultConfig (editNote 1200 ''abc'' ''abcd'')
          (afterExecute catalog defaultConfig (editNote 600 ''ab'' ''abc'')
            (afterExecute catalog defaultConfig (editNote 0 ''a'' ''ab'') sampleSession)))))
       = Some (editNote 1200 ''abc'' ''abcd'')"
proof -
  let ?e1 = "editNote 0 ''a'' ''ab''" and ?e2 = "editNote 600 ''ab'' ''abc''" and ?e3 = "editNote 1200 ''abc'' ''abcd''"
  let ?cfg = defaultConfig
  define S1 where "S1 = afterExecute catalog ?cfg ?e1 sampleSession"
  define S2 where "S2 = afterExecute catalog ?cfg ?e2 S1"
  define S3 where "S3 = afterExecute catalog ?cfg ?e3 S2"
  have w: "mergeTimeWindow ?cfg = 1000" by (simp add: defaultConfig_def)
  have e1: "editTarget ?e1 \<noteq> None" by (simp add: editNote_facts)
  have ma1: "mergeAttempt catalog ?cfg ?e1 sampleSession = (None, sampleWorld)"
    using mergeAttempt_fresh[of sampleSession catalog ?cfg ?e1] by (simp add: sampleSession_facts)
  have "list_all serializes (pushTrimmed (maxHistorySize (manager sampleSession)) (undoStack (manager sampleSession))
          (Some (fst (command_execute ?e1 sampleWorld))))"
    by (simp add: sampleSession_facts pushTrimmed_def edit_execute_fst[OF e1] editNote_facts)
  from execute_catalog_push[OF sampleSession_facts(3) ma1 this]
  have s1: "undoStack (manager S1) = [] @ [Some ?e1]" "redoStack (manager S1) = []" "\<not> isExecuting (manager S1)"
    "env S1 = snd (command_execute ?e1 sampleWorld)" "maxHistorySize (manager S1) = 100"
    by (simp_all add: S1_def afterExecute_def sampleSession_facts pushTrimmed_def edit_execute_fst[OF e1])
  have ok1: "store_ok (env S1)" using sample_ok e1 by (simp add: s1 edit_execute_ok)
  from execute_catalog_edit_merge[OF s1(1) s1(3) _ _ e1, of ?e2 0 600 ?cfg] s1(2) ok1 w
  obtain mc where mc: "undoStack (manager S2) = [] @ [Some mc]" "redoStack (manager S2) = []"
      "\<not> isExecuting (manager S2)" "editTarget mc = editTarget ?e1" "base_timestamp (command_base mc) = Some 0"
      "maxHistorySize (manager S2) = maxHistorySize (manager S1)"
    by (auto simp: S2_def afterExecute_def editNote_facts)
  have emc: "editTarget mc \<noteq> None" using mc(4) e1 by simp
  have "canMergeCommands catalog ?cfg mc ?e3 = ((1200::int) < mergeTimeWindow ?cfg)"
    by (rule canMerge_edit[OF emc _ mc(5)]) (simp_all add: editNote_facts mc(4))
  then have ma3: "mergeAttempt catalog ?cfg ?e3 S2 = (None, env S2)"
    by (simp add: mergeAttempt_def mc(1) lastSlot_def w)
  have e3: "editTarget ?e3 \<noteq> None" by (simp add: editNote_facts)
  have "list_all serializes (pushTrimmed (maxHistorySize (manager S2)) (undoStack (manager S2))
          (Some (fst (command_execute ?e3 (env S2)))))"
    using edit_serializes[OF emc] mc(5)
    by (simp add: mc s1 pushTrimmed_def edit_execute_fst[OF e3] editNote_facts)
  from execute_catalog_push[OF mc(3) ma3 this]
  have s3: "undoStack (manager S3) = [Some mc, Some ?e3]"
    by (simp add: S3_def afterExecute_def mc s1 pushTrimmed_def edit_execute_fst[OF e3])
  show ?thesis
    using w s1(1) mc(1,5) s3
    by (simp add: S1_def[symmetric] S2_def[symmetric] S3_def[symmetric] lastSlot_def)
qed

end
